theory Spec2Isabelle
  imports
    Main
    "HOL-Library.Char_ord"
    "HOL-Library.List_Lexorder"
    "HOL-Library.AList"
    "HOL-Library.Multiset"
begin

section \<open>GulpIO dataset adapters (gulpio/adapters.py)\<close>

text \<open>
  A shallow embedding of the four dataset adapters of \<^verbatim>\<open>gulpio/adapters.py\<close>:
  \<^verbatim>\<open>Custom20BNJsonVideoAdapter\<close>, \<^verbatim>\<open>Custom20BNCsvJpegAdapter\<close>,
  \<^verbatim>\<open>ImageListAdapter\<close> and \<^verbatim>\<open>ImageFolderAdapter\<close>.

  Conventions.
  \<^item> A Python \<^verbatim>\<open>str\<close> is a \<open>string\<close>: the bytes of its UTF-8 encoding, so
    that a character of ASCII is one \<open>char\<close>. The order on strings is the
    lexicographic order of \<open>List_Lexorder\<close> over the character codes of
    \<open>Char_ord\<close>, which is how Python compares strings (by code point; on UTF-8
    bytes the two orders agree).
  \<^item> A Python \<^verbatim>\<open>dict\<close> with keys that vary (a record of a manifest, the label
    index) is an association list with distinct keys, in insertion order:
    \<open>map_of\<close> reads a key and \<open>AList.update\<close> stores one (an existing key keeps
    its place, a new key goes last, as in Python). The fields of a manifest record
    are strings. A meta dictionary, whose keys are fixed by \<^verbatim>\<open>get_meta\<close>, is a
    record with an optional \<^verbatim>\<open>'path'\<close>.
  \<^item> An exception is a value of \<open>exn\<close>; a function that may raise returns
    \<open>exn + 'a\<close>, with \<open>Inl\<close> for the exception.
  \<^item> What the module imports from outside (the helpers of \<^verbatim>\<open>gulpio/utils.py\<close>, the
    file system, \<^verbatim>\<open>json\<close>, \<^verbatim>\<open>glob\<close>, \<^verbatim>\<open>random\<close>) is a field of the record
    \<open>env\<close>, a parameter of the model: nothing is assumed about what they return.
  \<^item> The meta dictionaries of an adapter are objects shared by reference between
    \<^verbatim>\<open>self.all_meta\<close>, its slices and the results handed to the consumer. They live
    in an explicit store (\<open>heap\<close>); \<open>all_meta\<close> is a list of addresses.
\<close>

subsection \<open>Python values and built-ins\<close>

datatype exn =
    KeyError string
  | IndexError
  | ValueError string
  | RuntimeError string
  | UnboundLocalError string
  | ImageNotFound string
  | CsvError string
  | OtherError string

text \<open>\<^verbatim>\<open>d[k]\<close> on a dictionary: the value, or \<^verbatim>\<open>KeyError(k)\<close>.\<close>

definition getitem :: "(string \<times> 'v) list \<Rightarrow> string \<Rightarrow> exn + 'v" where
  "getitem d k = (case map_of d k of None \<Rightarrow> Inl (KeyError k) | Some v \<Rightarrow> Inr v)"

text \<open>
  A list comprehension \<^verbatim>\<open>[f(x) for x in xs]\<close> whose element expression may raise:
  the first exception, in list order, ends it.
\<close>

fun map_exn :: "('a \<Rightarrow> exn + 'b) \<Rightarrow> 'a list \<Rightarrow> exn + 'b list" where
  "map_exn f [] = Inr []"
| "map_exn f (x # xs) =
     (case f x of
        Inl e \<Rightarrow> Inl e
      | Inr y \<Rightarrow> (case map_exn f xs of Inl e \<Rightarrow> Inl e | Inr ys \<Rightarrow> Inr (y # ys)))"

text \<open>
  A dictionary comprehension \<^verbatim>\<open>{k: v for ...}\<close> and a loop of \<^verbatim>\<open>d[k] = v\<close>
  both store the pairs one after the other.
\<close>

fun store_all :: "('k \<times> 'v) list \<Rightarrow> ('k \<times> 'v) list \<Rightarrow> ('k \<times> 'v) list" where
  "store_all [] d = d"
| "store_all ((k, v) # kvs) d = store_all kvs (AList.update k v d)"

text \<open>\<^verbatim>\<open>sorted(set(xs))\<close>: the distinct elements, in ascending order.\<close>

definition sorted_set :: "string list \<Rightarrow> string list" where
  "sorted_set xs = sort (remdups xs)"

text \<open>\<^verbatim>\<open>s.endswith(suffix)\<close>.\<close>

definition endswith :: "string \<Rightarrow> string \<Rightarrow> bool" where
  "endswith s suffix =
     (length suffix \<le> length s \<and> drop (length s - length suffix) s = suffix)"

text \<open>
  \<^verbatim>\<open>s.split(sep)\<close> for a one-character separator: the pieces between the
  separators, always at least one piece.
\<close>

fun split_on :: "char \<Rightarrow> string \<Rightarrow> string list" where
  "split_on c [] = [[]]"
| "split_on c (x # xs) =
     (if x = c then [] # split_on c xs
      else (case split_on c xs of
              [] \<Rightarrow> [[x]]
            | w # ws \<Rightarrow> (x # w) # ws))"

text \<open>
  \<^verbatim>\<open>s.strip()\<close>: the white space removed at both ends. The white space of
  Python is the set of the characters for which \<^verbatim>\<open>str.isspace\<close> holds: U+0009 to
  U+000D, U+001C to U+0020, U+0085, U+00A0, U+1680, U+2000 to U+200A, U+2028, U+2029,
  U+202F, U+205F and U+3000, here in UTF-8.
\<close>

definition whitespace :: "string list" where
  "whitespace =
     [[CHR 0x09], [CHR 0x0A], [CHR 0x0B], [CHR 0x0C], [CHR 0x0D],
      [CHR 0x1C], [CHR 0x1D], [CHR 0x1E], [CHR 0x1F], [CHR 0x20],
      [CHR 0xC2, CHR 0x85], [CHR 0xC2, CHR 0xA0], [CHR 0xE1, CHR 0x9A, CHR 0x80],
      [CHR 0xE2, CHR 0x80, CHR 0x80], [CHR 0xE2, CHR 0x80, CHR 0x81],
      [CHR 0xE2, CHR 0x80, CHR 0x82], [CHR 0xE2, CHR 0x80, CHR 0x83],
      [CHR 0xE2, CHR 0x80, CHR 0x84], [CHR 0xE2, CHR 0x80, CHR 0x85],
      [CHR 0xE2, CHR 0x80, CHR 0x86], [CHR 0xE2, CHR 0x80, CHR 0x87],
      [CHR 0xE2, CHR 0x80, CHR 0x88], [CHR 0xE2, CHR 0x80, CHR 0x89],
      [CHR 0xE2, CHR 0x80, CHR 0x8A], [CHR 0xE2, CHR 0x80, CHR 0xA8],
      [CHR 0xE2, CHR 0x80, CHR 0xA9], [CHR 0xE2, CHR 0x80, CHR 0xAF],
      [CHR 0xE2, CHR 0x81, CHR 0x9F], [CHR 0xE3, CHR 0x80, CHR 0x80]]"

definition starts_with :: "string \<Rightarrow> string \<Rightarrow> bool" where
  "starts_with s w = (w \<noteq> [] \<and> take (length w) s = w)"

text \<open>\<open>drop_leading ws s\<close>: \<open>s\<close> without the elements of \<open>ws\<close> it begins with.\<close>

function drop_leading :: "string list \<Rightarrow> string \<Rightarrow> string" where
  "drop_leading ws s =
     (case find (starts_with s) ws of
        None \<Rightarrow> s
      | Some w \<Rightarrow> drop_leading ws (drop (length w) s))"
  by pat_completeness auto
termination
proof (relation "measure (\<lambda>(ws, s). length s)")
  show "wf (measure (\<lambda>(ws, s). length s))" by simp
next
  fix ws :: "string list" and s w :: string
  assume "find (starts_with s) ws = Some w"
  then have "starts_with s w"
    by (auto simp: find_Some_iff)
  then have "w \<noteq> []" and "take (length w) s = w"
    by (simp_all add: starts_with_def)
  then have "s \<noteq> []" by auto
  then show "((ws, drop (length w) s), (ws, s)) \<in> measure (\<lambda>(ws, s). length s)"
    using \<open>w \<noteq> []\<close> by simp
qed

definition strip :: "string \<Rightarrow> string" where
  "strip s = rev (drop_leading (map rev whitespace) (rev (drop_leading whitespace s)))"

text \<open>
  \<^verbatim>\<open>os.path.join(a, b)\<close> of \<^verbatim>\<open>posixpath\<close>: an absolute \<open>b\<close> replaces \<open>a\<close>;
  otherwise \<open>b\<close> is appended, after a slash unless \<open>a\<close> is empty or ends in one.
  With more arguments the same step is repeated from the left.
\<close>

definition path_join :: "string \<Rightarrow> string \<Rightarrow> string" where
  "path_join a b =
     (if b \<noteq> [] \<and> hd b = CHR ''/'' then b
      else if a = [] \<or> last a = CHR ''/'' then a @ b
      else a @ ''/'' @ b)"

text \<open>\<^verbatim>\<open>os.path.basename(p)\<close>: what follows the last slash.\<close>

definition basename :: "string \<Rightarrow> string" where
  "basename p = rev (takeWhile (\<lambda>c. c \<noteq> CHR ''/'') (rev p))"

text \<open>
  \<^verbatim>\<open>os.path.dirname(p)\<close>: what precedes the last slash, with that slash; its
  trailing slashes are then removed unless it consists of slashes only.
\<close>

definition dirname :: "string \<Rightarrow> string" where
  "dirname p =
     (let head = rev (dropWhile (\<lambda>c. c \<noteq> CHR ''/'') (rev p))
      in if head \<noteq> [] \<and> head \<noteq> replicate (length head) (CHR ''/'')
         then rev (dropWhile (\<lambda>c. c = CHR ''/'') (rev head))
         else head)"

text \<open>
  A slice object \<^verbatim>\<open>slice(start, stop, step)\<close>; \<^verbatim>\<open>None\<close> is \<open>None\<close>.
  \<open>slice_indices\<close> follows CPython's \<^verbatim>\<open>slice.indices\<close>: a zero step raises,
  negative bounds count from the end, bounds are clamped to the list, and the
  indices run from \<open>start\<close> in steps of \<open>step\<close> up to (excluding) \<open>stop\<close>.
\<close>

datatype slice = Slice "int option" "int option" "int option"

definition adjust_index :: "int \<Rightarrow> int \<Rightarrow> int \<Rightarrow> int" where
  "adjust_index len step i =
     (if i < 0 then (if i + len < 0 then (if step < 0 then - 1 else 0) else i + len)
      else if len \<le> i then (if step < 0 then len - 1 else len)
      else i)"

definition slice_indices :: "slice \<Rightarrow> nat \<Rightarrow> exn + nat list" where
  "slice_indices sl n =
     (case sl of Slice start_opt stop_opt step_opt \<Rightarrow>
        let len = int n;
            step = (case step_opt of None \<Rightarrow> 1 | Some k \<Rightarrow> k)
        in if step = 0 then Inl (ValueError ''slice step cannot be zero'')
           else
             let start = (case start_opt of
                            None \<Rightarrow> (if step < 0 then len - 1 else 0)
                          | Some i \<Rightarrow> adjust_index len step i);
                 stop = (case stop_opt of
                           None \<Rightarrow> (if step < 0 then - 1 else len)
                         | Some i \<Rightarrow> adjust_index len step i);
                 count = (if step < 0
                          then (if stop < start then (start - stop - 1) div (- step) + 1 else 0)
                          else (if start < stop then (stop - start - 1) div step + 1 else 0))
             in Inr (map (\<lambda>k. nat (start + int k * step)) [0..<nat count]))"

text \<open>\<^verbatim>\<open>xs[sl]\<close>: a new list holding the selected elements.\<close>

definition getslice :: "'a list \<Rightarrow> slice \<Rightarrow> exn + 'a list" where
  "getslice xs sl =
     (case slice_indices sl (length xs) of
        Inl e \<Rightarrow> Inl e
      | Inr idxs \<Rightarrow> Inr (map (\<lambda>i. xs ! i) idxs))"

text \<open>
  \<^verbatim>\<open>random.shuffle(x)\<close>, the Fisher-Yates loop of the standard library:
  \<^verbatim>\<open>
  for i in reversed(range(1, len(x))):
      j = randbelow(i + 1)
      x[i], x[j] = x[j], x[i]
  \<close>
  \<open>rnd\<close> stands for \<^verbatim>\<open>randbelow\<close>; its contract \<open>0 \<le> j \<le> i\<close> is enforced by
  reducing what it returns modulo \<open>i + 1\<close>.
\<close>

fun shuffle_loop :: "(nat \<Rightarrow> nat) \<Rightarrow> nat \<Rightarrow> 'a list \<Rightarrow> 'a list" where
  "shuffle_loop rnd 0 xs = xs"
| "shuffle_loop rnd (Suc k) xs =
     (let i = Suc k; j = rnd (i + 1) mod (i + 1)
      in shuffle_loop rnd k (xs[i := xs ! j, j := xs ! i]))"

definition random_shuffle :: "(nat \<Rightarrow> nat) \<Rightarrow> 'a list \<Rightarrow> 'a list" where
  "random_shuffle rnd xs = shuffle_loop rnd (length xs - 1) xs"

text \<open>
  A text file. \<open>open_text\<close> (below) gives the decoded text of the file as it is
  stored. \<^verbatim>\<open>open(f, 'r')\<close> and \<^verbatim>\<open>gzip.open(f, 'rt')\<close> read it with universal
  newlines: \<^verbatim>\<open>'\r\n'\<close> and \<^verbatim>\<open>'\r'\<close> become \<^verbatim>\<open>'\n'\<close>. \<^verbatim>\<open>open(f, newline='\n')\<close> leaves
  the text as it is. In both modes, iterating over the file gives its lines, each
  with its line feed (the last line may have none).
\<close>

fun universal_newlines :: "string \<Rightarrow> string" where
  "universal_newlines [] = []"
| "universal_newlines [c] = (if c = CHR 0x0D then [CHR 0x0A] else [c])"
| "universal_newlines (c # d # cs) =
     (if c = CHR 0x0D
      then CHR 0x0A # (if d = CHR 0x0A then universal_newlines cs else universal_newlines (d # cs))
      else c # universal_newlines (d # cs))"

fun lines_from :: "string \<Rightarrow> string \<Rightarrow> string list" where
  "lines_from line [] = (if line = [] then [] else [line])"
| "lines_from line (c # cs) =
     (if c = CHR 0x0A then (line @ [c]) # lines_from [] cs else lines_from (line @ [c]) cs)"

text \<open>The lines of a text, as iterating over the file object gives them.\<close>

definition readlines :: "string \<Rightarrow> string list" where
  "readlines s = lines_from [] s"

text \<open>
  \<^verbatim>\<open>csv.reader(f, delimiter=';')\<close> of the standard library, with the default
  dialect (\<^verbatim>\<open>quotechar='"'\<close>, \<^verbatim>\<open>doublequote=True\<close>, no escape character,
  \<^verbatim>\<open>skipinitialspace=False\<close>, \<^verbatim>\<open>strict=False\<close>, \<^verbatim>\<open>QUOTE_MINIMAL\<close>): the automaton
  of \<^verbatim>\<open>Modules/_csv.c\<close>. The reader takes the lines of the file one by one and
  feeds their characters, then an end-of-line mark (\<open>None\<close>), to
  \<open>parse_process_char\<close>; a row is complete when the automaton is back in
  \<open>START_RECORD\<close>, and a quoted field may span lines. \<open>field_len\<close> counts the
  characters of the field in progress (code points: a continuation byte of UTF-8
  is not counted) against the field size limit.
\<close>

datatype csv_state =
  START_RECORD | START_FIELD | IN_FIELD | IN_QUOTED_FIELD | QUOTE_IN_QUOTED_FIELD | EAT_CRNL

record parser =
  state :: csv_state
  fields' :: "string list"
  field :: string
  field_len :: int

definition parse_reset :: parser where
  "parse_reset = \<lparr>state = START_RECORD, fields' = [], field = [], field_len = 0\<rparr>"

definition parse_save_field :: "parser \<Rightarrow> parser" where
  "parse_save_field p = p\<lparr>fields' := fields' p @ [field p], field := [], field_len := 0\<rparr>"

definition field_limit :: int where
  "field_limit = 131072"

definition is_continuation :: "char \<Rightarrow> bool" where
  "is_continuation c = (128 \<le> (of_char c :: nat) \<and> (of_char c :: nat) < 192)"

definition parse_add_char :: "parser \<Rightarrow> char \<Rightarrow> exn + parser" where
  "parse_add_char p c =
     (if is_continuation c then Inr (p\<lparr>field := field p @ [c]\<rparr>)
      else if field_limit \<le> field_len p
      then Inl (CsvError ''field larger than field limit (131072)'')
      else Inr (p\<lparr>field := field p @ [c], field_len := field_len p + 1\<rparr>))"

definition is_newline :: "char \<Rightarrow> bool" where
  "is_newline c = (c = CHR 0x0A \<or> c = CHR 0x0D)"

definition end_of_record :: "parser \<Rightarrow> char option \<Rightarrow> parser" where
  "end_of_record p c = (parse_save_field p)\<lparr>state := (if c = None then START_RECORD else EAT_CRNL)\<rparr>"

definition start_field :: "char \<Rightarrow> parser \<Rightarrow> char \<Rightarrow> exn + parser" where
  "start_field delimiter p c =
     (if is_newline c then Inr (end_of_record p (Some c))
      else if c = CHR 0x22 then Inr (p\<lparr>state := IN_QUOTED_FIELD\<rparr>)
      else if c = delimiter then Inr (parse_save_field p)
      else (case parse_add_char p c of Inl e \<Rightarrow> Inl e | Inr p' \<Rightarrow> Inr (p'\<lparr>state := IN_FIELD\<rparr>)))"

fun parse_process_char :: "char \<Rightarrow> parser \<Rightarrow> char option \<Rightarrow> exn + parser" where
  "parse_process_char delimiter p None =
     (case state p of
        START_RECORD \<Rightarrow> Inr p
      | START_FIELD \<Rightarrow> Inr (end_of_record p None)
      | IN_FIELD \<Rightarrow> Inr (end_of_record p None)
      | IN_QUOTED_FIELD \<Rightarrow> Inr p
      | QUOTE_IN_QUOTED_FIELD \<Rightarrow> Inr (end_of_record p None)
      | EAT_CRNL \<Rightarrow> Inr (p\<lparr>state := START_RECORD\<rparr>))"
| "parse_process_char delimiter p (Some c) =
     (case state p of
        START_RECORD \<Rightarrow>
          (if is_newline c then Inr (p\<lparr>state := EAT_CRNL\<rparr>)
           else start_field delimiter (p\<lparr>state := START_FIELD\<rparr>) c)
      | START_FIELD \<Rightarrow> start_field delimiter p c
      | IN_FIELD \<Rightarrow>
          (if is_newline c then Inr (end_of_record p (Some c))
           else if c = delimiter then Inr ((parse_save_field p)\<lparr>state := START_FIELD\<rparr>)
           else parse_add_char p c)
      | IN_QUOTED_FIELD \<Rightarrow>
          (if c = CHR 0x22 then Inr (p\<lparr>state := QUOTE_IN_QUOTED_FIELD\<rparr>)
           else parse_add_char p c)
      | QUOTE_IN_QUOTED_FIELD \<Rightarrow>
          (if c = CHR 0x22
           then (case parse_add_char p c of Inl e \<Rightarrow> Inl e | Inr p' \<Rightarrow> Inr (p'\<lparr>state := IN_QUOTED_FIELD\<rparr>))
           else if c = delimiter then Inr ((parse_save_field p)\<lparr>state := START_FIELD\<rparr>)
           else if is_newline c then Inr (end_of_record p (Some c))
           else (case parse_add_char p c of Inl e \<Rightarrow> Inl e | Inr p' \<Rightarrow> Inr (p'\<lparr>state := IN_FIELD\<rparr>)))
      | EAT_CRNL \<Rightarrow>
          (if is_newline c then Inr p
           else Inl (CsvError (''new-line character seen in unquoted field - do you need to open the file with newline='' @ [CHR 0x27, CHR 0x27, CHR ''?'']))))"

text \<open>One line: its characters, then the end-of-line mark.\<close>

definition feed_line :: "char \<Rightarrow> parser \<Rightarrow> string \<Rightarrow> exn + parser" where
  "feed_line delimiter p line =
     (case fold (\<lambda>c r. case r of Inl e \<Rightarrow> Inl e | Inr q \<Rightarrow> parse_process_char delimiter q (Some c))
             line (Inr p) of
        Inl e \<Rightarrow> Inl e
      | Inr q \<Rightarrow> parse_process_char delimiter q None)"

text \<open>
  \<^verbatim>\<open>Reader_iternext\<close>, called until the lines run out: the rows in order, and the
  error that ended the reading, if any. At the end of the input a field in
  progress, or an open quoted field, still gives a last row.
\<close>

fun reader_rows :: "char \<Rightarrow> parser \<Rightarrow> string list \<Rightarrow> string list list \<times> exn option" where
  "reader_rows delimiter p [] =
     (if field_len p \<noteq> 0 \<or> state p = IN_QUOTED_FIELD
      then ([fields' (parse_save_field p)], None) else ([], None))"
| "reader_rows delimiter p (line # rest) =
     (case feed_line delimiter p line of
        Inl e \<Rightarrow> ([], Some e)
      | Inr q \<Rightarrow>
          (if state q = START_RECORD
           then (case reader_rows delimiter parse_reset rest of (rows, err) \<Rightarrow> (fields' q # rows, err))
           else reader_rows delimiter q rest))"

definition csv_reader :: "char \<Rightarrow> string \<Rightarrow> string list list \<times> exn option" where
  "csv_reader delimiter content = reader_rows delimiter parse_reset (readlines content)"

subsection \<open>What the module imports\<close>

text \<open>
  The collaborators of the module: the file system and the standard library
  (\<open>open_text\<close>, \<open>gzip_open_text\<close>, \<open>json_loads\<close>, \<open>glob_recursive\<close>,
  \<open>randbelow\<close>, \<open>dump_json_file\<close>) and the helpers of \<^verbatim>\<open>gulpio/utils.py\<close>, each returning what it
  returns or the exception it raises. \<open>'f\<close> is the type of a decoded frame.
  A JSON manifest is read as a list of objects with string fields.
  \<open>dump_json_file path obj\<close> is the call \<^verbatim>\<open>json.dump(obj, open(path, 'w'))\<close>:
  \<open>None\<close> when the file was opened and the object written, otherwise the
  exception that \<^verbatim>\<open>open\<close> (a missing or unwritable folder) or \<^verbatim>\<open>json.dump\<close> raised.
\<close>

type_synonym raw = "(string \<times> string) list"

record 'f env =
  open_text :: "string \<Rightarrow> exn + string"
  gzip_open_text :: "string \<Rightarrow> exn + string"
  json_loads :: "string \<Rightarrow> exn + raw list"
  glob_recursive :: "string \<Rightarrow> string list"
  randbelow :: "nat \<Rightarrow> nat"
  get_single_video_path :: "string \<Rightarrow> string \<Rightarrow> exn + string"
  temp_dir_for_bursting :: "string \<Rightarrow> exn + string"
  burst_video_into_frames :: "string \<Rightarrow> string \<Rightarrow> int \<Rightarrow> exn + string list"
  find_images_in_folder :: "string \<Rightarrow> string list \<Rightarrow> exn + string list"
  resize_images :: "string list \<Rightarrow> int \<Rightarrow> exn + 'f list"
  resize_by_short_edge :: "string \<Rightarrow> int \<Rightarrow> exn + 'f"
  dump_json_file :: "string \<Rightarrow> (string \<times> int) list \<Rightarrow> exn option"

subsection \<open>The data model\<close>

text \<open>
  A meta dictionary \<^verbatim>\<open>{'id': .., 'label': .., 'idx': .., 'path': ..}\<close>. Its keys
  are fixed by \<^verbatim>\<open>get_meta\<close>, except that the two 20BN adapters store no
  \<^verbatim>\<open>'path'\<close> and that \<^verbatim>\<open>ImageListAdapter.iter_data\<close> pops it: the field is
  \<open>None\<close> when the key is absent.
\<close>

record meta =
  m_id :: string
  m_label :: string
  m_idx :: int
  m_path :: "string option"

text \<open>
  An adapter instance and the part of the world it acts on.
  \<^item> \<open>data\<close>, \<open>output_folder\<close>, \<open>labels2idx\<close> (\<^verbatim>\<open>label2idx\<close> in the two image
    adapters), \<open>folder\<close> (also \<^verbatim>\<open>root_folder\<close> in \<^verbatim>\<open>ImageListAdapter\<close>, which
    sets both to the same value), \<open>frame_size\<close> (\<^verbatim>\<open>img_size\<close> in the image
    adapters), \<open>frame_rate\<close>, \<open>shm_dir_path\<close> and \<open>all_meta\<close> are the attributes
    of the instance;
  \<^item> \<open>heap\<close> is the store of the meta dictionaries: address \<open>a\<close> holds
    \<open>heap ! a\<close>, and \<open>all_meta\<close> lists addresses;
  \<^item> \<open>written\<close> lists the calls of \<^verbatim>\<open>json.dump(obj, open(path, 'w'))\<close> that
    returned so far, each as the path and the object dumped (the dictionary, in
    the order of its keys); a call that raised is not listed;
  \<^item> \<open>stdout\<close> lists what was printed.
\<close>

record adapter =
  data :: "raw list"
  output_folder :: string
  labels2idx :: "(string \<times> int) list"
  folder :: string
  frame_size :: int
  frame_rate :: int
  shm_dir_path :: string
  all_meta :: "nat list"
  heap :: "meta list"
  written :: "(string \<times> (string \<times> int) list) list"
  stdout :: "string list"

text \<open>The four concrete classes.\<close>

datatype variant = JsonVideo | CsvJpeg | ImageList | ImageFolder

text \<open>The dictionary an iteration yields: \<^verbatim>\<open>{'meta': meta, 'frames': .., 'id': ..}\<close>,
  where \<^verbatim>\<open>'meta'\<close> refers to the meta dictionary itself (its address).\<close>

record 'f result =
  r_meta :: nat
  r_frames :: "'f list"
  r_id :: string

subsection \<open>The label index\<close>

text \<open>\<^verbatim>\<open>[item[label_name] for item in self.data]\<close>\<close>

definition labels_of :: "string \<Rightarrow> raw list \<Rightarrow> exn + string list" where
  "labels_of label_name d = map_exn (\<lambda>item. getitem item label_name) d"

text \<open>
  \<^verbatim>\<open>Custom20BNAdapterMixin.create_label2idx_dict\<close>:
  \<^verbatim>\<open>
  labels = sorted(set([item[label_name] for item in self.data]))
  labels2idx = {}
  for label_counter, label in enumerate(labels):
      labels2idx[label] = label_counter
  return labels2idx
  \<close>
\<close>

fun label_loop :: "(nat \<times> string) list \<Rightarrow> (string \<times> int) list \<Rightarrow> (string \<times> int) list" where
  "label_loop [] l2i = l2i"
| "label_loop ((label_counter, label) # rest) l2i =
     label_loop rest (AList.update label (int label_counter) l2i)"

definition create_label2idx_dict :: "string \<Rightarrow> raw list \<Rightarrow> exn + (string \<times> int) list" where
  "create_label2idx_dict label_name d =
     (case labels_of label_name d of
        Inl e \<Rightarrow> Inl e
      | Inr ls \<Rightarrow> Inr (label_loop (List.enumerate 0 (sorted_set ls)) []))"

text \<open>
  \<^verbatim>\<open>ImageListAdapter.create_label2idx_dict\<close> and, word for word the same,
  \<^verbatim>\<open>ImageFolderAdapter.create_label2idx_dict\<close>:
  \<^verbatim>\<open>
  labels = sorted(set([item['label'] for item in self.data]))
  label2idx = {label: label_counter
               for label_counter, label in enumerate(labels)}
  return label2idx
  \<close>
\<close>

definition create_label2idx_dict_image :: "raw list \<Rightarrow> exn + (string \<times> int) list" where
  "create_label2idx_dict_image d =
     (case labels_of ''label'' d of
        Inl e \<Rightarrow> Inl e
      | Inr ls \<Rightarrow>
          Inr (store_all
                 (map (\<lambda>(label_counter, label). (label, int label_counter))
                    (List.enumerate 0 (sorted_set ls))) []))"

text \<open>
  The reference definition, in the words of the specification: the set of the
  distinct labels, sorted, each label with its rank from 0.
\<close>

definition label_index_spec :: "string list \<Rightarrow> (string \<times> int) list" where
  "label_index_spec ls =
     (let sorted_labels = sorted_list_of_set (set ls)
      in zip sorted_labels (map int [0..<length sorted_labels]))"

text \<open>
  \<^verbatim>\<open>write_label2idx_dict\<close> (the mixin's and the image adapters' are the same):
  \<^verbatim>\<open>json.dump(self.labels2idx, open(os.path.join(self.output_folder, 'label2idx.json'), 'w'))\<close>
  An exception of \<^verbatim>\<open>open\<close> or of \<^verbatim>\<open>json.dump\<close> is not caught.
\<close>

definition write_label2idx_dict :: "'f env \<Rightarrow> adapter \<Rightarrow> exn + adapter" where
  "write_label2idx_dict E s =
     (let path = path_join (output_folder s) ''label2idx.json''
      in case dump_json_file E path (labels2idx s) of
           Some e \<Rightarrow> Inl e
         | None \<Rightarrow> Inr (s\<lparr>written := written s @ [(path, labels2idx s)]\<rparr>))"

text \<open>\<^verbatim>\<open>__len__\<close>, the same in the four classes: \<^verbatim>\<open>len(self.data)\<close>.\<close>

definition len :: "adapter \<Rightarrow> nat" where
  "len s = length (data s)"

subsection \<open>Reading the manifests\<close>

text \<open>
  \<^verbatim>\<open>Custom20BNJsonVideoAdapter.read_json\<close> and \<^verbatim>\<open>read_gz_json\<close>:
  \<^verbatim>\<open>json.load\<close> of the file opened with \<^verbatim>\<open>open(json_file, 'r')\<close>, respectively
  with \<^verbatim>\<open>gzip.open(gz_json_file, 'rt')\<close>.
\<close>

definition read_json :: "'f env \<Rightarrow> string \<Rightarrow> exn + raw list" where
  "read_json E json_file =
     (case open_text E json_file of
        Inl e \<Rightarrow> Inl e
      | Inr content \<Rightarrow> json_loads E (universal_newlines content))"

definition read_gz_json :: "'f env \<Rightarrow> string \<Rightarrow> exn + raw list" where
  "read_gz_json E gz_json_file =
     (case gzip_open_text E gz_json_file of
        Inl e \<Rightarrow> Inl e
      | Inr content \<Rightarrow> json_loads E (universal_newlines content))"

text \<open>
  \<^verbatim>\<open>Custom20BNCsvJpegAdapter.read_csv\<close>:
  \<^verbatim>\<open>
  with open(csv_file, newline='\n') as f:
      content = csv.reader(f, delimiter=';')
      data = []
      for row in content:
          data.append({'id': row[0], 'label': row[1]})
  return data
  \<close>
  A row with fewer than two fields raises \<^verbatim>\<open>IndexError\<close>. The reader is lazy:
  the rows that precede an error of the reader are appended first, so that a short
  row among them raises before the reader does.
\<close>

definition csv_entry :: "string list \<Rightarrow> exn + raw" where
  "csv_entry row =
     (case row of
        id0 # label0 # _ \<Rightarrow> Inr [(''id'', id0), (''label'', label0)]
      | _ \<Rightarrow> Inl IndexError)"

definition read_csv :: "'f env \<Rightarrow> string \<Rightarrow> exn + raw list" where
  "read_csv E csv_file =
     (case open_text E csv_file of
        Inl e \<Rightarrow> Inl e
      | Inr content \<Rightarrow>
          (case csv_reader (CHR '';'') content of
             (rows, err) \<Rightarrow>
               (case map_exn csv_entry rows of
                  Inl e \<Rightarrow> Inl e
                | Inr d \<Rightarrow> (case err of Some e \<Rightarrow> Inl e | None \<Rightarrow> Inr d))))"

text \<open>
  \<^verbatim>\<open>ImageListAdapter.parse_paths\<close>:
  \<^verbatim>\<open>
  item_list = [item.strip().split(',') for item in open(input_file, 'r')]
  data = [{'id': os.path.basename(img_path), 'label': label_name,
           'path': img_path} for img_path, label_name in item_list]
  \<close>
  The file is read with universal newlines. A line that does not split into
  exactly two parts raises \<^verbatim>\<open>ValueError\<close> at the unpacking.
\<close>

definition list_entry :: "string list \<Rightarrow> exn + raw" where
  "list_entry item =
     (case item of
        [img_path, label_name] \<Rightarrow>
          Inr [(''id'', basename img_path), (''label'', label_name), (''path'', img_path)]
      | [] \<Rightarrow> Inl (ValueError ''not enough values to unpack (expected 2, got 0)'')
      | [_] \<Rightarrow> Inl (ValueError ''not enough values to unpack (expected 2, got 1)'')
      | _ \<Rightarrow> Inl (ValueError ''too many values to unpack (expected 2)''))"

definition parse_paths :: "'f env \<Rightarrow> string \<Rightarrow> exn + raw list" where
  "parse_paths E input_file =
     (case open_text E input_file of
        Inl e \<Rightarrow> Inl e
      | Inr content \<Rightarrow>
          map_exn list_entry
            (map (\<lambda>item. split_on (CHR '','') (strip item))
               (readlines (universal_newlines content))))"

text \<open>
  \<^verbatim>\<open>ImageFolderAdapter.parse_folder\<close>:
  \<^verbatim>\<open>
  img_paths = []
  for extension in self.file_extensions:
      search_pattern = os.path.join(folder+"**/*{}".format(extension))
      paths = glob.glob(search_pattern, recursive=True)
  img_paths.extend(paths)
  img_paths = sorted(img_paths)
  data = []
  for img_path in img_paths:
      path = os.path.dirname(img_path)
      category_name = path.split('/')[-1]
      img_name = os.path.basename(img_path)
      category_name = category_name
      data.append({'id': img_name, 'label': category_name, 'path': path})
  return data
  \<close>
  The \<^verbatim>\<open>extend\<close> stands after the first loop, not in it. \<open>extension_loop\<close> is that
  loop: it returns the variable \<^verbatim>\<open>paths\<close> as the loop leaves it, \<open>None\<close> while it
  is unbound. \<^verbatim>\<open>os.path.join\<close> of one argument returns it.
\<close>

fun extension_loop :: "'f env \<Rightarrow> string \<Rightarrow> string list \<Rightarrow> string list option \<Rightarrow> string list option" where
  "extension_loop E fld [] paths = paths"
| "extension_loop E fld (extension # rest) paths =
     (let search_pattern = fld @ ''**/*'' @ extension
      in extension_loop E fld rest (Some (glob_recursive E search_pattern)))"

definition folder_entry :: "string \<Rightarrow> raw" where
  "folder_entry img_path =
     (let path = dirname img_path;
          category_name = last (split_on (CHR ''/'') path);
          img_name = basename img_path
      in [(''id'', img_name), (''label'', category_name), (''path'', path)])"

definition parse_folder :: "'f env \<Rightarrow> string list \<Rightarrow> string \<Rightarrow> exn + raw list" where
  "parse_folder E file_extensions fld =
     (case extension_loop E fld file_extensions None of
        None \<Rightarrow> Inl (UnboundLocalError ''paths'')
      | Some paths \<Rightarrow> Inr (map folder_entry (sort ([] @ paths))))"

text \<open>
  \<^verbatim>\<open>get_meta\<close> of the four classes: one meta dictionary per entry of
  \<^verbatim>\<open>self.data\<close>, in order. The JSON adapter reads the label from \<^verbatim>\<open>'template'\<close>,
  the CSV adapter from \<^verbatim>\<open>'label'\<close>; the two image adapters also copy \<^verbatim>\<open>'path'\<close>.
\<close>

definition meta_20bn :: "string \<Rightarrow> (string \<times> int) list \<Rightarrow> raw \<Rightarrow> exn + meta" where
  "meta_20bn label_name l2i entry =
     (case getitem entry ''id'' of
        Inl e \<Rightarrow> Inl e
      | Inr i \<Rightarrow>
          (case getitem entry label_name of
             Inl e \<Rightarrow> Inl e
           | Inr l \<Rightarrow>
               (case getitem l2i l of
                  Inl e \<Rightarrow> Inl e
                | Inr n \<Rightarrow> Inr \<lparr>m_id = i, m_label = l, m_idx = n, m_path = None\<rparr>)))"

definition get_meta_json :: "raw list \<Rightarrow> (string \<times> int) list \<Rightarrow> exn + meta list" where
  "get_meta_json d l2i = map_exn (meta_20bn ''template'' l2i) d"

definition get_meta_csv :: "raw list \<Rightarrow> (string \<times> int) list \<Rightarrow> exn + meta list" where
  "get_meta_csv d l2i = map_exn (meta_20bn ''label'' l2i) d"

definition meta_image :: "(string \<times> int) list \<Rightarrow> raw \<Rightarrow> exn + meta" where
  "meta_image l2i entry =
     (case getitem entry ''id'' of
        Inl e \<Rightarrow> Inl e
      | Inr i \<Rightarrow>
          (case getitem entry ''label'' of
             Inl e \<Rightarrow> Inl e
           | Inr l \<Rightarrow>
               (case getitem entry ''path'' of
                  Inl e \<Rightarrow> Inl e
                | Inr p \<Rightarrow>
                    (case getitem l2i l of
                       Inl e \<Rightarrow> Inl e
                     | Inr n \<Rightarrow> Inr \<lparr>m_id = i, m_label = l, m_idx = n, m_path = Some p\<rparr>))))"

definition get_meta_image :: "raw list \<Rightarrow> (string \<times> int) list \<Rightarrow> exn + meta list" where
  "get_meta_image d l2i = map_exn (meta_image l2i) d"

subsection \<open>Construction\<close>

text \<open>
  The end of each \<^verbatim>\<open>__init__\<close>: the attributes are set, the meta dictionaries
  built by \<^verbatim>\<open>get_meta\<close> are new objects (at the addresses \<open>0..n-1\<close> of a new
  store), \<^verbatim>\<open>self.all_meta\<close> lists them in order, and
  \<^verbatim>\<open>if self.shuffle: random.shuffle(self.all_meta)\<close>.
\<close>

definition new_adapter ::
  "'f env \<Rightarrow> raw list \<Rightarrow> (string \<times> int) list \<Rightarrow> meta list \<Rightarrow> string \<Rightarrow> string \<Rightarrow>
   bool \<Rightarrow> int \<Rightarrow> int \<Rightarrow> string \<Rightarrow> adapter" where
  "new_adapter E d l2i metas out fld shuffle fsize frate shm =
     \<lparr>data = d, output_folder = out, labels2idx = l2i, folder = fld,
      frame_size = fsize, frame_rate = frate, shm_dir_path = shm,
      all_meta = (if shuffle then random_shuffle (randbelow E) [0..<length metas]
                  else [0..<length metas]),
      heap = metas, written = [], stdout = []\<rparr>"

text \<open>
  \<^verbatim>\<open>Custom20BNJsonVideoAdapter.__init__\<close>:
  \<^verbatim>\<open>
  if json_file.endswith('.json.gz'):
      self.data = self.read_gz_json(json_file)
  elif json_file.endswith('.json'):
      self.data = self.read_json(json_file)
  else:
      raise RuntimeError('Wrong data file format (.json.gz or .json)')
  self.output_folder = output_folder
  self.labels2idx = self.create_label2idx_dict('template')
  ...
  self.all_meta = self.get_meta()
  if self.shuffle:
      random.shuffle(self.all_meta)
  \<close>
\<close>

definition json_init ::
  "'f env \<Rightarrow> string \<Rightarrow> string \<Rightarrow> string \<Rightarrow> bool \<Rightarrow> int \<Rightarrow> int \<Rightarrow> string \<Rightarrow> exn + adapter" where
  "json_init E json_file fld out shuffle fsize frate shm =
     (case (if endswith json_file ''.json.gz'' then read_gz_json E json_file
            else if endswith json_file ''.json'' then read_json E json_file
            else Inl (RuntimeError ''Wrong data file format (.json.gz or .json)'')) of
        Inl e \<Rightarrow> Inl e
      | Inr d \<Rightarrow>
          (case create_label2idx_dict ''template'' d of
             Inl e \<Rightarrow> Inl e
           | Inr l2i \<Rightarrow>
               (case get_meta_json d l2i of
                  Inl e \<Rightarrow> Inl e
                | Inr metas \<Rightarrow> Inr (new_adapter E d l2i metas out fld shuffle fsize frate shm))))"

text \<open>
  \<^verbatim>\<open>Custom20BNCsvJpegAdapter.__init__\<close> (the class has no \<^verbatim>\<open>frame_rate\<close>; the
  field is left at 0).
\<close>

definition csv_init ::
  "'f env \<Rightarrow> string \<Rightarrow> string \<Rightarrow> string \<Rightarrow> bool \<Rightarrow> int \<Rightarrow> string \<Rightarrow> exn + adapter" where
  "csv_init E csv_file fld out shuffle fsize shm =
     (case read_csv E csv_file of
        Inl e \<Rightarrow> Inl e
      | Inr d \<Rightarrow>
          (case create_label2idx_dict ''label'' d of
             Inl e \<Rightarrow> Inl e
           | Inr l2i \<Rightarrow>
               (case get_meta_csv d l2i of
                  Inl e \<Rightarrow> Inl e
                | Inr metas \<Rightarrow> Inr (new_adapter E d l2i metas out fld shuffle fsize 0 shm))))"

text \<open>
  \<^verbatim>\<open>ImageListAdapter.__init__\<close> (\<^verbatim>\<open>root_folder\<close> and \<^verbatim>\<open>folder\<close> are both
  \<^verbatim>\<open>root_folder\<close>; no \<^verbatim>\<open>frame_rate\<close> and no \<^verbatim>\<open>shm_dir_path\<close>).
\<close>

definition imagelist_init ::
  "'f env \<Rightarrow> string \<Rightarrow> string \<Rightarrow> string \<Rightarrow> bool \<Rightarrow> int \<Rightarrow> exn + adapter" where
  "imagelist_init E input_file out root_folder shuffle img_size =
     (case parse_paths E input_file of
        Inl e \<Rightarrow> Inl e
      | Inr d \<Rightarrow>
          (case create_label2idx_dict_image d of
             Inl e \<Rightarrow> Inl e
           | Inr l2i \<Rightarrow>
               (case get_meta_image d l2i of
                  Inl e \<Rightarrow> Inl e
                | Inr metas \<Rightarrow> Inr (new_adapter E d l2i metas out root_folder shuffle img_size 0 []))))"

text \<open>
  \<^verbatim>\<open>ImageFolderAdapter.__init__\<close>; \<^verbatim>\<open>file_extensions\<close> defaults to
  \<^verbatim>\<open>['.jpg', '.png']\<close>.
\<close>

definition default_file_extensions :: "string list" where
  "default_file_extensions = [''.jpg'', ''.png'']"

definition imagefolder_init ::
  "'f env \<Rightarrow> string \<Rightarrow> string \<Rightarrow> string list \<Rightarrow> bool \<Rightarrow> int \<Rightarrow> exn + adapter" where
  "imagefolder_init E fld out file_extensions shuffle img_size =
     (case parse_folder E file_extensions fld of
        Inl e \<Rightarrow> Inl e
      | Inr d \<Rightarrow>
          (case create_label2idx_dict_image d of
             Inl e \<Rightarrow> Inl e
           | Inr l2i \<Rightarrow>
               (case get_meta_image d l2i of
                  Inl e \<Rightarrow> Inl e
                | Inr metas \<Rightarrow> Inr (new_adapter E d l2i metas out fld shuffle img_size 0 []))))"

subsection \<open>Iteration\<close>

text \<open>
  \<^verbatim>\<open>iter_data\<close> is a generator. One pass through the body of its loop, for the
  meta dictionary at address \<open>a\<close>, ends in one of three ways: the \<^verbatim>\<open>continue\<close>
  statement, the \<^verbatim>\<open>yield\<close> of a result, or an exception that leaves the generator.
\<close>

datatype 'f step = Continue | Emit "'f result" | Abort exn

text \<open>
  \<^verbatim>\<open>Custom20BNJsonVideoAdapter.iter_data\<close>, the loop body:
  \<^verbatim>\<open>
  video_folder = os.path.join(self.folder, str(meta['id']))
  video_path = get_single_video_path(video_folder, format_='mp4')
  with temp_dir_for_bursting(self.shm_dir_path) as temp_burst_dir:
      frame_paths = burst_video_into_frames(
          video_path, temp_burst_dir, frame_rate=self.frame_rate)
      frames = list(resize_images(frame_paths, self.frame_size))
  result = {'meta': meta, 'frames': frames, 'id': meta['id']}
  yield result
  \<close>
\<close>

definition json_body :: "'f env \<Rightarrow> adapter \<Rightarrow> nat \<Rightarrow> adapter \<times> 'f step" where
  "json_body E s a =
     (let meta = heap s ! a;
          video_folder = path_join (folder s) (m_id meta)
      in case get_single_video_path E video_folder ''mp4'' of
           Inl e \<Rightarrow> (s, Abort e)
         | Inr video_path \<Rightarrow>
             (case temp_dir_for_bursting E (shm_dir_path s) of
                Inl e \<Rightarrow> (s, Abort e)
              | Inr temp_burst_dir \<Rightarrow>
                  (case burst_video_into_frames E video_path temp_burst_dir (frame_rate s) of
                     Inl e \<Rightarrow> (s, Abort e)
                   | Inr frame_paths \<Rightarrow>
                       (case resize_images E frame_paths (frame_size s) of
                          Inl e \<Rightarrow> (s, Abort e)
                        | Inr frames \<Rightarrow>
                            (s, Emit \<lparr>r_meta = a, r_frames = frames, r_id = m_id meta\<rparr>)))))"

text \<open>
  \<^verbatim>\<open>Custom20BNCsvJpegAdapter.iter_data\<close>, the loop body:
  \<^verbatim>\<open>
  video_folder = os.path.join(self.folder, str(meta['id']))
  frame_paths = find_images_in_folder(video_folder, formats=['jpg'])
  frames = list(resize_images(frame_paths, self.frame_size))
  result = {'meta': meta, 'frames': frames, 'id': meta['id']}
  yield result
  \<close>
\<close>

definition csv_body :: "'f env \<Rightarrow> adapter \<Rightarrow> nat \<Rightarrow> adapter \<times> 'f step" where
  "csv_body E s a =
     (let meta = heap s ! a;
          video_folder = path_join (folder s) (m_id meta)
      in case find_images_in_folder E video_folder [''jpg''] of
           Inl e \<Rightarrow> (s, Abort e)
         | Inr frame_paths \<Rightarrow>
             (case resize_images E frame_paths (frame_size s) of
                Inl e \<Rightarrow> (s, Abort e)
              | Inr frames \<Rightarrow>
                  (s, Emit \<lparr>r_meta = a, r_frames = frames, r_id = m_id meta\<rparr>)))"

text \<open>
  \<^verbatim>\<open>ImageListAdapter.iter_data\<close>, the loop body:
  \<^verbatim>\<open>
  img_path = os.path.join(self.root_folder, str(meta['path']))
  try:
      img = resize_by_short_edge(img_path, self.img_size)
  except ImageNotFound as e:
      print(e)
      continue  # skip the item if image is not readable
  meta.pop('path', None)  # don't store path
  result = {'meta': meta, 'frames': [img], 'id': meta['id']}
  yield result
  \<close>
  \<^verbatim>\<open>meta['path']\<close> raises \<^verbatim>\<open>KeyError\<close> when the key is absent; \<^verbatim>\<open>meta.pop\<close>
  changes the dictionary object itself, at its address in the store.
\<close>

definition imagelist_body :: "'f env \<Rightarrow> adapter \<Rightarrow> nat \<Rightarrow> adapter \<times> 'f step" where
  "imagelist_body E s a =
     (let meta = heap s ! a
      in case m_path meta of
           None \<Rightarrow> (s, Abort (KeyError ''path''))
         | Some p \<Rightarrow>
             (let img_path = path_join (folder s) p
              in case resize_by_short_edge E img_path (frame_size s) of
                   Inl (ImageNotFound msg) \<Rightarrow> (s\<lparr>stdout := stdout s @ [msg]\<rparr>, Continue)
                 | Inl e \<Rightarrow> (s, Abort e)
                 | Inr img \<Rightarrow>
                     (s\<lparr>heap := (heap s)[a := meta\<lparr>m_path := None\<rparr>]\<rparr>,
                      Emit \<lparr>r_meta = a, r_frames = [img], r_id = m_id meta\<rparr>)))"

text \<open>
  \<^verbatim>\<open>ImageFolderAdapter.iter_data\<close>, the loop body:
  \<^verbatim>\<open>
  img_path = os.path.join(self.folder, str(meta['path']), str(meta['id']))
  img = resize_by_short_edge(img_path, self.img_size)
  result = {'meta': meta, 'frames': [img], 'id': meta['id']}
  yield result
  \<close>
\<close>

definition imagefolder_body :: "'f env \<Rightarrow> adapter \<Rightarrow> nat \<Rightarrow> adapter \<times> 'f step" where
  "imagefolder_body E s a =
     (let meta = heap s ! a
      in case m_path meta of
           None \<Rightarrow> (s, Abort (KeyError ''path''))
         | Some p \<Rightarrow>
             (let img_path = path_join (path_join (folder s) p) (m_id meta)
              in case resize_by_short_edge E img_path (frame_size s) of
                   Inl e \<Rightarrow> (s, Abort e)
                 | Inr img \<Rightarrow> (s, Emit \<lparr>r_meta = a, r_frames = [img], r_id = m_id meta\<rparr>)))"

definition body :: "'f env \<Rightarrow> variant \<Rightarrow> adapter \<Rightarrow> nat \<Rightarrow> adapter \<times> 'f step" where
  "body E v s a =
     (case v of
        JsonVideo \<Rightarrow> json_body E s a
      | CsvJpeg \<Rightarrow> csv_body E s a
      | ImageList \<Rightarrow> imagelist_body E s a
      | ImageFolder \<Rightarrow> imagefolder_body E s a)"

text \<open>
  The generator object. \<open>Created sl\<close>: \<^verbatim>\<open>iter_data(sl)\<close> was called and its body has
  not started (\<open>sl = None\<close> when no slice was given). \<open>Suspended rest\<close>: it stands at
  the \<^verbatim>\<open>yield\<close>, and \<open>rest\<close> are the addresses the loop has still to visit.
  \<open>Finished\<close>: it returned or raised.
\<close>

datatype gen = Created "slice option" | Suspended "nat list" | Finished

definition iter_data :: "slice option \<Rightarrow> gen" where
  "iter_data slice_element = Created slice_element"

text \<open>What one call of \<^verbatim>\<open>next\<close> on the generator gives its caller.\<close>

datatype 'f outcome = Yield "'f result" | StopIteration | Raise exn

text \<open>
  The loop, the same in the four classes:
  \<^verbatim>\<open>
  for meta in ...:
      ...
      yield result
  else:
      self.write_label2idx_dict()
  \<close>
  No loop holds a \<^verbatim>\<open>break\<close>, so the \<^verbatim>\<open>else\<close> branch runs whenever the loop runs out
  of elements; then the generator returns, or the exception of
  \<^verbatim>\<open>write_label2idx_dict\<close> leaves it.
\<close>

fun resume :: "'f env \<Rightarrow> variant \<Rightarrow> adapter \<Rightarrow> nat list \<Rightarrow> 'f outcome \<times> adapter \<times> gen" where
  "resume E v s [] =
     (case write_label2idx_dict E s of
        Inl e \<Rightarrow> (Raise e, s, Finished)
      | Inr s' \<Rightarrow> (StopIteration, s', Finished))"
| "resume E v s (a # rest) =
     (case body E v s a of
        (s', Continue) \<Rightarrow> resume E v s' rest
      | (s', Emit r) \<Rightarrow> (Yield r, s', Suspended rest)
      | (s', Abort e) \<Rightarrow> (Raise e, s', Finished))"

text \<open>
  What runs before the loop:
  \<^verbatim>\<open>slice_element = slice_element or slice(0, len(self))\<close> in the four classes
  (a slice object is never false), and then the list the loop walks:
  \<^verbatim>\<open>self.all_meta[slice_element]\<close>, a copy, in the two 20BN adapters and in
  \<^verbatim>\<open>ImageFolderAdapter\<close>; in \<^verbatim>\<open>ImageListAdapter\<close>
  \<^verbatim>\<open>
  self.all_meta = self.all_meta[slice_element]
  for meta in self.all_meta:
  \<close>
\<close>

definition default_slice :: "adapter \<Rightarrow> slice option \<Rightarrow> slice" where
  "default_slice s slice_element =
     (case slice_element of
        None \<Rightarrow> Slice (Some 0) (Some (int (len s))) None
      | Some sl \<Rightarrow> sl)"

definition enter :: "variant \<Rightarrow> adapter \<Rightarrow> slice option \<Rightarrow> exn + adapter \<times> nat list" where
  "enter v s slice_element =
     (case getslice (all_meta s) (default_slice s slice_element) of
        Inl e \<Rightarrow> Inl e
      | Inr window \<Rightarrow>
          Inr (if v = ImageList then (s\<lparr>all_meta := window\<rparr>, window) else (s, window)))"

text \<open>\<^verbatim>\<open>next(g)\<close> on a generator \<open>g\<close> of the adapter \<open>s\<close> of class \<open>v\<close>.\<close>

definition gen_next :: "'f env \<Rightarrow> variant \<Rightarrow> adapter \<times> gen \<Rightarrow> 'f outcome \<times> adapter \<times> gen" where
  "gen_next E v sg =
     (case sg of
        (s, Created slice_element) \<Rightarrow>
          (case enter v s slice_element of
             Inl e \<Rightarrow> (Raise e, s, Finished)
           | Inr (s', window) \<Rightarrow> resume E v s' window)
      | (s, Suspended rest) \<Rightarrow> resume E v s rest
      | (s, Finished) \<Rightarrow> (StopIteration, s, Finished))"

text \<open>
  A consumer that calls \<^verbatim>\<open>next\<close> at most \<open>n\<close> times and stops at the first call
  that does not yield. It returns the results it received and how it ended:
  \<open>Some Drained\<close> when the generator ran out (\<^verbatim>\<open>StopIteration\<close>), \<open>Some (Failed e)\<close>
  when an exception came out of it, \<open>None\<close> when the consumer stopped first, with
  the generator still open.
\<close>

datatype ending = Drained | Failed exn

fun consume ::
  "'f env \<Rightarrow> variant \<Rightarrow> nat \<Rightarrow> adapter \<times> gen \<Rightarrow> 'f result list \<times> ending option \<times> adapter \<times> gen" where
  "consume E v 0 sg = ([], None, sg)"
| "consume E v (Suc n) sg =
     (case gen_next E v sg of
        (Yield r, sg') \<Rightarrow>
          (case consume E v n sg' of (rs, fin) \<Rightarrow> (r # rs, fin))
      | (StopIteration, sg') \<Rightarrow> ([], Some Drained, sg')
      | (Raise e, sg') \<Rightarrow> ([], Some (Failed e), sg'))"

text \<open>The meta dictionaries \<^verbatim>\<open>self.all_meta\<close> holds, read through the store.\<close>

definition metas_of :: "adapter \<Rightarrow> meta list" where
  "metas_of s = map (\<lambda>a. heap s ! a) (all_meta s)"

subsection \<open>Notions used in the statements\<close>

text \<open>
  \<open>skipped E v s x\<close>: in the state \<open>s\<close>, the loop body leaves the record at address
  \<open>x\<close> by \<^verbatim>\<open>continue\<close>. \<open>emitted E v s x\<close>: the result it yields there, if any.
\<close>

definition skipped :: "'f env \<Rightarrow> variant \<Rightarrow> adapter \<Rightarrow> nat \<Rightarrow> bool" where
  "skipped E v s x = (case snd (body E v s x) of Continue \<Rightarrow> True | _ \<Rightarrow> False)"

definition emitted :: "'f env \<Rightarrow> variant \<Rightarrow> adapter \<Rightarrow> nat \<Rightarrow> 'f result list" where
  "emitted E v s x = (case snd (body E v s x) of Emit r \<Rightarrow> [r] | _ \<Rightarrow> [])"

text \<open>
  The acquisition of the frames of one record, as the specification describes it
  (section 4.4), stated from the collaborators alone: what they return for the
  record at address \<open>x\<close> in the state \<open>s\<close>, or the first exception one of them
  raises. Video-backed (\<^verbatim>\<open>Custom20BNJsonVideoAdapter\<close>): the single \<^verbatim>\<open>mp4\<close> file
  of the folder of the record, burst into a temporary directory at the frame
  rate, the frames resized. Image-backed: the \<^verbatim>\<open>jpg\<close> files of the folder of the
  record, resized (\<^verbatim>\<open>Custom20BNCsvJpegAdapter\<close>); the one image at the path of the
  record under the root folder (\<^verbatim>\<open>ImageListAdapter\<close>), or at its path and id under
  the folder (\<^verbatim>\<open>ImageFolderAdapter\<close>), resized by its short edge. A record of an
  image adapter that has no path has nothing to acquire: \<^verbatim>\<open>KeyError\<close>.
\<close>

definition acquisition :: "'f env \<Rightarrow> variant \<Rightarrow> adapter \<Rightarrow> nat \<Rightarrow> exn + 'f list" where
  "acquisition E v s x =
     (case v of
        JsonVideo \<Rightarrow>
          (case get_single_video_path E (path_join (folder s) (m_id (heap s ! x))) ''mp4'' of
             Inl e \<Rightarrow> Inl e
           | Inr video \<Rightarrow>
               (case temp_dir_for_bursting E (shm_dir_path s) of
                  Inl e \<Rightarrow> Inl e
                | Inr tmp \<Rightarrow>
                    (case burst_video_into_frames E video tmp (frame_rate s) of
                       Inl e \<Rightarrow> Inl e
                     | Inr paths \<Rightarrow> resize_images E paths (frame_size s))))
      | CsvJpeg \<Rightarrow>
          (case find_images_in_folder E (path_join (folder s) (m_id (heap s ! x))) [''jpg''] of
             Inl e \<Rightarrow> Inl e
           | Inr paths \<Rightarrow> resize_images E paths (frame_size s))
      | ImageList \<Rightarrow>
          (case m_path (heap s ! x) of
             None \<Rightarrow> Inl (KeyError ''path'')
           | Some p \<Rightarrow>
               (case resize_by_short_edge E (path_join (folder s) p) (frame_size s) of
                  Inl e \<Rightarrow> Inl e
                | Inr img \<Rightarrow> Inr [img]))
      | ImageFolder \<Rightarrow>
          (case m_path (heap s ! x) of
             None \<Rightarrow> Inl (KeyError ''path'')
           | Some p \<Rightarrow>
               (case resize_by_short_edge E
                       (path_join (path_join (folder s) p) (m_id (heap s ! x))) (frame_size s) of
                  Inl e \<Rightarrow> Inl e
                | Inr img \<Rightarrow> Inr [img])))"

text \<open>
  \<open>tolerated E v s x\<close>: the acquisition for the record at \<open>x\<close> fails with the one
  error that is tolerated, a missing image in \<^verbatim>\<open>ImageListAdapter\<close>.
  \<open>acquirable E v s x\<close>: it succeeds, or its failure is tolerated.
  \<open>expected E v s x\<close>: the results the record is to give, one when the acquisition
  succeeds (the meta dictionary at \<open>x\<close> itself, the frames acquired, the id of
  the record) and none otherwise.
\<close>

definition tolerated :: "'f env \<Rightarrow> variant \<Rightarrow> adapter \<Rightarrow> nat \<Rightarrow> bool" where
  "tolerated E v s x =
     (case acquisition E v s x of
        Inl (ImageNotFound msg) \<Rightarrow> v = ImageList
      | _ \<Rightarrow> False)"

definition acquirable :: "'f env \<Rightarrow> variant \<Rightarrow> adapter \<Rightarrow> nat \<Rightarrow> bool" where
  "acquirable E v s x =
     (case acquisition E v s x of
        Inl e \<Rightarrow> tolerated E v s x
      | Inr frames \<Rightarrow> True)"

definition expected :: "'f env \<Rightarrow> variant \<Rightarrow> adapter \<Rightarrow> nat \<Rightarrow> 'f result list" where
  "expected E v s x =
     (case acquisition E v s x of
        Inl e \<Rightarrow> []
      | Inr frames \<Rightarrow> [\<lparr>r_meta = x, r_frames = frames, r_id = m_id (heap s ! x)\<rparr>])"

text \<open>
  \<open>persist E s\<close>: what writing \<^verbatim>\<open>label2idx.json\<close> into the output folder of \<open>s\<close>,
  with the label index of \<open>s\<close>, comes to in the world \<open>E\<close>: \<open>None\<close> when the file is
  written, otherwise the exception raised.
\<close>

definition persist :: "'f env \<Rightarrow> adapter \<Rightarrow> exn option" where
  "persist E s =
     dump_json_file E (path_join (output_folder s) ''label2idx.json'') (labels2idx s)"

text \<open>
  What every constructor establishes and every call of \<^verbatim>\<open>next\<close> keeps:
  \<^verbatim>\<open>self.all_meta\<close> holds distinct objects of the store, no more than there are
  records in \<^verbatim>\<open>self.data\<close>.
\<close>

definition well_formed :: "adapter \<Rightarrow> bool" where
  "well_formed s =
     (distinct (all_meta s) \<and> list_all (\<lambda>a. a < length (heap s)) (all_meta s)
      \<and> length (all_meta s) \<le> length (data s))"

text \<open>
  \<open>same_config s s'\<close>: the two states agree on every attribute that a constructor
  sets and on the size of the store; \<open>all_meta\<close>, the contents of the store, the
  files written and the output are left open.
\<close>

definition same_config :: "adapter \<Rightarrow> adapter \<Rightarrow> bool" where
  "same_config s s' =
     (data s' = data s \<and> output_folder s' = output_folder s \<and> labels2idx s' = labels2idx s
      \<and> folder s' = folder s \<and> frame_size s' = frame_size s \<and> frame_rate s' = frame_rate s
      \<and> shm_dir_path s' = shm_dir_path s \<and> length (heap s') = length (heap s))"

text \<open>The call of \<^verbatim>\<open>json.dump\<close> that \<^verbatim>\<open>write_label2idx_dict\<close> makes in state \<open>s\<close>.\<close>

definition label2idx_dump :: "adapter \<Rightarrow> string \<times> (string \<times> int) list" where
  "label2idx_dump s = (path_join (output_folder s) ''label2idx.json'', labels2idx s)"

subsection \<open>An example environment\<close>

text \<open>
  A small world for the concrete instances below: a CSV manifest, an image list
  with three lines, a JSON manifest (plain and gzipped), a folder with one
  \<^verbatim>\<open>.jpg\<close> and one \<^verbatim>\<open>.png\<close> file. The image \<^verbatim>\<open>root/b/y.jpg\<close> cannot be read;
  a frame is represented by the length of its path. The folder \<^verbatim>\<open>out\<close> is the
  only one in which a file can be written.
\<close>

definition example_env :: "nat env" where
  "example_env =
     \<lparr>open_text = (\<lambda>f.
        if f = ''train.csv'' then Inr ''1;cat\<newline>2;dog\<newline>3;cat\<newline>''
        else if f = ''list.txt'' then Inr ''a/x.jpg,cat\<newline>b/y.jpg,dog\<newline>c/z.jpg,cat\<newline>''
        else if f = ''train.json'' then Inr ''[...]''
        else Inl (OtherError ''No such file'')),
      gzip_open_text = (\<lambda>f.
        if f = ''train.json.gz'' then Inr ''[...]'' else Inl (OtherError ''No such file'')),
      json_loads = (\<lambda>t.
        if t = ''[...]''
        then Inr [[(''id'', ''7''), (''template'', ''push'')], [(''id'', ''8''), (''template'', ''pull'')]]
        else Inl (ValueError ''JSONDecodeError'')),
      glob_recursive = (\<lambda>pattern.
        if pattern = ''/d/**/*.jpg'' then [''/d/a/x.jpg'']
        else if pattern = ''/d/**/*.png'' then [''/d/b/y.png'']
        else []),
      randbelow = (\<lambda>n. 0),
      get_single_video_path = (\<lambda>d fmt. Inr (path_join d ''video.mp4'')),
      temp_dir_for_bursting = (\<lambda>d. Inr (path_join d ''burst'')),
      burst_video_into_frames = (\<lambda>video dir rate. Inr [path_join dir ''0001.jpg'']),
      find_images_in_folder = (\<lambda>d formats. Inr [path_join d ''0001.jpg'']),
      resize_images = (\<lambda>paths size. Inr (map length paths)),
      resize_by_short_edge = (\<lambda>p size.
        if p = ''root/b/y.jpg'' then Inl (ImageNotFound p) else Inr (length p)),
      dump_json_file = (\<lambda>path obj.
        if path = ''out/label2idx.json'' then None else Some (OtherError ''No such file''))\<rparr>"

text \<open>
  The \<^verbatim>\<open>ImageListAdapter\<close> built from \<^verbatim>\<open>list.txt\<close> with the root folder
  \<^verbatim>\<open>root\<close>, and the \<^verbatim>\<open>Custom20BNCsvJpegAdapter\<close> built from \<^verbatim>\<open>train.csv\<close>, both
  without shuffling.
\<close>

definition example_image_list :: adapter where
  "example_image_list =
     \<lparr>data = [[(''id'', ''x.jpg''), (''label'', ''cat''), (''path'', ''a/x.jpg'')],
              [(''id'', ''y.jpg''), (''label'', ''dog''), (''path'', ''b/y.jpg'')],
              [(''id'', ''z.jpg''), (''label'', ''cat''), (''path'', ''c/z.jpg'')]],
      output_folder = ''out'', labels2idx = [(''cat'', 0), (''dog'', 1)], folder = ''root'',
      frame_size = - 1, frame_rate = 0, shm_dir_path = [], all_meta = [0, 1, 2],
      heap = [\<lparr>m_id = ''x.jpg'', m_label = ''cat'', m_idx = 0, m_path = Some ''a/x.jpg''\<rparr>,
              \<lparr>m_id = ''y.jpg'', m_label = ''dog'', m_idx = 1, m_path = Some ''b/y.jpg''\<rparr>,
              \<lparr>m_id = ''z.jpg'', m_label = ''cat'', m_idx = 0, m_path = Some ''c/z.jpg''\<rparr>],
      written = [], stdout = []\<rparr>"

definition example_csv :: adapter where
  "example_csv =
     \<lparr>data = [[(''id'', ''1''), (''label'', ''cat'')], [(''id'', ''2''), (''label'', ''dog'')],
              [(''id'', ''3''), (''label'', ''cat'')]],
      output_folder = ''out'', labels2idx = [(''cat'', 0), (''dog'', 1)], folder = ''frames'',
      frame_size = - 1, frame_rate = 0, shm_dir_path = ''/dev/shm'', all_meta = [0, 1, 2],
      heap = [\<lparr>m_id = ''1'', m_label = ''cat'', m_idx = 0, m_path = None\<rparr>,
              \<lparr>m_id = ''2'', m_label = ''dog'', m_idx = 1, m_path = None\<rparr>,
              \<lparr>m_id = ''3'', m_label = ''cat'', m_idx = 0, m_path = None\<rparr>],
      written = [], stdout = []\<rparr>"

text \<open>
  The \<^verbatim>\<open>Custom20BNJsonVideoAdapter\<close> built from \<^verbatim>\<open>train.json\<close> with the video
  folder \<^verbatim>\<open>videos\<close>, without shuffling.
\<close>

definition example_json :: adapter where
  "example_json =
     \<lparr>data = [[(''id'', ''7''), (''template'', ''push'')], [(''id'', ''8''), (''template'', ''pull'')]],
      output_folder = ''out'', labels2idx = [(''pull'', 0), (''push'', 1)], folder = ''videos'',
      frame_size = - 1, frame_rate = 8, shm_dir_path = ''/dev/shm'', all_meta = [0, 1],
      heap = [\<lparr>m_id = ''7'', m_label = ''push'', m_idx = 1, m_path = None\<rparr>,
              \<lparr>m_id = ''8'', m_label = ''pull'', m_idx = 0, m_path = None\<rparr>],
      written = [], stdout = []\<rparr>"

text \<open>
  The \<^verbatim>\<open>ImageFolderAdapter\<close> built from the folder \<^verbatim>\<open>/d/\<close> with the default
  extensions, and two worlds in which no image can be read.
\<close>

definition example_image_folder :: adapter where
  "example_image_folder =
     \<lparr>data = [[(''id'', ''y.png''), (''label'', ''b''), (''path'', ''/d/b'')]],
      output_folder = ''out'', labels2idx = [(''b'', 0)], folder = ''/d/'',
      frame_size = - 1, frame_rate = 0, shm_dir_path = [], all_meta = [0],
      heap = [\<lparr>m_id = ''y.png'', m_label = ''b'', m_idx = 0, m_path = Some ''/d/b''\<rparr>],
      written = [], stdout = []\<rparr>"

definition no_image_env :: "nat env" where
  "no_image_env =
     example_env\<lparr>resize_by_short_edge := (\<lambda>p size. Inl (ImageNotFound p)),
                 resize_images := (\<lambda>paths size. Inl (ImageNotFound (concat paths)))\<rparr>"

text \<open>
  The state of \<open>example_image_list\<close> after a consumer has drained \<^verbatim>\<open>iter_data()\<close>:
  two records were yielded and lost their \<^verbatim>\<open>'path'\<close>, one was skipped.
\<close>

definition example_image_list_after :: adapter where
  "example_image_list_after =
     example_image_list
       \<lparr>heap := [\<lparr>m_id = ''x.jpg'', m_label = ''cat'', m_idx = 0, m_path = None\<rparr>,
                 \<lparr>m_id = ''y.jpg'', m_label = ''dog'', m_idx = 1, m_path = Some ''b/y.jpg''\<rparr>,
                 \<lparr>m_id = ''z.jpg'', m_label = ''cat'', m_idx = 0, m_path = None\<rparr>],
        written := [(''out/label2idx.json'', [(''cat'', 0), (''dog'', 1)])],
        stdout := [''root/b/y.jpg'']\<rparr>"

section \<open>Properties\<close>

subsection \<open>The label index\<close>

lemma update_fresh_key: "k \<notin> fst ` set d \<Longrightarrow> AList.update k v d = d @ [(k, v)]"
  by (induction d) auto

lemma label_loop_append:
  "distinct ls \<Longrightarrow> set ls \<inter> fst ` set d = {} \<Longrightarrow>
   label_loop (List.enumerate n ls) d = d @ zip ls (map int [n..<n + length ls])"
proof (induction ls arbitrary: n d)
  case Nil
  then show ?case by simp
next
  case (Cons l ls)
  have fresh: "l \<notin> fst ` set d" using Cons.prems(2) by auto
  have disj: "set ls \<inter> fst ` set (d @ [(l, int n)]) = {}"
    using Cons.prems by auto
  have "label_loop (List.enumerate n (l # ls)) d
        = label_loop (List.enumerate (Suc n) ls) (d @ [(l, int n)])"
    by (simp add: update_fresh_key [OF fresh])
  also have "\<dots> = (d @ [(l, int n)]) @ zip ls (map int [Suc n..<Suc n + length ls])"
    using Cons.IH [OF _ disj] Cons.prems(1) by simp
  also have "\<dots> = d @ zip (l # ls) (map int [n..<n + length (l # ls)])"
    by (simp add: upt_rec [of n] Suc_le_eq)
  finally show ?case .
qed

lemma store_all_append:
  "distinct ls \<Longrightarrow> set ls \<inter> fst ` set d = {} \<Longrightarrow>
   store_all (map (\<lambda>(c, l). (l, int c)) (List.enumerate n ls)) d
     = d @ zip ls (map int [n..<n + length ls])"
proof (induction ls arbitrary: n d)
  case Nil
  then show ?case by simp
next
  case (Cons l ls)
  have fresh: "l \<notin> fst ` set d" using Cons.prems(2) by auto
  have disj: "set ls \<inter> fst ` set (d @ [(l, int n)]) = {}"
    using Cons.prems by auto
  have "store_all (map (\<lambda>(c, l). (l, int c)) (List.enumerate n (l # ls))) d
        = store_all (map (\<lambda>(c, l). (l, int c)) (List.enumerate (Suc n) ls)) (d @ [(l, int n)])"
    by (simp add: update_fresh_key [OF fresh])
  also have "\<dots> = (d @ [(l, int n)]) @ zip ls (map int [Suc n..<Suc n + length ls])"
    using Cons.IH [OF _ disj] Cons.prems(1) by simp
  also have "\<dots> = d @ zip (l # ls) (map int [n..<n + length (l # ls)])"
    by (simp add: upt_rec [of n] Suc_le_eq)
  finally show ?case .
qed

lemma sorted_set_eq: "sorted_set ls = sorted_list_of_set (set ls)"
  by (simp add: sorted_set_def sorted_list_of_set_sort_remdups)

lemma label_loop_spec: "label_loop (List.enumerate 0 (sorted_set ls)) [] = label_index_spec ls"
  using label_loop_append [of "sorted_set ls" "[]" 0]
  by (simp add: sorted_set_eq label_index_spec_def Let_def)

lemma store_all_spec:
  "store_all (map (\<lambda>(c, l). (l, int c)) (List.enumerate 0 (sorted_set ls))) [] = label_index_spec ls"
  using store_all_append [of "sorted_set ls" "[]" 0]
  by (simp add: sorted_set_eq label_index_spec_def Let_def)

lemma create_label2idx_dict_spec:
  "create_label2idx_dict label_name d =
     (case labels_of label_name d of Inl e \<Rightarrow> Inl e | Inr ls \<Rightarrow> Inr (label_index_spec ls))"
  by (simp add: create_label2idx_dict_def label_loop_spec split: sum.splits)

lemma create_label2idx_dict_image_spec:
  "create_label2idx_dict_image d =
     (case labels_of ''label'' d of Inl e \<Rightarrow> Inl e | Inr ls \<Rightarrow> Inr (label_index_spec ls))"
  by (simp add: create_label2idx_dict_image_def store_all_spec split: sum.splits)

lemma label_index_spec_keys: "map fst (label_index_spec ls) = sorted_list_of_set (set ls)"
  by (simp add: label_index_spec_def Let_def)

lemma label_index_spec_values: "map snd (label_index_spec ls) = map int [0..<card (set ls)]"
  by (simp add: label_index_spec_def Let_def)

lemma map_exn_getitem:
  "map_exn (\<lambda>item. getitem item k) d =
     (if \<forall>item \<in> set d. map_of item k \<noteq> None
      then Inr (map (\<lambda>item. the (map_of item k)) d)
      else Inl (KeyError k))"
  by (induction d) (auto simp: getitem_def split: option.splits sum.splits)

lemma label_index_spec_cong: "set ls = set ls' \<Longrightarrow> label_index_spec ls = label_index_spec ls'"
  by (simp add: label_index_spec_def)

lemma labels_of_perm:
  assumes "mset d = mset d'"
  shows "(case labels_of k d of Inl e \<Rightarrow> Inl e | Inr ls \<Rightarrow> Inr (label_index_spec ls))
       = (case labels_of k d' of Inl e \<Rightarrow> Inl e | Inr ls \<Rightarrow> Inr (label_index_spec ls))"
proof -
  have "set d = set d'" using assms by (rule mset_eq_setD)
  then show ?thesis
    by (auto simp: labels_of_def map_exn_getitem intro!: label_index_spec_cong)
qed

lemma sorted_distinct_below:
  fixes xs :: "'a::linorder list"
  assumes "sorted xs" "distinct xs" "i < length xs"
  shows "{x \<in> set xs. x < xs ! i} = set (take i xs)"
proof (intro set_eqI iffI)
  fix x
  assume "x \<in> {x \<in> set xs. x < xs ! i}"
  then obtain j where j: "j < length xs" "x = xs ! j" and lt: "x < xs ! i"
    by (auto simp: in_set_conv_nth)
  have "j < i"
  proof (rule ccontr)
    assume "\<not> j < i"
    then have "xs ! i \<le> xs ! j"
      using sorted_nth_mono [OF assms(1), of i j] j(1) by simp
    then show False using lt j(2) by simp
  qed
  then show "x \<in> set (take i xs)"
    using j assms(3) by (auto simp: in_set_conv_nth)
next
  fix x
  assume "x \<in> set (take i xs)"
  then obtain j where j: "j < i" "x = xs ! j"
    using assms(3) by (auto simp: in_set_conv_nth)
  have "xs ! j \<le> xs ! i"
    using sorted_nth_mono [OF assms(1), of j i] j(1) assms(3) by simp
  moreover have "xs ! j \<noteq> xs ! i"
    using nth_eq_iff_index_eq [OF assms(2), of j i] j(1) assms(3) by simp
  ultimately show "x \<in> {x \<in> set xs. x < xs ! i}"
    using j assms(3) by auto
qed

lemma label_index_spec_rank:
  assumes "l \<in> set ls"
  shows "map_of (label_index_spec ls) l = Some (int (card {x \<in> set ls. x < l}))"
proof -
  define xs where "xs = sorted_list_of_set (set ls)"
  have p: "sorted xs" "distinct xs" "set xs = set ls"
    by (simp_all add: xs_def)
  obtain i where i: "i < length xs" "xs ! i = l"
    using assms p(3) by (metis in_set_conv_nth)
  have "map_of (zip xs (map int [0..<length xs])) (xs ! i) = Some (map int [0..<length xs] ! i)"
    by (rule map_of_zip_nth) (use p(2) i(1) in simp_all)
  then have m: "map_of (label_index_spec ls) l = Some (int i)"
    using i by (simp add: label_index_spec_def xs_def Let_def)
  have "card {x \<in> set xs. x < xs ! i} = card (set (take i xs))"
    using sorted_distinct_below [OF p(1) p(2) i(1)] by simp
  also have "\<dots> = length (take i xs)"
    by (rule distinct_card) (use p(2) in simp)
  finally have "card {x \<in> set ls. x < l} = i"
    using i p(3) by simp
  then show ?thesis using m by simp
qed

lemma create_label2idx_dict_total:
  "create_label2idx_dict k d =
     (if \<forall>item \<in> set d. map_of item k \<noteq> None
      then Inr (label_index_spec (map (\<lambda>item. the (map_of item k)) d))
      else Inl (KeyError k))"
  by (simp add: create_label2idx_dict_spec labels_of_def map_exn_getitem)

lemma create_label2idx_dict_image_total:
  "create_label2idx_dict_image d =
     (if \<forall>item \<in> set d. map_of item ''label'' \<noteq> None
      then Inr (label_index_spec (map (\<lambda>item. the (map_of item ''label'')) d))
      else Inl (KeyError ''label''))"
  by (simp add: create_label2idx_dict_image_spec labels_of_def map_exn_getitem)

lemma create_label2idx_dict_perm:
  assumes "mset d = mset d'"
  shows "create_label2idx_dict k d = create_label2idx_dict k d'"
    "create_label2idx_dict_image d = create_label2idx_dict_image d'"
  using labels_of_perm [OF assms]
  by (simp_all add: create_label2idx_dict_spec create_label2idx_dict_image_spec)

lemma label_index_of_records:
  assumes "create_label2idx_dict k d = Inr l2i"
  shows "(\<forall>item \<in> set d. map_of item k \<noteq> None)
       \<and> l2i = label_index_spec (map (\<lambda>item. the (map_of item k)) d)"
  using assms unfolding create_label2idx_dict_total by (auto split: if_splits)

lemma label_index_of_records_image:
  assumes "create_label2idx_dict_image d = Inr l2i"
  shows "(\<forall>item \<in> set d. map_of item ''label'' \<noteq> None)
       \<and> l2i = label_index_spec (map (\<lambda>item. the (map_of item ''label'')) d)"
  using assms unfolding create_label2idx_dict_image_total by (auto split: if_splits)

subsection \<open>Slices and shuffling\<close>

lemma adjust_index_pos: "0 < step \<Longrightarrow> 0 \<le> m \<Longrightarrow> 0 \<le> adjust_index m step i \<and> adjust_index m step i \<le> m"
  by (auto simp: adjust_index_def)

lemma adjust_index_neg: "step < 0 \<Longrightarrow> 0 \<le> m \<Longrightarrow> - 1 \<le> adjust_index m step i \<and> adjust_index m step i \<le> m - 1"
  by (auto simp: adjust_index_def)

lemma step_bound:
  fixes k m s :: int
  assumes "0 < s" "0 \<le> m" "k \<le> m div s"
  shows "k * s \<le> m"
proof -
  have "k * s \<le> (m div s) * s"
    using assms by (intro mult_right_mono) auto
  also have "\<dots> = m - m mod s"
    by (simp add: minus_mod_eq_div_mult)
  also have "\<dots> \<le> m"
    using assms(1) by simp
  finally show ?thesis .
qed

lemma arith_progression_up:
  fixes start stop step m :: int
  assumes "0 < step" "0 \<le> start" "stop \<le> m" "start < stop"
    and "int k < (stop - start - 1) div step + 1"
  shows "0 \<le> start + int k * step \<and> start + int k * step < m"
proof -
  have "int k * step \<le> stop - start - 1"
    using assms by (intro step_bound) auto
  moreover have "0 \<le> int k * step"
    using assms(1) by simp
  ultimately show ?thesis
    using assms by linarith
qed

lemma arith_progression_down:
  fixes start stop step m :: int
  assumes "step < 0" "- 1 \<le> stop" "start \<le> m - 1" "stop < start"
    and "int k < (start - stop - 1) div (- step) + 1"
  shows "0 \<le> start + int k * step \<and> start + int k * step < m"
proof -
  have "int k * (- step) \<le> start - stop - 1"
    using assms by (intro step_bound) auto
  moreover have "0 \<le> int k * (- step)"
    using assms(1) by (intro mult_nonneg_nonneg) auto
  moreover have "int k * (- step) = - (int k * step)"
    by simp
  ultimately show ?thesis
    using assms by linarith
qed

lemma slice_indices_progression:
  assumes "slice_indices sl n = Inr idxs"
  shows "\<exists>start step count. step \<noteq> 0 \<and> idxs = map (\<lambda>k. nat (start + int k * step)) [0..<count]
           \<and> (\<forall>k < count. 0 \<le> start + int k * step \<and> start + int k * step < int n)"
proof (cases sl)
  case (Slice start_opt stop_opt step_opt)
  define step where "step = (case step_opt of None \<Rightarrow> 1 | Some k \<Rightarrow> k)"
  define start where "start = (case start_opt of None \<Rightarrow> (if step < 0 then int n - 1 else 0) | Some i \<Rightarrow> adjust_index (int n) step i)"
  define stop where "stop = (case stop_opt of None \<Rightarrow> (if step < 0 then - 1 else int n) | Some i \<Rightarrow> adjust_index (int n) step i)"
  define count where "count = (if step < 0
                          then (if stop < start then (start - stop - 1) div (- step) + 1 else 0)
                          else (if start < stop then (stop - start - 1) div step + 1 else 0))"
  have nz: "step \<noteq> 0"
    using assms Slice by (auto simp: slice_indices_def step_def Let_def split: if_splits)
  have idxs: "idxs = map (\<lambda>k. nat (start + int k * step)) [0..<nat count]"
    using assms nz unfolding Slice slice_indices_def Let_def count_def start_def stop_def step_def
    by (simp split: if_splits)
  have bounds: "0 \<le> start + int k * step \<and> start + int k * step < int n" if "k < nat count" for k
  proof (cases "step < 0")
    case True
    have s1: "start \<le> int n - 1"
      using True adjust_index_neg [of step "int n"] by (auto simp: start_def split: option.splits)
    have s2: "- 1 \<le> stop"
      using True adjust_index_neg [of step "int n"] by (auto simp: stop_def split: option.splits)
    have lt: "stop < start" and k: "int k < (start - stop - 1) div (- step) + 1"
      using that True by (auto simp: count_def split: if_splits)
    show ?thesis
      using arith_progression_down [OF True s2 s1 lt k] .
  next
    case False
    then have pos: "0 < step" using nz by simp
    have s1: "0 \<le> start"
      using pos adjust_index_pos [of step "int n"] by (auto simp: start_def split: option.splits)
    have s2: "stop \<le> int n"
      using pos adjust_index_pos [of step "int n"] by (auto simp: stop_def split: option.splits)
    have lt: "start < stop" and k: "int k < (stop - start - 1) div step + 1"
      using that False by (auto simp: count_def split: if_splits)
    show ?thesis
      using arith_progression_up [OF pos s1 s2 lt k] .
  qed
  show ?thesis
    using nz idxs bounds by blast
qed

lemma slice_indices_in_range:
  assumes "slice_indices sl n = Inr idxs"
  shows "\<forall>i \<in> set idxs. i < n"
proof -
  obtain start step count where
    idxs: "idxs = map (\<lambda>k. nat (start + int k * step)) [0..<count]"
    and b: "\<forall>k < count. 0 \<le> start + int k * step \<and> start + int k * step < int n"
    using slice_indices_progression [OF assms] by blast
  show ?thesis
    using b by (auto simp: idxs)
qed

lemma slice_indices_distinct:
  assumes "slice_indices sl n = Inr idxs"
  shows "distinct idxs"
proof -
  obtain start step count where nz: "step \<noteq> 0" and
    idxs: "idxs = map (\<lambda>k. nat (start + int k * step)) [0..<count]"
    and b: "\<forall>k < count. 0 \<le> start + int k * step \<and> start + int k * step < int n"
    using slice_indices_progression [OF assms] by blast
  have "inj_on (\<lambda>k. nat (start + int k * step)) {0..<count}"
  proof (rule inj_onI)
    fix x y assume x: "x \<in> {0..<count}" and y: "y \<in> {0..<count}"
      and eq: "nat (start + int x * step) = nat (start + int y * step)"
    have "start + int x * step = start + int y * step"
      using eq b x y by (metis atLeastLessThan_iff eq_nat_nat_iff)
    then show "x = y" using nz by simp
  qed
  then show ?thesis
    by (simp add: idxs distinct_map)
qed

lemma slice_indices_range:
  assumes "0 \<le> a" "a \<le> b" "b \<le> int n"
  shows "slice_indices (Slice (Some a) (Some b) None) n = Inr [nat a..<nat b]"
proof -
  have adj: "adjust_index (int n) 1 a = a" "adjust_index (int n) 1 b = b"
    using assms by (auto simp: adjust_index_def)
  have "map (\<lambda>k. nat (a + int k)) [0..<nat (b - a)] = [nat a..<nat b]"
  proof (rule nth_equalityI)
    show "length (map (\<lambda>k. nat (a + int k)) [0..<nat (b - a)]) = length [nat a..<nat b]"
      using assms by simp
  next
    fix i assume "i < length (map (\<lambda>k. nat (a + int k)) [0..<nat (b - a)])"
    then show "map (\<lambda>k. nat (a + int k)) [0..<nat (b - a)] ! i = [nat a..<nat b] ! i"
      using assms by (simp add: nat_add_distrib)
  qed
  then show ?thesis
    using assms adj by (auto simp: slice_indices_def Let_def)
qed

lemma getslice_range:
  assumes "0 \<le> a" "a \<le> b" "b \<le> int (length xs)"
  shows "getslice xs (Slice (Some a) (Some b) None) = Inr (map (\<lambda>i. xs ! i) [nat a..<nat b])"
  by (simp add: getslice_def slice_indices_range [OF assms])

lemma getslice_full: "getslice xs (Slice (Some 0) (Some (int (length xs))) None) = Inr xs"
  using getslice_range [of 0 "int (length xs)" xs] by (simp add: map_nth)

lemma getslice_subset:
  assumes "getslice xs sl = Inr w"
  shows "set w \<subseteq> set xs"
  using assms slice_indices_in_range [of sl "length xs"]
  by (auto simp: getslice_def split: sum.splits)

lemma getslice_distinct:
  assumes "getslice xs sl = Inr w" "distinct xs"
  shows "distinct w"
proof -
  obtain idxs where i: "slice_indices sl (length xs) = Inr idxs" and w: "w = map (\<lambda>i. xs ! i) idxs"
    using assms(1) by (auto simp: getslice_def split: sum.splits)
  have "inj_on (\<lambda>i. xs ! i) (set idxs)"
    using slice_indices_in_range [OF i] assms(2)
    by (auto simp: inj_on_def nth_eq_iff_index_eq)
  then show ?thesis
    using slice_indices_distinct [OF i] by (simp add: w distinct_map)
qed

lemma shuffle_loop_mset: "k < length xs \<Longrightarrow> mset (shuffle_loop rnd k xs) = mset xs"
proof (induction k arbitrary: xs)
  case 0
  then show ?case by simp
next
  case (Suc k)
  let ?j = "rnd (Suc k + 1) mod (Suc k + 1)"
  have "?j < Suc k + 1"
    by (rule mod_less_divisor) simp
  then have j: "?j < length xs"
    using Suc.prems by linarith
  have "mset (xs[Suc k := xs ! ?j, ?j := xs ! Suc k]) = mset xs"
    using mset_swap [OF j Suc.prems] .
  moreover have "k < length (xs[Suc k := xs ! ?j, ?j := xs ! Suc k])"
    using Suc.prems by simp
  ultimately show ?case
    using Suc.IH [of "xs[Suc k := xs ! ?j, ?j := xs ! Suc k]"] by (simp add: Let_def)
qed

lemma random_shuffle_mset: "mset (random_shuffle rnd xs) = mset xs"
proof (cases xs)
  case Nil
  then show ?thesis by (simp add: random_shuffle_def)
next
  case (Cons x ys)
  then show ?thesis
    using shuffle_loop_mset [of "length xs - 1" xs rnd] by (simp add: random_shuffle_def)
qed

lemma random_shuffle_set: "set (random_shuffle rnd xs) = set xs"
  using random_shuffle_mset [of rnd xs] by (rule mset_eq_setD)

lemma random_shuffle_length: "length (random_shuffle rnd xs) = length xs"
  using random_shuffle_mset [of rnd xs] by (rule mset_eq_length)

lemma random_shuffle_distinct: "distinct (random_shuffle rnd xs) = distinct xs"
  using random_shuffle_mset [of rnd xs] by (metis mset_eq_imp_distinct_iff)

lemma map_exn_length: "map_exn f xs = Inr ys \<Longrightarrow> length ys = length xs"
  by (induction xs arbitrary: ys) (auto split: sum.splits)

subsection \<open>The loop body\<close>

lemma body_attrs:
  assumes "body E v s a = (s1, st)"
  shows "data s1 = data s \<and> output_folder s1 = output_folder s \<and> labels2idx s1 = labels2idx s
       \<and> folder s1 = folder s \<and> frame_size s1 = frame_size s \<and> frame_rate s1 = frame_rate s
       \<and> shm_dir_path s1 = shm_dir_path s \<and> all_meta s1 = all_meta s \<and> written s1 = written s
       \<and> length (heap s1) = length (heap s)"
  using assms
  by (cases v)
     (auto simp: body_def json_body_def csv_body_def imagelist_body_def imagefolder_body_def Let_def
           split: sum.splits option.splits exn.splits)

lemma body_same_state:
  assumes "v \<noteq> ImageList"
  shows "fst (body E v s a) = s"
  using assms
  by (cases v)
     (auto simp: body_def json_body_def csv_body_def imagefolder_body_def Let_def
           split: sum.splits option.splits)

lemma body_no_continue:
  assumes "v \<noteq> ImageList"
  shows "snd (body E v s a) \<noteq> Continue"
  using assms
  by (cases v)
     (auto simp: body_def json_body_def csv_body_def imagefolder_body_def Let_def
           split: sum.splits option.splits)

lemma body_emit_meta:
  assumes "body E v s a = (s1, Emit r)"
  shows "r_meta r = a"
  using assms
  by (cases v)
     (auto simp: body_def json_body_def csv_body_def imagelist_body_def imagefolder_body_def Let_def
           split: sum.splits option.splits exn.splits)

lemma body_heap_elsewhere:
  assumes "x \<noteq> a"
  shows "heap (fst (body E v s a)) ! x = heap s ! x"
  using assms
  by (cases v)
     (auto simp: body_def json_body_def csv_body_def imagelist_body_def imagefolder_body_def Let_def
           split: sum.splits option.splits exn.splits)

lemma body_cong:
  assumes "heap s1 ! x = heap s ! x" "length (heap s1) = length (heap s)"
    "folder s1 = folder s" "frame_size s1 = frame_size s" "frame_rate s1 = frame_rate s"
    "shm_dir_path s1 = shm_dir_path s"
  shows "snd (body E v s1 x) = snd (body E v s x)
       \<and> heap (fst (body E v s1 x)) ! x = heap (fst (body E v s x)) ! x"
proof (cases "x < length (heap s)")
  case True
  then show ?thesis
    using assms
    by (cases v)
       (auto simp: body_def json_body_def csv_body_def imagelist_body_def imagefolder_body_def Let_def
             split: sum.splits option.splits exn.splits)
next
  case False
  then show ?thesis
    using assms
    by (cases v)
       (auto simp: body_def json_body_def csv_body_def imagelist_body_def imagefolder_body_def Let_def
                   list_update_beyond not_less
             split: sum.splits option.splits exn.splits)
qed

lemma imagelist_body_emit:
  assumes "body E ImageList s a = (s1, Emit r)" "a < length (heap s)"
  shows "m_path (heap s1 ! a) = None"
  using assms
  by (auto simp: body_def imagelist_body_def Let_def split: sum.splits option.splits exn.splits)

lemma imagelist_body_continue:
  assumes "body E ImageList s a = (s1, Continue)"
  shows "heap s1 = heap s \<and> m_path (heap s ! a) \<noteq> None"
  using assms
  by (auto simp: body_def imagelist_body_def Let_def split: sum.splits option.splits exn.splits)

lemma imagelist_body_keyerror:
  assumes "m_path (heap s ! a) = None"
  shows "body E ImageList s a = (s, Abort (KeyError ''path''))"
  using assms by (simp add: body_def imagelist_body_def Let_def)

subsection \<open>The loop body and the acquisition of the frames\<close>

lemma body_acquired:
  assumes "acquisition E v s x = Inr frames"
  shows "body E v s x =
     ((if v = ImageList then s\<lparr>heap := (heap s)[x := (heap s ! x)\<lparr>m_path := None\<rparr>]\<rparr> else s),
      Emit \<lparr>r_meta = x, r_frames = frames, r_id = m_id (heap s ! x)\<rparr>)"
  using assms
  by (cases v)
     (auto simp: body_def json_body_def csv_body_def imagelist_body_def imagefolder_body_def
                 acquisition_def Let_def
           split: sum.splits option.splits exn.splits)

lemma body_tolerated:
  assumes "acquisition E ImageList s x = Inl (ImageNotFound msg)"
  shows "body E ImageList s x = (s\<lparr>stdout := stdout s @ [msg]\<rparr>, Continue)"
  using assms
  by (auto simp: body_def imagelist_body_def acquisition_def Let_def
           split: sum.splits option.splits exn.splits)

lemma body_fatal:
  assumes "acquisition E v s x = Inl e" "\<not> tolerated E v s x"
  shows "body E v s x = (s, Abort e)"
  using assms
  by (cases v)
     (auto simp: body_def json_body_def csv_body_def imagelist_body_def imagefolder_body_def
                 acquisition_def tolerated_def Let_def
           split: sum.splits option.splits exn.splits)

lemma tolerated_cases:
  "tolerated E v s x \<longleftrightarrow> v = ImageList \<and> (\<exists>msg. acquisition E v s x = Inl (ImageNotFound msg))"
  by (auto simp: tolerated_def split: sum.splits exn.splits)

lemma emitted_expected: "emitted E v s x = expected E v s x"
proof (cases "acquisition E v s x")
  case (Inr frames)
  then show ?thesis
    by (simp add: emitted_def expected_def body_acquired)
next
  case (Inl e)
  show ?thesis
  proof (cases "tolerated E v s x")
    case True
    then obtain msg where il: "v = ImageList"
      and t: "acquisition E ImageList s x = Inl (ImageNotFound msg)"
      by (auto simp: tolerated_cases)
    show ?thesis
      using il t body_tolerated [OF t] by (simp add: emitted_def expected_def)
  next
    case False
    then show ?thesis
      using Inl by (simp add: emitted_def expected_def body_fatal)
  qed
qed

lemma skipped_tolerated: "skipped E v s x = tolerated E v s x"
proof (cases "acquisition E v s x")
  case (Inr frames)
  then show ?thesis
    by (simp add: skipped_def tolerated_def body_acquired)
next
  case (Inl e)
  show ?thesis
  proof (cases "tolerated E v s x")
    case True
    then obtain msg where il: "v = ImageList"
      and t: "acquisition E ImageList s x = Inl (ImageNotFound msg)"
      by (auto simp: tolerated_cases)
    show ?thesis
      using il True body_tolerated [OF t] by (simp add: skipped_def)
  next
    case False
    then show ?thesis
      using Inl by (simp add: skipped_def body_fatal)
  qed
qed

lemma body_abort_iff: "(\<exists>e. snd (body E v s x) = Abort e) \<longleftrightarrow> \<not> acquirable E v s x"
proof (cases "acquisition E v s x")
  case (Inr frames)
  then show ?thesis
    by (simp add: acquirable_def body_acquired)
next
  case (Inl e)
  show ?thesis
  proof (cases "tolerated E v s x")
    case True
    then obtain msg where il: "v = ImageList"
      and t: "acquisition E ImageList s x = Inl (ImageNotFound msg)"
      by (auto simp: tolerated_cases)
    show ?thesis
      using il True t body_tolerated [OF t] by (simp add: acquirable_def)
  next
    case False
    then show ?thesis
      using Inl by (simp add: acquirable_def body_fatal)
  qed
qed

lemma acquirable_cases:
  "acquirable E v s x \<longleftrightarrow> tolerated E v s x \<or> (\<exists>frames. acquisition E v s x = Inr frames)"
  by (auto simp: acquirable_def split: sum.splits)

lemma expected_metas:
  assumes "acquirable E v s x"
  shows "map r_meta (expected E v s x) = (if tolerated E v s x then [] else [x])"
  using assms
  by (auto simp: acquirable_cases expected_def tolerated_def split: sum.splits exn.splits)

lemma not_tolerated_other: "v \<noteq> ImageList \<Longrightarrow> \<not> tolerated E v s x"
  by (simp add: tolerated_cases)

subsection \<open>What a call of next leaves unchanged\<close>

lemma same_config_refl: "same_config s s"
  by (simp add: same_config_def)

lemma same_config_trans: "same_config s s1 \<Longrightarrow> same_config s1 s2 \<Longrightarrow> same_config s s2"
  by (simp add: same_config_def)

lemma same_config_dump: "same_config s s' \<Longrightarrow> label2idx_dump s' = label2idx_dump s"
  by (simp add: same_config_def label2idx_dump_def)

lemma body_same_config: "body E v s a = (s1, st) \<Longrightarrow> same_config s s1"
  using body_attrs [of E v s a s1 st] by (simp add: same_config_def)

lemma body_all_meta: "body E v s a = (s1, st) \<Longrightarrow> all_meta s1 = all_meta s"
  using body_attrs [of E v s a s1 st] by simp

lemma body_written: "body E v s a = (s1, st) \<Longrightarrow> written s1 = written s"
  using body_attrs [of E v s a s1 st] by simp

lemma write_cases:
  "write_label2idx_dict E s =
     (case persist E s of
        Some e \<Rightarrow> Inl e
      | None \<Rightarrow> Inr (s\<lparr>written := written s @ [label2idx_dump s]\<rparr>))"
  by (simp add: write_label2idx_dict_def persist_def label2idx_dump_def Let_def split: option.splits)

lemma write_ok:
  assumes "write_label2idx_dict E s = Inr s'"
  shows "persist E s = None \<and> s' = s\<lparr>written := written s @ [label2idx_dump s]\<rparr>"
  using assms by (simp add: write_cases split: option.splits)

lemma write_fails:
  assumes "write_label2idx_dict E s = Inl e"
  shows "persist E s = Some e"
  using assms by (simp add: write_cases split: option.splits)

lemma persist_cong: "same_config s s' \<Longrightarrow> persist E s' = persist E s"
  by (simp add: same_config_def persist_def)

lemma resume_frame:
  assumes "resume E v s w = (out, s', g')"
  shows "same_config s s' \<and> all_meta s' = all_meta s
       \<and> (out = StopIteration \<longrightarrow>
            written s' = written s @ [label2idx_dump s] \<and> g' = Finished \<and> persist E s = None)
       \<and> (out \<noteq> StopIteration \<longrightarrow> written s' = written s)
       \<and> (\<forall>r. out = Yield r \<longrightarrow> (\<exists>rest. g' = Suspended rest))
       \<and> (\<forall>e. out = Raise e \<longrightarrow> g' = Finished)"
  using assms
proof (induction w arbitrary: s)
  case Nil
  show ?case
  proof (cases "write_label2idx_dict E s")
    case (Inl e)
    then show ?thesis
      using Nil by (auto simp: same_config_refl)
  next
    case (Inr s1)
    then show ?thesis
      using Nil write_ok [OF Inr] by (auto simp: same_config_def)
  qed
next
  case (Cons a rest)
  obtain s1 st where b: "body E v s a = (s1, st)"
    by (cases "body E v s a")
  note sc = body_same_config [OF b] and am = body_all_meta [OF b] and wr = body_written [OF b]
  show ?case
  proof (cases st)
    case Continue
    then have "resume E v s1 rest = (out, s', g')"
      using Cons.prems b by simp
    from Cons.IH [OF this] show ?thesis
      using sc am wr same_config_trans [OF sc] same_config_dump [OF sc] persist_cong [OF sc, of E]
      by auto
  next
    case (Emit r)
    then show ?thesis
      using Cons.prems b sc am wr by auto
  next
    case (Abort e)
    then show ?thesis
      using Cons.prems b sc am wr by auto
  qed
qed

lemma enter_frame:
  assumes "enter v s sl = Inr (s0, w)"
  shows "same_config s s0 \<and> heap s0 = heap s \<and> written s0 = written s \<and> stdout s0 = stdout s
       \<and> getslice (all_meta s) (default_slice s sl) = Inr w
       \<and> all_meta s0 = (if v = ImageList then w else all_meta s)"
  using assms
  by (auto simp: enter_def same_config_def split: sum.splits if_splits)

lemma gen_next_frame:
  assumes "gen_next E v (s, g) = (out, s', g')"
  shows "same_config s s'
       \<and> (out = StopIteration \<and> g \<noteq> Finished \<longrightarrow>
            written s' = written s @ [label2idx_dump s] \<and> persist E s = None)
       \<and> (out \<noteq> StopIteration \<or> g = Finished \<longrightarrow> written s' = written s)
       \<and> (\<forall>r. out = Yield r \<longrightarrow> (\<exists>rest. g' = Suspended rest) \<and> g \<noteq> Finished)
       \<and> (out = StopIteration \<longrightarrow> g' = Finished)
       \<and> (\<forall>e. out = Raise e \<longrightarrow> g' = Finished)"
proof (cases g)
  case (Created sl)
  show ?thesis
  proof (cases "enter v s sl")
    case (Inl e)
    then show ?thesis
      using assms Created by (auto simp: gen_next_def same_config_refl)
  next
    case (Inr p)
    obtain s0 w where p: "p = (s0, w)" by (cases p)
    have r: "resume E v s0 w = (out, s', g')"
      using assms Created Inr p by (simp add: gen_next_def)
    have e: "same_config s s0" "written s0 = written s"
      using enter_frame [of v s sl s0 w] Inr p by auto
    show ?thesis
      using resume_frame [OF r] e same_config_trans [OF e(1)] same_config_dump [OF e(1)]
        persist_cong [OF e(1), of E] Created
      by auto
  qed
next
  case (Suspended rest)
  then have "resume E v s rest = (out, s', g')"
    using assms by (simp add: gen_next_def)
  from resume_frame [OF this] show ?thesis
    using Suspended by auto
next
  case Finished
  then show ?thesis
    using assms by (auto simp: gen_next_def same_config_refl)
qed

lemma consume_frame:
  assumes "consume E v n (s, g) = (rs, fin, s', g')"
  shows "same_config s s'
       \<and> (fin = Some Drained \<and> g \<noteq> Finished \<longrightarrow>
            written s' = written s @ [label2idx_dump s] \<and> persist E s = None)
       \<and> (fin \<noteq> Some Drained \<or> g = Finished \<longrightarrow> written s' = written s)
       \<and> (fin \<noteq> None \<longrightarrow> g' = Finished)
       \<and> (fin = None \<longrightarrow> length rs = n)"
  using assms
proof (induction n arbitrary: s g rs)
  case 0
  then show ?case by (auto simp: same_config_refl)
next
  case (Suc n)
  obtain out s1 g1 where gn: "gen_next E v (s, g) = (out, s1, g1)"
    by (cases "gen_next E v (s, g)")
  note f = gen_next_frame [OF gn]
  show ?case
  proof (cases out)
    case (Yield r)
    obtain rs1 where c: "consume E v n (s1, g1) = (rs1, fin, s', g')" and rs: "rs = r # rs1"
      using Suc.prems gn Yield by (auto split: prod.splits)
    have g1: "g1 \<noteq> Finished" "g \<noteq> Finished" using f Yield by auto
    have sc: "same_config s s1" using f by simp
    show ?thesis
      using Suc.IH [OF c] f Yield rs g1 same_config_trans [OF sc] same_config_dump [OF sc]
        persist_cong [OF sc, of E]
      by auto
  next
    case StopIteration
    then show ?thesis
      using Suc.prems gn f by auto
  next
    case (Raise e)
    then show ?thesis
      using Suc.prems gn f by auto
  qed
qed

subsection \<open>The example adapters\<close>

lemma example_image_list_init:
  "imagelist_init example_env ''list.txt'' ''out'' ''root'' False (- 1) = Inr example_image_list"
proof -
  have p: "parse_paths example_env ''list.txt'' = Inr (data example_image_list)"
    by code_simp
  have l: "create_label2idx_dict_image (data example_image_list) = Inr [(''cat'', 0), (''dog'', 1)]"
    unfolding example_image_list_def by code_simp
  have m: "get_meta_image (data example_image_list) [(''cat'', 0), (''dog'', 1)]
      = Inr (heap example_image_list)"
    by (simp add: get_meta_image_def meta_image_def getitem_def example_image_list_def)
  show ?thesis
    by (simp add: imagelist_init_def p l m new_adapter_def) (simp add: example_image_list_def upt_rec)
qed

lemma example_csv_init:
  "csv_init example_env ''train.csv'' ''frames'' ''out'' False (- 1) ''/dev/shm'' = Inr example_csv"
proof -
  have p: "read_csv example_env ''train.csv'' = Inr (data example_csv)"
    by code_simp
  have l: "create_label2idx_dict ''label'' (data example_csv) = Inr [(''cat'', 0), (''dog'', 1)]"
    unfolding example_csv_def by code_simp
  have m: "get_meta_csv (data example_csv) [(''cat'', 0), (''dog'', 1)] = Inr (heap example_csv)"
    by (simp add: get_meta_csv_def meta_20bn_def getitem_def example_csv_def)
  show ?thesis
    by (simp add: csv_init_def p l m new_adapter_def) (simp add: example_csv_def upt_rec)
qed

lemma example_image_list_run:
  "consume example_env ImageList 3 (example_image_list, iter_data None)
     = ([\<lparr>r_meta = 0, r_frames = [12], r_id = ''x.jpg''\<rparr>,
         \<lparr>r_meta = 2, r_frames = [12], r_id = ''z.jpg''\<rparr>],
        Some Drained, example_image_list_after, Finished)"
  by code_simp

lemma example_image_folder_init:
  "imagefolder_init example_env ''/d/'' ''out'' default_file_extensions False (- 1)
     = Inr example_image_folder"
  by code_simp

lemma example_image_list_well_formed: "well_formed example_image_list"
  by code_simp

lemma example_json_init:
  "json_init example_env ''train.json'' ''videos'' ''out'' False (- 1) 8 ''/dev/shm'' = Inr example_json"
  by code_simp

subsection \<open>The consumer\<close>

lemma gen_next_finished: "gen_next E v (s, Finished) = (StopIteration, s, Finished)"
  by (simp add: gen_next_def)

lemma gen_next_suspended_continue:
  assumes "body E v s a = (s1, Continue)"
  shows "gen_next E v (s, Suspended (a # rest)) = gen_next E v (s1, Suspended rest)"
  using assms by (simp add: gen_next_def)

lemma consume_suspended_continue:
  assumes "body E v s a = (s1, Continue)"
  shows "consume E v (Suc n) (s, Suspended (a # rest)) = consume E v (Suc n) (s1, Suspended rest)"
  using gen_next_suspended_continue [OF assms] by simp

lemma consume_suspended_emit:
  assumes "body E v s a = (s1, Emit r)"
  shows "consume E v (Suc n) (s, Suspended (a # rest))
       = (case consume E v n (s1, Suspended rest) of (rs, fin) \<Rightarrow> (r # rs, fin))"
  using assms by (simp add: gen_next_def)

lemma consume_suspended_abort:
  assumes "body E v s a = (s1, Abort e)"
  shows "consume E v (Suc n) (s, Suspended (a # rest)) = ([], Some (Failed e), s1, Finished)"
  using assms by (simp add: gen_next_def)

lemma consume_suspended_nil:
  "consume E v (Suc n) (s, Suspended []) =
     (case persist E s of
        Some e \<Rightarrow> ([], Some (Failed e), s, Finished)
      | None \<Rightarrow> ([], Some Drained, s\<lparr>written := written s @ [label2idx_dump s]\<rparr>, Finished))"
  by (simp add: gen_next_def write_cases split: option.splits)

lemma consume_created:
  "consume E v (Suc n) (s, Created sl) =
     (case enter v s sl of
        Inl e \<Rightarrow> ([], Some (Failed e), s, Finished)
      | Inr (s0, w) \<Rightarrow> consume E v (Suc n) (s0, Suspended w))"
  by (simp add: gen_next_def split: sum.splits)

lemma consume_suspended_ends:
  "\<exists>m. fst (snd (consume E v m (s, Suspended w))) \<noteq> None"
proof (induction w arbitrary: s)
  case Nil
  have "fst (snd (consume E v (Suc 0) (s, Suspended []))) \<noteq> None"
    by (simp add: consume_suspended_nil del: consume.simps split: option.splits)
  then show ?case by blast
next
  case (Cons a rest)
  obtain s1 st where b: "body E v s a = (s1, st)"
    by (cases "body E v s a")
  obtain m where m: "fst (snd (consume E v m (s1, Suspended rest))) \<noteq> None"
    using Cons.IH by blast
  show ?case
  proof (cases st)
    case Continue
    obtain k where k: "m = Suc k"
      using m by (cases m) auto
    have "consume E v (Suc k) (s, Suspended (a # rest)) = consume E v (Suc k) (s1, Suspended rest)"
      using consume_suspended_continue b Continue by blast
    then show ?thesis
      using m k by metis
  next
    case (Emit r)
    have "fst (snd (consume E v (Suc m) (s, Suspended (a # rest)))) \<noteq> None"
      using m consume_suspended_emit [of E v s a s1 r m rest] b Emit
      by (auto split: prod.splits simp del: consume.simps)
    then show ?thesis by blast
  next
    case (Abort e)
    have "fst (snd (consume E v (Suc 0) (s, Suspended (a # rest)))) \<noteq> None"
      using consume_suspended_abort [of E v s a s1 e 0 rest] b Abort by (simp del: consume.simps)
    then show ?thesis by blast
  qed
qed

lemma consume_ends: "\<exists>m. fst (snd (consume E v m (s, g))) \<noteq> None"
proof (cases g)
  case (Created sl)
  show ?thesis
  proof (cases "enter v s sl")
    case (Inl e)
    then have "fst (snd (consume E v (Suc 0) (s, g))) \<noteq> None"
      using Created by (simp add: consume_created del: consume.simps)
    then show ?thesis by blast
  next
    case (Inr p)
    obtain s0 w where p: "p = (s0, w)" by (cases p)
    obtain m where m: "fst (snd (consume E v m (s0, Suspended w))) \<noteq> None"
      using consume_suspended_ends by blast
    obtain k where k: "m = Suc k"
      using m by (cases m) auto
    have "consume E v (Suc k) (s, g) = consume E v (Suc k) (s0, Suspended w)"
      using Created Inr p by (simp add: consume_created del: consume.simps)
    then show ?thesis using m k by metis
  qed
next
  case (Suspended w)
  then show ?thesis using consume_suspended_ends by blast
next
  case Finished
  have "fst (snd (consume E v (Suc 0) (s, Finished))) \<noteq> None"
    by (simp add: gen_next_finished)
  then show ?thesis using Finished by blast
qed

subsection \<open>The trace of a drained iteration\<close>

lemma emitted_cong:
  assumes "heap s1 ! x = heap s ! x" "same_config s s1"
  shows "emitted E v s1 x = emitted E v s x" "skipped E v s1 x = skipped E v s x"
    "snd (body E v s1 x) = snd (body E v s x)"
    "heap (fst (body E v s1 x)) ! x = heap (fst (body E v s x)) ! x"
  using body_cong [of s1 x s E v] assms
  by (simp_all add: emitted_def skipped_def same_config_def)

lemma drained_trace:
  assumes "distinct w" "consume E v n (s, Suspended w) = (rs, Some Drained, s', g')"
  shows "rs = concat (map (emitted E v s) w)
       \<and> (\<forall>x \<in> set w. \<forall>e. snd (body E v s x) \<noteq> Abort e)
       \<and> (\<forall>x. heap s' ! x = (if x \<in> set w then heap (fst (body E v s x)) ! x else heap s ! x))
       \<and> all_meta s' = all_meta s"
  using assms
proof (induction w arbitrary: s n rs)
  case Nil
  then obtain m where n: "n = Suc m" by (cases n) auto
  show ?case
    using Nil.prems(2) unfolding n consume_suspended_nil
    by (auto split: option.splits)
next
  case (Cons a rest)
  then obtain m where n: "n = Suc m" by (cases n) auto
  obtain s1 st where b: "body E v s a = (s1, st)"
    by (cases "body E v s a")
  have sc: "same_config s s1" by (rule body_same_config [OF b])
  have am: "all_meta s1 = all_meta s" by (rule body_all_meta [OF b])
  have na: "a \<notin> set rest" and dr: "distinct rest"
    using Cons.prems(1) by auto
  have elsewhere: "heap s1 ! x = heap s ! x" if "x \<noteq> a" for x
    using body_heap_elsewhere [OF that, of E v s] b by simp
  have same_rest: "emitted E v s1 x = emitted E v s x \<and> snd (body E v s1 x) = snd (body E v s x)
      \<and> heap (fst (body E v s1 x)) ! x = heap (fst (body E v s x)) ! x" if "x \<in> set rest" for x
  proof -
    have "x \<noteq> a" using that na by auto
    note ec = emitted_cong [OF elsewhere [OF this] sc]
    show ?thesis by (simp add: ec)
  qed
  have map_rest: "map (emitted E v s1) rest = map (emitted E v s) rest"
    using same_rest by simp
  show ?case
  proof (cases st)
    case Continue
    have c: "consume E v (Suc m) (s1, Suspended rest) = (rs, Some Drained, s', g')"
      using Cons.prems(2) consume_suspended_continue [of E v s a s1 m rest] b Continue n by simp
    note ih = Cons.IH [OF dr c]
    have ea: "emitted E v s a = []"
      using b Continue by (simp add: emitted_def)
    show ?thesis
      using ih ea map_rest same_rest elsewhere na am b Continue by auto
  next
    case (Emit r)
    obtain rs1 where c: "consume E v m (s1, Suspended rest) = (rs1, Some Drained, s', g')"
      and rs: "rs = r # rs1"
      using Cons.prems(2) consume_suspended_emit [of E v s a s1 r m rest] b Emit n
      by (auto split: prod.splits)
    note ih = Cons.IH [OF dr c]
    have ea: "emitted E v s a = [r]"
      using b Emit by (simp add: emitted_def)
    show ?thesis
      using ih ea rs map_rest same_rest elsewhere na am b Emit by auto
  next
    case (Abort e)
    then show ?thesis
      using Cons.prems(2) consume_suspended_abort [of E v s a s1 e m rest] b n by simp
  qed
qed

lemma emitted_metas:
  assumes "\<forall>e. snd (body E v s x) \<noteq> Abort e"
  shows "map r_meta (emitted E v s x) = (if skipped E v s x then [] else [x])"
proof -
  obtain s1 st where b: "body E v s x = (s1, st)"
    by (cases "body E v s x")
  show ?thesis
    using assms b body_emit_meta [of E v s x s1]
    by (cases st) (auto simp: emitted_def skipped_def)
qed

lemma trace_metas:
  assumes "\<forall>x \<in> set w. \<forall>e. snd (body E v s x) \<noteq> Abort e"
  shows "map r_meta (concat (map (emitted E v s) w)) = filter (\<lambda>x. \<not> skipped E v s x) w"
  using assms by (induction w) (auto simp: emitted_metas)

lemma emitted_in_trace:
  assumes "r \<in> set (concat (map (emitted E v s) w))"
  shows "r_meta r \<in> set w \<and> (\<exists>s1. body E v s (r_meta r) = (s1, Emit r))"
proof -
  obtain x where x: "x \<in> set w" and r: "r \<in> set (emitted E v s x)"
    using assms by auto
  obtain s1 st where b: "body E v s x = (s1, st)"
    by (cases "body E v s x")
  have st: "st = Emit r"
    using r b by (cases st) (auto simp: emitted_def)
  have "r_meta r = x"
    using body_emit_meta [of E v s x s1 r] b st by simp
  then show ?thesis using x b st by auto
qed

lemma body_emit_heap:
  assumes "body E v s a = (s1, Emit r)" "a < length (heap s)"
  shows "heap s1 ! a = (if v = ImageList then (heap s ! a)\<lparr>m_path := None\<rparr> else heap s ! a)"
  using assms
  by (cases v)
     (auto simp: body_def json_body_def csv_body_def imagelist_body_def imagefolder_body_def Let_def
           split: sum.splits option.splits exn.splits)

lemma consume_created_window:
  assumes "enter v s sl = Inr (s0, w)"
  shows "consume E v n (s, iter_data sl) = (rs, Some Drained, s', g')
         \<longleftrightarrow> consume E v n (s0, Suspended w) = (rs, Some Drained, s', g')"
proof (cases n)
  case 0
  then show ?thesis by (simp add: iter_data_def)
next
  case (Suc m)
  then show ?thesis
    using assms by (simp add: iter_data_def consume_created del: consume.simps)
qed

lemma drained_from_created:
  assumes wf: "distinct (all_meta s)"
    and e: "getslice (all_meta s) (default_slice s sl) = Inr w"
    and c: "consume E v n (s, iter_data sl) = (rs, Some Drained, s', g')"
  shows "rs = concat (map (emitted E v s) w)
       \<and> (\<forall>x \<in> set w. \<forall>e. snd (body E v s x) \<noteq> Abort e)
       \<and> (\<forall>x. heap s' ! x = (if x \<in> set w then heap (fst (body E v s x)) ! x else heap s ! x))
       \<and> all_meta s' = (if v = ImageList then w else all_meta s)"
proof -
  define s0 where "s0 = (if v = ImageList then s\<lparr>all_meta := w\<rparr> else s)"
  have en: "enter v s sl = Inr (s0, w)"
    using e by (simp add: enter_def s0_def)
  have dw: "distinct w" by (rule getslice_distinct [OF e wf])
  have c0: "consume E v n (s0, Suspended w) = (rs, Some Drained, s', g')"
    using consume_created_window [OF en] c by blast
  have h: "heap s0 = heap s" "same_config s s0" "all_meta s0 = (if v = ImageList then w else all_meta s)"
    by (simp_all add: same_config_def s0_def)
  have hx: "heap s0 ! x = heap s ! x" for x
    by (simp add: h(1))
  have ec: "emitted E v s0 x = emitted E v s x" "snd (body E v s0 x) = snd (body E v s x)"
      "heap (fst (body E v s0 x)) ! x = heap (fst (body E v s x)) ! x" for x
    using emitted_cong [OF hx [of x] h(2), where E = E and v = v] by simp_all
  have m: "map (emitted E v s0) w = map (emitted E v s) w"
    using ec by simp
  note t = drained_trace [OF dw c0]
  have 1: "rs = concat (map (emitted E v s) w)"
    using t m by simp
  have 2: "\<forall>x \<in> set w. \<forall>e. snd (body E v s x) \<noteq> Abort e"
    using t ec(2) by simp
  have 3: "\<forall>x. heap s' ! x = (if x \<in> set w then heap (fst (body E v s x)) ! x else heap s ! x)"
    using t ec(3) hx by simp
  have 4: "all_meta s' = (if v = ImageList then w else all_meta s)"
    using t h(3) by simp
  show ?thesis
    using 1 2 3 4 by blast
qed

lemma consume_more_fuel:
  assumes "fst (snd (consume E v n sg)) \<noteq> None"
  shows "consume E v (Suc n) sg = consume E v n sg"
  using assms
proof (induction n arbitrary: sg)
  case 0
  then show ?case by (cases sg) simp
next
  case (Suc n)
  obtain out sg1 where gn: "gen_next E v sg = (out, sg1)"
    by (cases "gen_next E v sg")
  show ?case
  proof (cases out)
    case (Yield r)
    have "fst (snd (consume E v n sg1)) \<noteq> None"
      using Suc.prems gn Yield by (auto split: prod.splits)
    from Suc.IH [OF this] have "consume E v (Suc n) sg1 = consume E v n sg1" .
    then show ?thesis
      using gn Yield by (simp del: consume.simps add: consume.simps(2) [of E v "Suc n" sg] consume.simps(2) [of E v n sg])
  next
    case StopIteration
    then show ?thesis using gn by simp
  next
    case (Raise e)
    then show ?thesis using gn by simp
  qed
qed

lemma ending_not_none:
  "(case persist E s of None \<Rightarrow> Some Drained | Some e \<Rightarrow> Some (Failed e)) \<noteq> None"
  by (simp split: option.splits)

lemma drains_if_no_abort:
  assumes "distinct w" "\<forall>x \<in> set w. \<forall>e. snd (body E v s x) \<noteq> Abort e"
  shows "\<exists>s'. consume E v (Suc (length w)) (s, Suspended w)
            = (concat (map (emitted E v s) w),
               (case persist E s of None \<Rightarrow> Some Drained | Some e \<Rightarrow> Some (Failed e)),
               s', Finished)"
  using assms
proof (induction w arbitrary: s)
  case Nil
  then show ?case
    by (simp add: consume_suspended_nil del: consume.simps split: option.splits)
next
  case (Cons a rest)
  obtain s1 st where b: "body E v s a = (s1, st)"
    by (cases "body E v s a")
  have sc: "same_config s s1" by (rule body_same_config [OF b])
  have na: "a \<notin> set rest" and dr: "distinct rest"
    using Cons.prems(1) by auto
  have same_rest: "snd (body E v s1 x) = snd (body E v s x) \<and> emitted E v s1 x = emitted E v s x"
    if "x \<in> set rest" for x
  proof -
    have "x \<noteq> a" using that na by auto
    then have "heap s1 ! x = heap s ! x"
      using body_heap_elsewhere [of x a E v s] b by simp
    note ec = emitted_cong [OF this sc]
    show ?thesis by (simp add: ec)
  qed
  then have ok: "\<forall>x \<in> set rest. \<forall>e. snd (body E v s1 x) \<noteq> Abort e"
    using Cons.prems(2) by simp
  have map_rest: "map (emitted E v s1) rest = map (emitted E v s) rest"
    using same_rest by simp
  let ?fin = "case persist E s of None \<Rightarrow> Some Drained | Some e \<Rightarrow> Some (Failed e)"
  from Cons.IH [OF dr ok] obtain s' where
    ih: "consume E v (Suc (length rest)) (s1, Suspended rest)
           = (concat (map (emitted E v s) rest), ?fin, s', Finished)"
    using map_rest persist_cong [OF sc, of E] by auto
  show ?case
  proof (cases st)
    case Continue
    have "consume E v (Suc (Suc (length rest))) (s1, Suspended rest)
        = consume E v (Suc (length rest)) (s1, Suspended rest)"
      by (rule consume_more_fuel) (simp add: ih ending_not_none del: consume.simps)
    moreover have "emitted E v s a = []"
      using b Continue by (simp add: emitted_def)
    ultimately have "consume E v (Suc (length (a # rest))) (s, Suspended (a # rest))
        = (concat (map (emitted E v s) (a # rest)), ?fin, s', Finished)"
      using consume_suspended_continue [of E v s a s1 "Suc (length rest)" rest] b Continue ih
      by (simp del: consume.simps)
    then show ?thesis by blast
  next
    case (Emit r)
    have "emitted E v s a = [r]"
      using b Emit by (simp add: emitted_def)
    then have "consume E v (Suc (length (a # rest))) (s, Suspended (a # rest))
        = (concat (map (emitted E v s) (a # rest)), ?fin, s', Finished)"
      using consume_suspended_emit [of E v s a s1 r "Suc (length rest)" rest] b Emit ih
      by (simp del: consume.simps)
    then show ?thesis by blast
  next
    case (Abort e)
    then show ?thesis
      using Cons.prems(2) b by auto
  qed
qed

subsection \<open>The trace in terms of the acquisition\<close>

lemma acquisition_cong:
  assumes "heap s1 ! x = heap s ! x" "same_config s s1"
  shows "acquisition E v s1 x = acquisition E v s x"
  using assms
  by (cases v) (auto simp: acquisition_def same_config_def split: sum.splits option.splits)

lemma notions_cong:
  assumes "heap s1 ! x = heap s ! x" "same_config s s1"
  shows "expected E v s1 x = expected E v s x" "tolerated E v s1 x = tolerated E v s x"
    "acquirable E v s1 x = acquirable E v s x"
  using acquisition_cong [OF assms, of E v] assms(1)
  by (auto simp: expected_def tolerated_def acquirable_def split: sum.splits exn.splits)

lemma no_abort_acquirable:
  "(\<forall>x \<in> set w. \<forall>e. snd (body E v s x) \<noteq> Abort e) \<longleftrightarrow> (\<forall>x \<in> set w. acquirable E v s x)"
  using body_abort_iff [of E v s] by blast

lemma trace_expected: "map (emitted E v s) w = map (expected E v s) w"
  by (simp add: emitted_expected)

lemma expected_trace_metas:
  assumes "\<forall>x \<in> set w. acquirable E v s x"
  shows "map r_meta (concat (map (expected E v s) w)) = filter (\<lambda>x. \<not> tolerated E v s x) w"
  using assms by (induction w) (auto simp: expected_metas)

lemma drains_if_acquirable:
  assumes "distinct w" "\<forall>x \<in> set w. acquirable E v s x"
  shows "\<exists>s'. consume E v (Suc (length w)) (s, Suspended w)
            = (concat (map (expected E v s) w),
               (case persist E s of None \<Rightarrow> Some Drained | Some e \<Rightarrow> Some (Failed e)),
               s', Finished)"
  using drains_if_no_abort [OF assms(1), of E v s] assms(2)
  unfolding no_abort_acquirable trace_expected by blast

lemma consume_window:
  assumes "getslice (all_meta s) (default_slice s sl) = Inr w"
  shows "consume E v (Suc n) (s, iter_data sl)
       = consume E v (Suc n) ((if v = ImageList then s\<lparr>all_meta := w\<rparr> else s), Suspended w)"
  using assms by (simp add: iter_data_def consume_created enter_def del: consume.simps)

lemma drains_from_created:
  assumes dist: "distinct (all_meta s)"
    and gs: "getslice (all_meta s) (default_slice s sl) = Inr w"
    and ok: "\<forall>x \<in> set w. acquirable E v s x"
  shows "\<exists>s'. consume E v (Suc (length w)) (s, iter_data sl)
            = (concat (map (expected E v s) w),
               (case persist E s of None \<Rightarrow> Some Drained | Some e \<Rightarrow> Some (Failed e)),
               s', Finished)"
proof -
  define s0 where "s0 = (if v = ImageList then s\<lparr>all_meta := w\<rparr> else s)"
  have h: "heap s0 ! x = heap s ! x" "same_config s s0" for x
    by (simp_all add: same_config_def s0_def)
  note nc = notions_cong [OF h(1) h(2), where E = E and v = v]
  have ok0: "\<forall>x \<in> set w. acquirable E v s0 x"
    using ok nc(3) by simp
  have m: "map (expected E v s0) w = map (expected E v s) w"
    using nc(1) by simp
  have dw: "distinct w"
    by (rule getslice_distinct [OF gs dist])
  from drains_if_acquirable [OF dw ok0] obtain s' where
    "consume E v (Suc (length w)) (s0, Suspended w)
       = (concat (map (expected E v s0) w),
          (case persist E s0 of None \<Rightarrow> Some Drained | Some e \<Rightarrow> Some (Failed e)), s', Finished)"
    by blast
  then have "consume E v (Suc (length w)) (s, iter_data sl)
       = (concat (map (expected E v s) w),
          (case persist E s of None \<Rightarrow> Some Drained | Some e \<Rightarrow> Some (Failed e)), s', Finished)"
    unfolding consume_window [OF gs] s0_def [symmetric] m persist_cong [OF h(2)] .
  then show ?thesis by blast
qed

subsection \<open>A freshly constructed adapter\<close>

lemma new_adapter_fresh:
  assumes "length metas = length d"
  shows "well_formed (new_adapter E d l2i metas out fld sh fs fr shm)
       \<and> length (all_meta (new_adapter E d l2i metas out fld sh fs fr shm)) = length d"
  using assms
  by (auto simp: well_formed_def new_adapter_def list_all_iff random_shuffle_distinct
        random_shuffle_set random_shuffle_length)

lemma json_init_shape:
  assumes "json_init E f fld out sh fs fr shm = Inr s"
  shows "\<exists>d l2i metas. length metas = length d \<and> s = new_adapter E d l2i metas out fld sh fs fr shm"
proof -
  obtain d where d: "(if endswith f ''.json.gz'' then read_gz_json E f
            else if endswith f ''.json'' then read_json E f
            else Inl (RuntimeError ''Wrong data file format (.json.gz or .json)'')) = Inr d"
    using assms unfolding json_init_def by (auto split: sum.splits)
  obtain l2i where l: "create_label2idx_dict ''template'' d = Inr l2i"
    using assms unfolding json_init_def d by (auto split: sum.splits)
  obtain metas where m: "get_meta_json d l2i = Inr metas"
    using assms unfolding json_init_def d by (auto simp: l split: sum.splits)
  have "s = new_adapter E d l2i metas out fld sh fs fr shm"
    using assms unfolding json_init_def d by (simp add: l m)
  moreover have "length metas = length d"
    using m unfolding get_meta_json_def by (rule map_exn_length)
  ultimately show ?thesis by blast
qed

lemma csv_init_shape:
  assumes "csv_init E f fld out sh fs shm = Inr s"
  shows "\<exists>d l2i metas. length metas = length d \<and> s = new_adapter E d l2i metas out fld sh fs 0 shm"
proof -
  obtain d where d: "read_csv E f = Inr d"
    using assms unfolding csv_init_def by (auto split: sum.splits)
  obtain l2i where l: "create_label2idx_dict ''label'' d = Inr l2i"
    using assms unfolding csv_init_def d by (auto split: sum.splits)
  obtain metas where m: "get_meta_csv d l2i = Inr metas"
    using assms unfolding csv_init_def d by (auto simp: l split: sum.splits)
  have "s = new_adapter E d l2i metas out fld sh fs 0 shm"
    using assms unfolding csv_init_def d by (simp add: l m)
  moreover have "length metas = length d"
    using m unfolding get_meta_csv_def by (rule map_exn_length)
  ultimately show ?thesis by blast
qed

lemma imagelist_init_shape:
  assumes "imagelist_init E f out fld sh fs = Inr s"
  shows "\<exists>d l2i metas. length metas = length d \<and> s = new_adapter E d l2i metas out fld sh fs 0 []"
proof -
  obtain d where d: "parse_paths E f = Inr d"
    using assms unfolding imagelist_init_def by (auto split: sum.splits)
  obtain l2i where l: "create_label2idx_dict_image d = Inr l2i"
    using assms unfolding imagelist_init_def d by (auto split: sum.splits)
  obtain metas where m: "get_meta_image d l2i = Inr metas"
    using assms unfolding imagelist_init_def d by (auto simp: l split: sum.splits)
  have "s = new_adapter E d l2i metas out fld sh fs 0 []"
    using assms unfolding imagelist_init_def d by (simp add: l m)
  moreover have "length metas = length d"
    using m unfolding get_meta_image_def by (rule map_exn_length)
  ultimately show ?thesis by blast
qed

lemma imagefolder_init_shape:
  assumes "imagefolder_init E fld out exts sh fs = Inr s"
  shows "\<exists>d l2i metas. length metas = length d \<and> s = new_adapter E d l2i metas out fld sh fs 0 []"
proof -
  obtain d where d: "parse_folder E exts fld = Inr d"
    using assms unfolding imagefolder_init_def by (auto split: sum.splits)
  obtain l2i where l: "create_label2idx_dict_image d = Inr l2i"
    using assms unfolding imagefolder_init_def d by (auto split: sum.splits)
  obtain metas where m: "get_meta_image d l2i = Inr metas"
    using assms unfolding imagefolder_init_def d by (auto simp: l split: sum.splits)
  have "s = new_adapter E d l2i metas out fld sh fs 0 []"
    using assms unfolding imagefolder_init_def d by (simp add: l m)
  moreover have "length metas = length d"
    using m unfolding get_meta_image_def by (rule map_exn_length)
  ultimately show ?thesis by blast
qed

lemma new_adapter_data: "data (new_adapter E d l2i metas out fld sh fs fr shm) = d"
  by (simp add: new_adapter_def)

lemma init_fresh:
  assumes "json_init E f fld out sh fs fr shm = Inr s \<and> v = JsonVideo
         \<or> csv_init E f fld out sh fs shm = Inr s \<and> v = CsvJpeg
         \<or> imagelist_init E f out fld sh fs = Inr s \<and> v = ImageList
         \<or> imagefolder_init E fld out exts sh fs = Inr s \<and> v = ImageFolder"
  shows "well_formed s \<and> length (all_meta s) = len s"
proof -
  have "\<exists>d l2i metas out' fld' fs' fr' shm'. length metas = length d
          \<and> s = new_adapter E d l2i metas out' fld' sh fs' fr' shm'"
    using assms json_init_shape [of E f fld out sh fs fr shm s]
      csv_init_shape [of E f fld out sh fs shm s] imagelist_init_shape [of E f out fld sh fs s]
      imagefolder_init_shape [of E fld out exts sh fs s]
    by blast
  then obtain d l2i metas out' fld' fs' fr' shm' where
    l: "length metas = length d" and s: "s = new_adapter E d l2i metas out' fld' sh fs' fr' shm'"
    by blast
  show ?thesis
    using new_adapter_fresh [OF l, of E l2i out' fld' sh fs' fr' shm'] s
    by (simp add: len_def new_adapter_data)
qed

lemma init_data:
  "json_init E f fld out sh fs fr shm = Inr s \<Longrightarrow>
     (if endswith f ''.json.gz'' then read_gz_json E f else read_json E f) = Inr (data s)"
  "csv_init E f fld out sh fs shm = Inr s \<Longrightarrow> read_csv E f = Inr (data s)"
  "imagelist_init E f out fld sh fs = Inr s \<Longrightarrow> parse_paths E f = Inr (data s)"
  "imagefolder_init E fld out exts sh fs = Inr s \<Longrightarrow> parse_folder E exts fld = Inr (data s)"
  by (auto simp: json_init_def csv_init_def imagelist_init_def imagefolder_init_def new_adapter_def
           split: sum.splits if_splits)

lemma init_labels:
  "json_init E f fld out sh fs fr shm = Inr s \<Longrightarrow>
     create_label2idx_dict ''template'' (data s) = Inr (labels2idx s)"
  "csv_init E f fld out sh fs shm = Inr s \<Longrightarrow>
     create_label2idx_dict ''label'' (data s) = Inr (labels2idx s)"
  "imagelist_init E f out fld sh fs = Inr s \<Longrightarrow>
     create_label2idx_dict_image (data s) = Inr (labels2idx s)"
  "imagefolder_init E fld out exts sh fs = Inr s \<Longrightarrow>
     create_label2idx_dict_image (data s) = Inr (labels2idx s)"
  by (auto simp: json_init_def csv_init_def imagelist_init_def imagefolder_init_def new_adapter_def
           split: sum.splits if_splits)

subsection \<open>What the classes other than ImageListAdapter keep, and the invariant\<close>

lemma resume_other:
  assumes "v \<noteq> ImageList" "resume E v s w = (out, s', g')"
  shows "all_meta s' = all_meta s \<and> heap s' = heap s \<and> stdout s' = stdout s"
  using assms(2)
proof (induction w arbitrary: s)
  case Nil
  then show ?case by (auto simp: write_cases split: option.splits)
next
  case (Cons a rest)
  obtain s1 st where b: "body E v s a = (s1, st)"
    by (cases "body E v s a")
  have s1: "s1 = s"
    using body_same_state [OF assms(1), of E s a] b by simp
  show ?case
    using Cons.prems Cons.IH [of s] b s1 by (cases st) auto
qed

lemma gen_next_other:
  assumes "v \<noteq> ImageList" "gen_next E v (s, g) = (out, s', g')"
  shows "all_meta s' = all_meta s \<and> heap s' = heap s \<and> stdout s' = stdout s"
proof (cases g)
  case (Created sl)
  show ?thesis
  proof (cases "getslice (all_meta s) (default_slice s sl)")
    case (Inl e)
    then show ?thesis
      using assms Created by (simp add: gen_next_def enter_def)
  next
    case (Inr w)
    then have "resume E v s w = (out, s', g')"
      using assms Created by (simp add: gen_next_def enter_def)
    from resume_other [OF assms(1) this] show ?thesis .
  qed
next
  case (Suspended w)
  then have "resume E v s w = (out, s', g')"
    using assms by (simp add: gen_next_def)
  from resume_other [OF assms(1) this] show ?thesis .
next
  case Finished
  then show ?thesis using assms by (simp add: gen_next_def)
qed

lemma consume_other:
  assumes "v \<noteq> ImageList" "consume E v n (s, g) = (rs, fin, s', g')"
  shows "all_meta s' = all_meta s \<and> heap s' = heap s \<and> stdout s' = stdout s"
  using assms(2)
proof (induction n arbitrary: s g rs)
  case 0
  then show ?case by simp
next
  case (Suc n)
  obtain out s1 g1 where gn: "gen_next E v (s, g) = (out, s1, g1)"
    by (cases "gen_next E v (s, g)")
  note f = gen_next_other [OF assms(1) gn]
  show ?case
  proof (cases out)
    case (Yield r)
    obtain rs1 where c: "consume E v n (s1, g1) = (rs1, fin, s', g')"
      using Suc.prems gn Yield by (auto split: prod.splits)
    show ?thesis
      using Suc.IH [OF c] f by simp
  next
    case StopIteration
    then show ?thesis using Suc.prems gn f by auto
  next
    case (Raise e)
    then show ?thesis using Suc.prems gn f by auto
  qed
qed

lemma slice_indices_length:
  assumes "slice_indices sl n = Inr idxs"
  shows "length idxs \<le> n"
proof -
  have "set idxs \<subseteq> {..<n}"
    using slice_indices_in_range [OF assms] by auto
  then have "card (set idxs) \<le> card {..<n}"
    by (intro card_mono) auto
  then show ?thesis
    using slice_indices_distinct [OF assms] by (simp add: distinct_card)
qed

lemma getslice_length:
  assumes "getslice xs sl = Inr w"
  shows "length w \<le> length xs"
  using assms slice_indices_length [of sl "length xs"]
  by (auto simp: getslice_def split: sum.splits)

lemma getslice_whole:
  assumes "int (length xs) \<le> m"
  shows "getslice xs (Slice (Some 0) (Some m) None) = Inr xs"
proof -
  have "slice_indices (Slice (Some 0) (Some m) None) (length xs)
      = slice_indices (Slice (Some 0) (Some (int (length xs))) None) (length xs)"
    using assms by (simp add: slice_indices_def adjust_index_def Let_def)
  then show ?thesis
    using getslice_full [of xs] by (simp add: getslice_def)
qed

lemma well_formed_cong:
  assumes "well_formed s" "all_meta s' = all_meta s" "same_config s s'"
  shows "well_formed s'"
  using assms by (simp add: well_formed_def same_config_def)

lemma well_formed_enter:
  assumes "well_formed s" "enter v s sl = Inr (s0, w)"
  shows "well_formed s0 \<and> distinct w \<and> (\<forall>x \<in> set w. x < length (heap s))"
proof -
  note f = enter_frame [OF assms(2)]
  have gs: "getslice (all_meta s) (default_slice s sl) = Inr w"
    using f by simp
  have d: "distinct w"
    using getslice_distinct [OF gs] assms(1) by (simp add: well_formed_def)
  have sub: "set w \<subseteq> set (all_meta s)"
    by (rule getslice_subset [OF gs])
  have v: "\<forall>x \<in> set w. x < length (heap s)"
    using sub assms(1) by (auto simp: well_formed_def list_all_iff)
  have l: "length w \<le> length (data s)"
    using getslice_length [OF gs] assms(1) by (simp add: well_formed_def)
  have "well_formed s0"
  proof (cases "v = ImageList")
    case True
    then have "all_meta s0 = w" using f by simp
    then show ?thesis
      using d v l f by (simp add: well_formed_def same_config_def list_all_iff)
  next
    case False
    then have "all_meta s0 = all_meta s" using f by simp
    then show ?thesis
      using well_formed_cong [OF assms(1)] f by simp
  qed
  then show ?thesis using d v by simp
qed

lemma well_formed_next:
  assumes "well_formed s" "gen_next E v (s, g) = (out, s', g')"
  shows "well_formed s'"
proof (cases g)
  case (Created sl)
  show ?thesis
  proof (cases "enter v s sl")
    case (Inl e)
    then show ?thesis
      using assms Created by (simp add: gen_next_def)
  next
    case (Inr p)
    obtain s0 w where p: "p = (s0, w)" by (cases p)
    have r: "resume E v s0 w = (out, s', g')"
      using assms Created Inr p by (simp add: gen_next_def)
    have w0: "well_formed s0"
      using well_formed_enter [OF assms(1)] Inr p by blast
    have f: "all_meta s' = all_meta s0" "same_config s0 s'"
      using resume_frame [OF r] by simp_all
    show ?thesis
      by (rule well_formed_cong [OF w0 f])
  qed
next
  case (Suspended w)
  then have r: "resume E v s w = (out, s', g')"
    using assms by (simp add: gen_next_def)
  have f: "all_meta s' = all_meta s" "same_config s s'"
    using resume_frame [OF r] by simp_all
  show ?thesis
    by (rule well_formed_cong [OF assms(1) f])
next
  case Finished
  then show ?thesis using assms by (simp add: gen_next_def)
qed

subsection \<open>ImageListAdapter after an iteration\<close>

lemma skipped_continue: "skipped E v s x \<longleftrightarrow> snd (body E v s x) = Continue"
  by (simp add: skipped_def split: step.splits)

lemma second_run_fails:
  assumes "\<forall>x \<in> set w. m_path (heap s ! x) = None \<or> skipped E ImageList s x"
    and "\<exists>x \<in> set w. m_path (heap s ! x) = None"
  shows "\<exists>s2. resume E ImageList s w = (Raise (KeyError ''path''), s2, Finished)
           \<and> heap s2 = heap s \<and> written s2 = written s \<and> all_meta s2 = all_meta s"
  using assms
proof (induction w arbitrary: s)
  case Nil
  then show ?case by simp
next
  case (Cons a rest)
  show ?case
  proof (cases "m_path (heap s ! a)")
    case None
    then show ?thesis
      by (simp add: imagelist_body_keyerror)
  next
    case (Some p)
    then have sk: "skipped E ImageList s a"
      using Cons.prems(1) by auto
    obtain s1 st where b: "body E ImageList s a = (s1, st)"
      by (cases "body E ImageList s a")
    have st: "st = Continue"
      using sk b by (simp add: skipped_continue)
    have h: "heap s1 = heap s"
      using imagelist_body_continue [of E s a s1] b st by simp
    have sc: "same_config s s1" by (rule body_same_config [OF b])
    have am: "all_meta s1 = all_meta s" by (rule body_all_meta [OF b])
    have wr: "written s1 = written s" by (rule body_written [OF b])
    have sk1: "skipped E ImageList s1 x = skipped E ImageList s x" for x
      using emitted_cong(2) [of s1 x s E ImageList] h sc by simp
    have p1: "\<forall>x \<in> set rest. m_path (heap s1 ! x) = None \<or> skipped E ImageList s1 x"
      using Cons.prems(1) h sk1 by simp
    have p2: "\<exists>x \<in> set rest. m_path (heap s1 ! x) = None"
      using Cons.prems(2) Some h by auto
    from Cons.IH [OF p1 p2] obtain s2 where
      "resume E ImageList s1 rest = (Raise (KeyError ''path''), s2, Finished)"
      "heap s2 = heap s1" "written s2 = written s1" "all_meta s2 = all_meta s1"
      by blast
    then show ?thesis
      using b st h am wr by simp
  qed
qed

lemma first_run_state:
  assumes wf: "well_formed s"
    and first: "consume E ImageList n (s, iter_data sl) = (rs, Some Drained, s1, g1)"
  shows "set (map r_meta rs) \<subseteq> set (all_meta s1)
       \<and> (\<forall>x \<in> set (all_meta s1).
             x \<in> set (map r_meta rs) \<and> m_path (heap s1 ! x) = None
             \<or> x \<notin> set (map r_meta rs) \<and> skipped E ImageList s1 x)"
proof -
  obtain m where n: "n = Suc m"
    using first by (cases n) (auto simp: iter_data_def)
  obtain s0 w where en: "enter ImageList s sl = Inr (s0, w)"
    using first unfolding n iter_data_def consume_created
    by (cases "enter ImageList s sl") auto
  have gs: "getslice (all_meta s) (default_slice s sl) = Inr w"
    using enter_frame [OF en] by simp
  have dist: "distinct (all_meta s)"
    using wf by (simp add: well_formed_def)
  have valid: "\<forall>x \<in> set w. x < length (heap s)"
    using well_formed_enter [OF wf en] by simp
  note t = drained_from_created [OF dist gs first]
  have rs: "rs = concat (map (emitted E ImageList s) w)" and am: "all_meta s1 = w"
    using t by simp_all
  have sc: "same_config s s1"
    using consume_frame [OF first] by simp
  have sub: "set (map r_meta rs) \<subseteq> set w"
    using emitted_in_trace [of _ E ImageList s w] rs by auto
  have each: "x \<in> set (map r_meta rs) \<and> m_path (heap s1 ! x) = None
             \<or> x \<notin> set (map r_meta rs) \<and> skipped E ImageList s1 x" if xw: "x \<in> set w" for x
  proof -
    obtain s' st where b: "body E ImageList s x = (s', st)"
      by (cases "body E ImageList s x")
    have hx: "heap s1 ! x = heap s' ! x"
      using t xw b by simp
    show ?thesis
    proof (cases st)
      case Continue
      then have "heap s' = heap s"
        using imagelist_body_continue [of E s x s'] b by simp
      then have "heap s1 ! x = heap s ! x"
        using hx by simp
      from emitted_cong(2) [OF this sc, of E ImageList]
      have sk: "skipped E ImageList s1 x"
        using b Continue by (simp add: skipped_continue)
      have "x \<notin> set (map r_meta rs)"
      proof
        assume "x \<in> set (map r_meta rs)"
        then obtain r where r: "r \<in> set rs" and x: "x = r_meta r"
          by auto
        from emitted_in_trace [of r E ImageList s w] r rs
        obtain s2 where "body E ImageList s (r_meta r) = (s2, Emit r)"
          by auto
        then show False
          using b Continue x by simp
      qed
      then show ?thesis using sk by simp
    next
      case (Emit r)
      have "m_path (heap s' ! x) = None"
        using imagelist_body_emit [of E s x s' r] b Emit valid xw by simp
      then have p: "m_path (heap s1 ! x) = None"
        using hx by simp
      have "r \<in> set (emitted E ImageList s x)"
        using b Emit by (simp add: emitted_def)
      then have "r \<in> set rs"
        using rs xw by auto
      moreover have "r_meta r = x"
        using body_emit_meta [of E ImageList s x s' r] b Emit by simp
      ultimately have "x \<in> set (map r_meta rs)"
        by force
      then show ?thesis using p by simp
    next
      case (Abort e)
      then show ?thesis
        using t xw b by auto
    qed
  qed
  show ?thesis
    using sub each am by auto
qed

lemma well_formed_consume:
  assumes "well_formed s" "consume E v n (s, g) = (rs, fin, s', g')"
  shows "well_formed s'"
  using assms
proof (induction n arbitrary: s g rs)
  case 0
  then show ?case by simp
next
  case (Suc n)
  obtain out s1 g1 where gn: "gen_next E v (s, g) = (out, s1, g1)"
    by (cases "gen_next E v (s, g)")
  note w1 = well_formed_next [OF Suc.prems(1) gn]
  show ?case
  proof (cases out)
    case (Yield r)
    obtain rs1 where c: "consume E v n (s1, g1) = (rs1, fin, s', g')"
      using Suc.prems(2) gn Yield by (auto split: prod.splits)
    show ?thesis by (rule Suc.IH [OF w1 c])
  next
    case StopIteration
    then show ?thesis using Suc.prems(2) gn w1 by auto
  next
    case (Raise e)
    then show ?thesis using Suc.prems(2) gn w1 by auto
  qed
qed

lemma second_call_fails:
  assumes cond: "\<forall>x \<in> set (all_meta s1). m_path (heap s1 ! x) = None \<or> skipped E ImageList s1 x"
    and gs: "getslice (all_meta s1) (default_slice s1 sl2) = Inr w2"
    and some: "\<exists>x \<in> set w2. m_path (heap s1 ! x) = None"
  shows "\<exists>s2. consume E ImageList (Suc m) (s1, iter_data sl2)
                = ([], Some (Failed (KeyError ''path'')), s2, Finished)
           \<and> heap s2 = heap s1 \<and> written s2 = written s1"
proof -
  let ?s = "s1\<lparr>all_meta := w2\<rparr>"
  have en: "enter ImageList s1 sl2 = Inr (?s, w2)"
    using gs by (simp add: enter_def)
  have sub: "set w2 \<subseteq> set (all_meta s1)"
    by (rule getslice_subset [OF gs])
  have h: "heap ?s ! x = heap s1 ! x" "same_config s1 ?s" for x
    by (simp_all add: same_config_def)
  have sk: "skipped E ImageList ?s x = skipped E ImageList s1 x" for x
    using emitted_cong(2) [OF h(1) [of x] h(2), where E = E and v = ImageList] .
  have p1: "\<forall>x \<in> set w2. m_path (heap ?s ! x) = None \<or> skipped E ImageList ?s x"
    using cond sub sk by auto
  have p2: "\<exists>x \<in> set w2. m_path (heap ?s ! x) = None"
    using some by simp
  from second_run_fails [OF p1 p2] obtain s2 where
    r: "resume E ImageList ?s w2 = (Raise (KeyError ''path''), s2, Finished)"
    and k: "heap s2 = heap ?s" "written s2 = written ?s"
    by blast
  have "gen_next E ImageList (s1, iter_data sl2) = (Raise (KeyError ''path''), s2, Finished)"
    using en r by (simp add: gen_next_def iter_data_def)
  then have "consume E ImageList (Suc m) (s1, iter_data sl2)
                = ([], Some (Failed (KeyError ''path'')), s2, Finished)"
    by simp
  then show ?thesis
    using k by auto
qed

lemma yielded_popped:
  assumes "distinct w" "\<forall>x \<in> set w. x < length (heap s)"
    and "consume E ImageList n (s, Suspended w) = (rs, fin, s', g')"
  shows "(\<forall>r \<in> set rs. r_meta r \<in> set w
            \<and> heap s' ! r_meta r = (heap s ! r_meta r)\<lparr>m_path := None\<rparr>)
       \<and> (\<forall>x. x \<notin> set w \<longrightarrow> heap s' ! x = heap s ! x)
       \<and> all_meta s' = all_meta s"
  using assms
proof (induction w arbitrary: s n rs)
  case Nil
  show ?case
  proof (cases n)
    case 0
    then show ?thesis using Nil.prems(3) by simp
  next
    case (Suc m)
    then show ?thesis
      using Nil.prems(3) unfolding Suc consume_suspended_nil by (auto split: option.splits)
  qed
next
  case (Cons a rest)
  show ?case
  proof (cases n)
    case 0
    then show ?thesis using Cons.prems(3) by simp
  next
    case (Suc m)
    obtain s1 st where b: "body E ImageList s a = (s1, st)"
      by (cases "body E ImageList s a")
    have na: "a \<notin> set rest" and dr: "distinct rest"
      using Cons.prems(1) by auto
    have al: "a < length (heap s)"
      using Cons.prems(2) by simp
    have len1: "length (heap s1) = length (heap s)"
      using body_attrs [OF b] by simp
    have am1: "all_meta s1 = all_meta s"
      by (rule body_all_meta [OF b])
    have elsewhere: "heap s1 ! x = heap s ! x" if "x \<noteq> a" for x
      using body_heap_elsewhere [OF that, of E ImageList s] b by simp
    have valid1: "\<forall>x \<in> set rest. x < length (heap s1)"
      using Cons.prems(2) len1 by simp
    show ?thesis
    proof (cases st)
      case Continue
      have c: "consume E ImageList (Suc m) (s1, Suspended rest) = (rs, fin, s', g')"
        using Cons.prems(3) consume_suspended_continue [of E ImageList s a s1 m rest] b Continue Suc
        by simp
      note ih = Cons.IH [OF dr valid1 c]
      have h: "heap s1 = heap s"
        using imagelist_body_continue [of E s a s1] b Continue by simp
      show ?thesis
        using ih h am1 by auto
    next
      case (Emit r)
      obtain rs1 where c: "consume E ImageList m (s1, Suspended rest) = (rs1, fin, s', g')"
        and rs: "rs = r # rs1"
        using Cons.prems(3) consume_suspended_emit [of E ImageList s a s1 r m rest] b Emit Suc
        by (auto split: prod.splits)
      note ih = Cons.IH [OF dr valid1 c]
      have ra: "r_meta r = a"
        using body_emit_meta [of E ImageList s a s1 r] b Emit by simp
      have ha: "heap s1 ! a = (heap s ! a)\<lparr>m_path := None\<rparr>"
        using body_emit_heap [of E ImageList s a s1 r] b Emit al by simp
      have first: "heap s' ! a = (heap s ! a)\<lparr>m_path := None\<rparr>"
        using ih na ha by simp
      have others: "r_meta r' \<in> set rest
            \<and> heap s' ! r_meta r' = (heap s ! r_meta r')\<lparr>m_path := None\<rparr>"
        if "r' \<in> set rs1" for r'
      proof -
        have i: "r_meta r' \<in> set rest"
          and j: "heap s' ! r_meta r' = (heap s1 ! r_meta r')\<lparr>m_path := None\<rparr>"
          using ih that by auto
        have "r_meta r' \<noteq> a" using i na by auto
        then show ?thesis using i j elsewhere by simp
      qed
      have out: "heap s' ! x = heap s ! x" if "x \<notin> set (a # rest)" for x
      proof -
        have "x \<noteq> a" "x \<notin> set rest" using that by auto
        then show ?thesis using ih elsewhere by simp
      qed
      show ?thesis
        using rs ra first others out ih am1 by auto
    next
      case (Abort e)
      have "rs = []" "s' = s1"
        using Cons.prems(3) consume_suspended_abort [of E ImageList s a s1 e m rest] b Abort Suc
        by simp_all
      then show ?thesis
        using elsewhere am1 by auto
    qed
  qed
qed

lemma yielded_popped_created:
  assumes wf: "well_formed s"
    and first: "consume E ImageList n (s, iter_data sl) = (rs, fin, s1, g1)"
  shows "\<forall>r \<in> set rs. r_meta r \<in> set (all_meta s1)
            \<and> heap s1 ! r_meta r = (heap s ! r_meta r)\<lparr>m_path := None\<rparr>"
proof (cases n)
  case 0
  then show ?thesis using first by simp
next
  case (Suc m)
  show ?thesis
  proof (cases "enter ImageList s sl")
    case (Inl e)
    then show ?thesis
      using first unfolding Suc iter_data_def consume_created by simp
  next
    case (Inr p)
    obtain s0 w where p: "p = (s0, w)" by (cases p)
    have en: "enter ImageList s sl = Inr (s0, w)"
      using Inr p by simp
    have c: "consume E ImageList (Suc m) (s0, Suspended w) = (rs, fin, s1, g1)"
      using first en unfolding Suc iter_data_def consume_created by simp
    note f = enter_frame [OF en]
    have h: "heap s0 = heap s" and am: "all_meta s0 = w"
      using f by simp_all
    have dw: "distinct w" and valid: "\<forall>x \<in> set w. x < length (heap s0)"
      using well_formed_enter [OF wf en] h by simp_all
    from yielded_popped [OF dw valid c] show ?thesis
      using h am by simp
  qed
qed

lemma second_run_skips:
  assumes "\<forall>x \<in> set w. skipped E ImageList s x"
  shows "\<exists>s2. heap s2 = heap s \<and> written s2 = written s \<and> all_meta s2 = all_meta s
           \<and> same_config s s2
           \<and> resume E ImageList s w
               = (case persist E s of
                    None \<Rightarrow>
                      (StopIteration, s2\<lparr>written := written s @ [label2idx_dump s]\<rparr>, Finished)
                  | Some e \<Rightarrow> (Raise e, s2, Finished))"
  using assms
proof (induction w arbitrary: s)
  case Nil
  have "resume E ImageList s []
      = (case persist E s of
           None \<Rightarrow> (StopIteration, s\<lparr>written := written s @ [label2idx_dump s]\<rparr>, Finished)
         | Some e \<Rightarrow> (Raise e, s, Finished))"
    by (simp add: write_cases split: option.splits)
  then show ?case
    using same_config_refl by blast
next
  case (Cons a rest)
  obtain s1 st where b: "body E ImageList s a = (s1, st)"
    by (cases "body E ImageList s a")
  have st: "st = Continue"
    using Cons.prems b by (simp add: skipped_continue)
  have h: "heap s1 = heap s"
    using imagelist_body_continue [of E s a s1] b st by simp
  have sc: "same_config s s1" by (rule body_same_config [OF b])
  have am: "all_meta s1 = all_meta s" by (rule body_all_meta [OF b])
  have wr: "written s1 = written s" by (rule body_written [OF b])
  have sk1: "skipped E ImageList s1 x = skipped E ImageList s x" for x
    using emitted_cong(2) [of s1 x s E ImageList] h sc by simp
  have p1: "\<forall>x \<in> set rest. skipped E ImageList s1 x"
    using Cons.prems sk1 by simp
  from Cons.IH [OF p1] obtain s2 where
    k: "heap s2 = heap s1" "written s2 = written s1" "all_meta s2 = all_meta s1" "same_config s1 s2"
    and r: "resume E ImageList s1 rest
               = (case persist E s1 of
                    None \<Rightarrow>
                      (StopIteration, s2\<lparr>written := written s1 @ [label2idx_dump s1]\<rparr>, Finished)
                  | Some e \<Rightarrow> (Raise e, s2, Finished))"
    by blast
  have "resume E ImageList s (a # rest)
               = (case persist E s of
                    None \<Rightarrow>
                      (StopIteration, s2\<lparr>written := written s @ [label2idx_dump s]\<rparr>, Finished)
                  | Some e \<Rightarrow> (Raise e, s2, Finished))"
    using b st r persist_cong [OF sc, of E] same_config_dump [OF sc] wr
    by (simp split: option.splits)
  then show ?case
    using k h wr am same_config_trans [OF sc k(4)] by auto
qed

lemma second_call_skips:
  assumes cond: "\<forall>x \<in> set w2. skipped E ImageList s1 x"
    and gs: "getslice (all_meta s1) (default_slice s1 sl2) = Inr w2"
    and ok: "persist E s1 = None"
  shows "\<exists>s2. consume E ImageList (Suc m) (s1, iter_data sl2) = ([], Some Drained, s2, Finished)
           \<and> heap s2 = heap s1 \<and> written s2 = written s1 @ [label2idx_dump s1]"
proof -
  let ?s = "s1\<lparr>all_meta := w2\<rparr>"
  have en: "enter ImageList s1 sl2 = Inr (?s, w2)"
    using gs by (simp add: enter_def)
  have h: "heap ?s ! x = heap s1 ! x" "same_config s1 ?s" for x
    by (simp_all add: same_config_def)
  have sk: "skipped E ImageList ?s x = skipped E ImageList s1 x" for x
    using emitted_cong(2) [OF h(1) [of x] h(2), where E = E and v = ImageList] .
  have p1: "\<forall>x \<in> set w2. skipped E ImageList ?s x"
    using cond sk by simp
  have pk: "persist E ?s = None"
    using ok persist_cong [OF h(2), of E] by simp
  from second_run_skips [OF p1] obtain s2 where
    k: "heap s2 = heap ?s" "written s2 = written ?s"
    and r: "resume E ImageList ?s w2
          = (StopIteration, s2\<lparr>written := written ?s @ [label2idx_dump ?s]\<rparr>, Finished)"
    unfolding pk by auto
  have "gen_next E ImageList (s1, iter_data sl2)
          = (StopIteration, s2\<lparr>written := written ?s @ [label2idx_dump ?s]\<rparr>, Finished)"
    using en r by (simp add: gen_next_def iter_data_def)
  then have "consume E ImageList (Suc m) (s1, iter_data sl2)
          = ([], Some Drained, s2\<lparr>written := written ?s @ [label2idx_dump ?s]\<rparr>, Finished)"
    by simp
  then show ?thesis
    using k by (auto simp: label2idx_dump_def)
qed

subsection \<open>The label index is the reference index\<close>

text \<open>
  Claim C1. In every adapter the label index is the reference definition applied
  to the labels of all the parsed records: take the label field of every record,
  in order (\<open>map (\<lambda>item. the (map_of item label_name)) d\<close>); the index is the set of
  these labels, sorted, each label mapped to its rank from 0. This holds for the
  mixin's \<^verbatim>\<open>create_label2idx_dict\<close> (JSON and CSV adapters, any label field) and
  for the one of the two image adapters (field \<^verbatim>\<open>'label'\<close>); where a record lacks
  the label field both raise \<^verbatim>\<open>KeyError\<close>. The reference index has the distinct
  labels in ascending order as its keys and \<open>0..n-1\<close> as its values, for \<open>n\<close>
  distinct labels, and the index of a label is the number of distinct labels
  below it. Hence two record lists that are permutations of each other give the
  same index (or the same error). And the label index of a constructed adapter,
  of any of the four classes, is the reference index of the labels of all its
  records (the field \<^verbatim>\<open>'template'\<close> in the JSON adapter, \<^verbatim>\<open>'label'\<close> in the others),
  none of which lacks the field.
\<close>

theorem label_index_is_reference:
  "((\<forall>item \<in> set d. map_of item label_name \<noteq> None) \<longrightarrow>
      create_label2idx_dict label_name d
        = Inr (label_index_spec (map (\<lambda>item. the (map_of item label_name)) d)))
   \<and> ((\<forall>item \<in> set d. map_of item ''label'' \<noteq> None) \<longrightarrow>
      create_label2idx_dict_image d
        = Inr (label_index_spec (map (\<lambda>item. the (map_of item ''label'')) d)))
   \<and> ((\<exists>item \<in> set d. map_of item label_name = None) \<longrightarrow>
      create_label2idx_dict label_name d = Inl (KeyError label_name))
   \<and> ((\<exists>item \<in> set d. map_of item ''label'' = None) \<longrightarrow>
      create_label2idx_dict_image d = Inl (KeyError ''label''))
   \<and> map fst (label_index_spec ls) = sorted_list_of_set (set ls)
   \<and> map snd (label_index_spec ls) = map int [0..<card (set ls)]
   \<and> (l \<in> set ls \<longrightarrow> map_of (label_index_spec ls) l = Some (int (card {x \<in> set ls. x < l})))
   \<and> (mset d = mset d' \<longrightarrow>
        create_label2idx_dict label_name d = create_label2idx_dict label_name d'
        \<and> create_label2idx_dict_image d = create_label2idx_dict_image d')
   \<and> (json_init E f fld out sh fs fr shm = Inr s \<longrightarrow>
        (\<forall>item \<in> set (data s). map_of item ''template'' \<noteq> None)
        \<and> labels2idx s
            = label_index_spec (map (\<lambda>item. the (map_of item ''template'')) (data s)))
   \<and> (csv_init E f fld out sh fs shm = Inr s \<longrightarrow>
        (\<forall>item \<in> set (data s). map_of item ''label'' \<noteq> None)
        \<and> labels2idx s = label_index_spec (map (\<lambda>item. the (map_of item ''label'')) (data s)))
   \<and> (imagelist_init E f out fld sh fs = Inr s \<longrightarrow>
        (\<forall>item \<in> set (data s). map_of item ''label'' \<noteq> None)
        \<and> labels2idx s = label_index_spec (map (\<lambda>item. the (map_of item ''label'')) (data s)))
   \<and> (imagefolder_init E fld out exts sh fs = Inr s \<longrightarrow>
        (\<forall>item \<in> set (data s). map_of item ''label'' \<noteq> None)
        \<and> labels2idx s = label_index_spec (map (\<lambda>item. the (map_of item ''label'')) (data s)))"
proof -
  have present: "create_label2idx_dict label_name d
        = Inr (label_index_spec (map (\<lambda>item. the (map_of item label_name)) d))"
    if "\<forall>item \<in> set d. map_of item label_name \<noteq> None"
    using that by (simp add: create_label2idx_dict_total)
  have present_image: "create_label2idx_dict_image d
        = Inr (label_index_spec (map (\<lambda>item. the (map_of item ''label'')) d))"
    if "\<forall>item \<in> set d. map_of item ''label'' \<noteq> None"
    using that by (simp add: create_label2idx_dict_image_total)
  have missing: "create_label2idx_dict label_name d = Inl (KeyError label_name)"
    if "\<exists>item \<in> set d. map_of item label_name = None"
    using that by (auto simp: create_label2idx_dict_total)
  have missing_image: "create_label2idx_dict_image d = Inl (KeyError ''label'')"
    if "\<exists>item \<in> set d. map_of item ''label'' = None"
    using that by (auto simp: create_label2idx_dict_image_total)
  have rank: "map_of (label_index_spec ls) l = Some (int (card {x \<in> set ls. x < l}))"
    if "l \<in> set ls"
    using that by (rule label_index_spec_rank)
  have perm: "create_label2idx_dict label_name d = create_label2idx_dict label_name d'
        \<and> create_label2idx_dict_image d = create_label2idx_dict_image d'"
    if "mset d = mset d'"
    using create_label2idx_dict_perm [OF that] by simp
  have json: "(\<forall>item \<in> set (data s). map_of item ''template'' \<noteq> None)
        \<and> labels2idx s
            = label_index_spec (map (\<lambda>item. the (map_of item ''template'')) (data s))"
    if "json_init E f fld out sh fs fr shm = Inr s"
    by (rule label_index_of_records [OF init_labels(1) [OF that]])
  have csv: "(\<forall>item \<in> set (data s). map_of item ''label'' \<noteq> None)
        \<and> labels2idx s = label_index_spec (map (\<lambda>item. the (map_of item ''label'')) (data s))"
    if "csv_init E f fld out sh fs shm = Inr s"
    by (rule label_index_of_records [OF init_labels(2) [OF that]])
  have il: "(\<forall>item \<in> set (data s). map_of item ''label'' \<noteq> None)
        \<and> labels2idx s = label_index_spec (map (\<lambda>item. the (map_of item ''label'')) (data s))"
    if "imagelist_init E f out fld sh fs = Inr s"
    by (rule label_index_of_records_image [OF init_labels(3) [OF that]])
  have ifo: "(\<forall>item \<in> set (data s). map_of item ''label'' \<noteq> None)
        \<and> labels2idx s = label_index_spec (map (\<lambda>item. the (map_of item ''label'')) (data s))"
    if "imagefolder_init E fld out exts sh fs = Inr s"
    by (rule label_index_of_records_image [OF init_labels(4) [OF that]])
  show ?thesis
    using present present_image missing missing_image rank perm json csv il ifo
      label_index_spec_keys [of ls] label_index_spec_values [of ls]
    by blast
qed

theorem label_index_is_reference_witness:
  "list_all (\<lambda>item. map_of item ''label'' \<noteq> None)
      [[(''id'', ''1''), (''label'', ''dog'')], [(''id'', ''2''), (''label'', ''cat'')],
       [(''id'', ''3''), (''label'', ''dog'')]]
   \<and> create_label2idx_dict ''label''
         [[(''id'', ''1''), (''label'', ''dog'')], [(''id'', ''2''), (''label'', ''cat'')],
          [(''id'', ''3''), (''label'', ''dog'')]]
       = Inr (label_index_spec [''dog'', ''cat'', ''dog''])
   \<and> create_label2idx_dict_image
         [[(''id'', ''1''), (''label'', ''dog'')], [(''id'', ''2''), (''label'', ''cat'')],
          [(''id'', ''3''), (''label'', ''dog'')]]
       = Inr (label_index_spec [''dog'', ''cat'', ''dog''])
   \<and> label_index_spec [''dog'', ''cat'', ''dog''] = [(''cat'', 0), (''dog'', 1)]
   \<and> ''dog'' \<in> set [''dog'', ''cat'', ''dog'']
   \<and> map_of (label_index_spec [''dog'', ''cat'', ''dog'']) ''dog''
       = Some (int (card {x \<in> set [''dog'', ''cat'', ''dog'']. x < ''dog''}))
   \<and> (\<exists>item \<in> set [[(''id'', ''1''), (''label'', ''dog'')], [(''id'', ''2'')]].
         map_of item ''label'' = None)
   \<and> create_label2idx_dict ''label'' [[(''id'', ''1''), (''label'', ''dog'')], [(''id'', ''2'')]]
       = Inl (KeyError ''label'')
   \<and> create_label2idx_dict_image [[(''id'', ''1''), (''label'', ''dog'')], [(''id'', ''2'')]]
       = Inl (KeyError ''label'')
   \<and> mset [[(''id'', ''1''), (''label'', ''dog'')], [(''id'', ''2''), (''label'', ''cat'')],
            [(''id'', ''3''), (''label'', ''dog'')]]
       = mset [[(''id'', ''2''), (''label'', ''cat'')], [(''id'', ''3''), (''label'', ''dog'')],
               [(''id'', ''1''), (''label'', ''dog'')]]
   \<and> create_label2idx_dict ''label''
         [[(''id'', ''1''), (''label'', ''dog'')], [(''id'', ''2''), (''label'', ''cat'')],
          [(''id'', ''3''), (''label'', ''dog'')]]
       = create_label2idx_dict ''label''
           [[(''id'', ''2''), (''label'', ''cat'')], [(''id'', ''3''), (''label'', ''dog'')],
            [(''id'', ''1''), (''label'', ''dog'')]]
   \<and> csv_init example_env ''train.csv'' ''frames'' ''out'' False (- 1) ''/dev/shm'' = Inr example_csv
   \<and> labels2idx example_csv = label_index_spec [''cat'', ''dog'', ''cat'']
   \<and> imagelist_init example_env ''list.txt'' ''out'' ''root'' False (- 1) = Inr example_image_list
   \<and> labels2idx example_image_list = label_index_spec [''cat'', ''dog'', ''cat'']"
proof -
  let ?d = "[[(''id'', ''1''), (''label'', ''dog'')], [(''id'', ''2''), (''label'', ''cat'')],
             [(''id'', ''3''), (''label'', ''dog'')]]"
  let ?d' = "[[(''id'', ''2''), (''label'', ''cat'')], [(''id'', ''3''), (''label'', ''dog'')],
              [(''id'', ''1''), (''label'', ''dog'')]]"
  let ?m = "[[(''id'', ''1''), (''label'', ''dog'')], [(''id'', ''2'')]]"
  have all: "\<forall>item \<in> set ?d. map_of item ''label'' \<noteq> None"
    by simp
  have labels: "map (\<lambda>item. the (map_of item ''label'')) ?d = [''dog'', ''cat'', ''dog'']"
    by simp
  have some: "\<exists>item \<in> set ?m. map_of item ''label'' = None"
    by simp
  have perm: "mset ?d = mset ?d'"
    by simp
  have index: "label_index_spec [''dog'', ''cat'', ''dog''] = [(''cat'', 0), (''dog'', 1)]"
    by code_simp
  have dog: "''dog'' \<in> set [''dog'', ''cat'', ''dog'']"
    by simp
  note th = label_index_is_reference
    [where d = ?d and d' = ?d' and label_name = "''label''" and l = "''dog''"
       and ls = "[''dog'', ''cat'', ''dog'']"]
  have "create_label2idx_dict ''label'' ?d
      = Inr (label_index_spec (map (\<lambda>item. the (map_of item ''label'')) ?d))"
    and "create_label2idx_dict_image ?d
      = Inr (label_index_spec (map (\<lambda>item. the (map_of item ''label'')) ?d))"
    using th all by blast+
  then have c1: "create_label2idx_dict ''label'' ?d = Inr (label_index_spec [''dog'', ''cat'', ''dog''])"
    and c2: "create_label2idx_dict_image ?d = Inr (label_index_spec [''dog'', ''cat'', ''dog''])"
    unfolding labels by simp_all
  have r: "map_of (label_index_spec [''dog'', ''cat'', ''dog'']) ''dog''
       = Some (int (card {x \<in> set [''dog'', ''cat'', ''dog'']. x < ''dog''}))"
    using th dog by blast
  have p: "create_label2idx_dict ''label'' ?d = create_label2idx_dict ''label'' ?d'"
    using th perm by blast
  note th2 = label_index_is_reference [where d = ?m and label_name = "''label''"]
  have k1: "create_label2idx_dict ''label'' ?m = Inl (KeyError ''label'')"
    and k2: "create_label2idx_dict_image ?m = Inl (KeyError ''label'')"
    using th2 some by blast+
  have dc: "map (\<lambda>item. the (map_of item ''label'')) (data example_csv) = [''cat'', ''dog'', ''cat'']"
    by (simp add: example_csv_def)
  have "labels2idx example_csv
      = label_index_spec (map (\<lambda>item. the (map_of item ''label'')) (data example_csv))"
    using label_index_is_reference
      [where E = example_env and f = "''train.csv''" and fld = "''frames''" and out = "''out''"
         and sh = False and fs = "- 1" and shm = "''/dev/shm''" and s = example_csv]
      example_csv_init
    by blast
  then have i1: "labels2idx example_csv = label_index_spec [''cat'', ''dog'', ''cat'']"
    unfolding dc .
  have dl: "map (\<lambda>item. the (map_of item ''label'')) (data example_image_list)
      = [''cat'', ''dog'', ''cat'']"
    by (simp add: example_image_list_def)
  have "labels2idx example_image_list
      = label_index_spec (map (\<lambda>item. the (map_of item ''label'')) (data example_image_list))"
    using label_index_is_reference
      [where E = example_env and f = "''list.txt''" and fld = "''root''" and out = "''out''"
         and sh = False and fs = "- 1" and s = example_image_list]
      example_image_list_init
    by blast
  then have i2: "labels2idx example_image_list = label_index_spec [''cat'', ''dog'', ''cat'']"
    unfolding dl .
  have all': "list_all (\<lambda>item. map_of item ''label'' \<noteq> None) ?d"
    by simp
  show ?thesis
    using all' c1 c2 index dog r some k1 k2 perm p example_csv_init i1 example_image_list_init i2
    by simp
qed

subsection \<open>Parsing an image folder\<close>

text \<open>
  Whatever the list of extensions, only the files matching its last element are
  kept: \<^verbatim>\<open>img_paths.extend(paths)\<close> runs once, after the loop over the extensions.
\<close>

lemma extension_loop_last:
  "exts \<noteq> [] \<Longrightarrow> extension_loop E fld exts paths = Some (glob_recursive E (fld @ ''**/*'' @ last exts))"
  by (induction exts arbitrary: paths) (auto simp: Let_def)

lemma parse_folder_last:
  "exts \<noteq> [] \<Longrightarrow> parse_folder E exts fld = Inr (map folder_entry (sort (glob_recursive E (fld @ ''**/*'' @ last exts))))"
  by (simp add: parse_folder_def extension_loop_last)

text \<open>
  Claim C2 (every file matching any configured extension gives a record) fails on
  the code. In the example folder \<^verbatim>\<open>/d/\<close>, which holds \<^verbatim>\<open>a/x.jpg\<close> and
  \<^verbatim>\<open>b/y.png\<close>, the default extensions \<^verbatim>\<open>['.jpg', '.png']\<close> give the record of
  \<^verbatim>\<open>y.png\<close> only, although the search for \<^verbatim>\<open>.jpg\<close> finds \<^verbatim>\<open>x.jpg\<close>.
\<close>

theorem parse_folder_last_extension_only:
  "parse_folder example_env default_file_extensions ''/d/''
     = Inr [[(''id'', ''y.png''), (''label'', ''b''), (''path'', ''/d/b'')]]
   \<and> glob_recursive example_env ''/d/**/*.jpg'' = [''/d/a/x.jpg'']"
  by (simp add: parse_folder_def default_file_extensions_def example_env_def folder_entry_def
        dirname_def basename_def Let_def)

subsection \<open>What an iteration does to all_meta\<close>

text \<open>
  Claim C3 (an iteration leaves \<^verbatim>\<open>all_meta\<close> as it was, so that a second one gives
  the same records in the same order) holds for the two 20BN adapters and for
  \<^verbatim>\<open>ImageFolderAdapter\<close> (lemma \<open>consume_other\<close>) and fails for
  \<^verbatim>\<open>ImageListAdapter\<close>. In the example, draining \<^verbatim>\<open>iter_data(slice(0, 1))\<close> leaves
  one meta dictionary of three in \<^verbatim>\<open>all_meta\<close>, without its \<^verbatim>\<open>'path'\<close>; and after
  draining \<^verbatim>\<open>iter_data()\<close>, which yields \<^verbatim>\<open>x.jpg\<close> and \<^verbatim>\<open>z.jpg\<close>, a second
  \<^verbatim>\<open>iter_data()\<close> yields nothing and raises \<^verbatim>\<open>KeyError('path')\<close>.
\<close>

theorem image_list_iteration_changes_all_meta:
  "imagelist_init example_env ''list.txt'' ''out'' ''root'' False (- 1) = Inr example_image_list
   \<and> metas_of example_image_list
       = [\<lparr>m_id = ''x.jpg'', m_label = ''cat'', m_idx = 0, m_path = Some ''a/x.jpg''\<rparr>,
          \<lparr>m_id = ''y.jpg'', m_label = ''dog'', m_idx = 1, m_path = Some ''b/y.jpg''\<rparr>,
          \<lparr>m_id = ''z.jpg'', m_label = ''cat'', m_idx = 0, m_path = Some ''c/z.jpg''\<rparr>]
   \<and> fst (snd (consume example_env ImageList 2
         (example_image_list, iter_data (Some (Slice (Some 0) (Some 1) None))))) = Some Drained
   \<and> metas_of (fst (snd (snd (consume example_env ImageList 2
         (example_image_list, iter_data (Some (Slice (Some 0) (Some 1) None)))))))
       = [\<lparr>m_id = ''x.jpg'', m_label = ''cat'', m_idx = 0, m_path = None\<rparr>]
   \<and> map r_id (fst (consume example_env ImageList 3 (example_image_list, iter_data None)))
       = [''x.jpg'', ''z.jpg'']
   \<and> fst (snd (snd (consume example_env ImageList 3 (example_image_list, iter_data None))))
       = example_image_list_after
   \<and> consume example_env ImageList 3 (example_image_list_after, iter_data None)
       = ([], Some (Failed (KeyError ''path'')), example_image_list_after, Finished)"
proof -
  have a: "metas_of example_image_list
       = [\<lparr>m_id = ''x.jpg'', m_label = ''cat'', m_idx = 0, m_path = Some ''a/x.jpg''\<rparr>,
          \<lparr>m_id = ''y.jpg'', m_label = ''dog'', m_idx = 1, m_path = Some ''b/y.jpg''\<rparr>,
          \<lparr>m_id = ''z.jpg'', m_label = ''cat'', m_idx = 0, m_path = Some ''c/z.jpg''\<rparr>]"
    by code_simp
  have b: "fst (snd (consume example_env ImageList 2
         (example_image_list, iter_data (Some (Slice (Some 0) (Some 1) None))))) = Some Drained"
    by code_simp
  have c: "metas_of (fst (snd (snd (consume example_env ImageList 2
         (example_image_list, iter_data (Some (Slice (Some 0) (Some 1) None)))))))
       = [\<lparr>m_id = ''x.jpg'', m_label = ''cat'', m_idx = 0, m_path = None\<rparr>]"
    by code_simp
  have d: "consume example_env ImageList 3 (example_image_list_after, iter_data None)
       = ([], Some (Failed (KeyError ''path'')), example_image_list_after, Finished)"
    by code_simp
  show ?thesis
    using example_image_list_init example_image_list_run a b c d by (simp del: consume.simps)
qed

subsection \<open>Writing label2idx.json\<close>

text \<open>
  Claim C4. For a consumer of \<^verbatim>\<open>iter_data(sl)\<close> of any adapter that calls \<^verbatim>\<open>next\<close>
  up to \<open>n\<close> times: if it saw the generator run out, \<^verbatim>\<open>label2idx.json\<close> in the
  output folder was written exactly once, with the label index of the adapter (the
  call \<^verbatim>\<open>json.dump(self.labels2idx, open(..., 'w'))\<close> returned), and calling \<^verbatim>\<open>next\<close>
  again writes nothing more; if it stopped before, or an exception ended the
  iteration, nothing was written. A generator over an empty window writes at the
  first call; when the file cannot be written, the exception of the write comes
  out of that call instead of the end of the sequence. When the frames of every
  record of the window can be acquired (or the record is tolerated as missing),
  one call of \<^verbatim>\<open>next\<close> more than there are records in the window reaches the end:
  the consumer has received the expected results, and it sees the generator run
  out if the file is written and the exception of the write otherwise. A consumer
  that keeps calling always reaches the end of the generator.
\<close>

theorem label2idx_written_on_exhaustion:
  "(consume E v n (s, iter_data sl) = (rs, fin, s', g') \<longrightarrow>
      (fin = Some Drained \<longrightarrow>
         written s' = written s @ [(path_join (output_folder s) ''label2idx.json'', labels2idx s)]
         \<and> labels2idx s' = labels2idx s
         \<and> dump_json_file E (path_join (output_folder s) ''label2idx.json'') (labels2idx s) = None
         \<and> gen_next E v (s', g') = (StopIteration, s', g'))
      \<and> (fin \<noteq> Some Drained \<longrightarrow> written s' = written s))
   \<and> (enter v s sl = Inr (s0, []) \<longrightarrow>
        consume E v (Suc n) (s, iter_data sl)
          = (case dump_json_file E (path_join (output_folder s) ''label2idx.json'') (labels2idx s) of
               None \<Rightarrow>
                 ([], Some Drained,
                  s0\<lparr>written := written s
                        @ [(path_join (output_folder s) ''label2idx.json'', labels2idx s)]\<rparr>,
                  Finished)
             | Some e \<Rightarrow> ([], Some (Failed e), s0, Finished)))
   \<and> (distinct (all_meta s) \<and> getslice (all_meta s) (default_slice s sl) = Inr w
        \<and> list_all (acquirable E v s) w \<longrightarrow>
        (\<exists>s1. consume E v (Suc (length w)) (s, iter_data sl)
                = (concat (map (expected E v s) w),
                   (case dump_json_file E (path_join (output_folder s) ''label2idx.json'')
                           (labels2idx s) of
                      None \<Rightarrow> Some Drained
                    | Some e \<Rightarrow> Some (Failed e)),
                   s1, Finished)))
   \<and> (\<exists>m. fst (snd (consume E v m (s, iter_data sl))) \<noteq> None)"
proof -
  have A: "written s' = written s @ [(path_join (output_folder s) ''label2idx.json'', labels2idx s)]
         \<and> labels2idx s' = labels2idx s
         \<and> dump_json_file E (path_join (output_folder s) ''label2idx.json'') (labels2idx s) = None
         \<and> gen_next E v (s', g') = (StopIteration, s', g')"
    if c: "consume E v n (s, iter_data sl) = (rs, fin, s', g')" and d: "fin = Some Drained"
    using consume_frame [OF c] d
    by (simp add: iter_data_def label2idx_dump_def persist_def same_config_def gen_next_finished)
  have B: "written s' = written s"
    if c: "consume E v n (s, iter_data sl) = (rs, fin, s', g')" and d: "fin \<noteq> Some Drained"
    using consume_frame [OF c] d by simp
  have C: "consume E v (Suc n) (s, iter_data sl)
          = (case dump_json_file E (path_join (output_folder s) ''label2idx.json'') (labels2idx s) of
               None \<Rightarrow>
                 ([], Some Drained,
                  s0\<lparr>written := written s
                        @ [(path_join (output_folder s) ''label2idx.json'', labels2idx s)]\<rparr>,
                  Finished)
             | Some e \<Rightarrow> ([], Some (Failed e), s0, Finished))"
    if e: "enter v s sl = Inr (s0, [])"
  proof -
    note f = enter_frame [OF e]
    have sc: "same_config s s0" and wr: "written s0 = written s"
      using f by simp_all
    have "consume E v (Suc n) (s, iter_data sl) = consume E v (Suc n) (s0, Suspended [])"
      using e by (simp add: iter_data_def consume_created del: consume.simps)
    then show ?thesis
      unfolding consume_suspended_nil persist_cong [OF sc] same_config_dump [OF sc] wr
      by (simp add: persist_def label2idx_dump_def del: consume.simps split: option.splits)
  qed
  have D: "\<exists>s1. consume E v (Suc (length w)) (s, iter_data sl)
                = (concat (map (expected E v s) w),
                   (case dump_json_file E (path_join (output_folder s) ''label2idx.json'')
                           (labels2idx s) of
                      None \<Rightarrow> Some Drained
                    | Some e \<Rightarrow> Some (Failed e)),
                   s1, Finished)"
    if h: "distinct (all_meta s) \<and> getslice (all_meta s) (default_slice s sl) = Inr w
        \<and> list_all (acquirable E v s) w"
  proof -
    have ok: "\<forall>x \<in> set w. acquirable E v s x"
      using h by (simp add: list_all_iff)
    from drains_from_created [OF _ _ ok, of sl] h show ?thesis
      by (simp add: persist_def del: consume.simps)
  qed
  have F: "\<exists>m. fst (snd (consume E v m (s, iter_data sl))) \<noteq> None"
    by (rule consume_ends)
  show ?thesis
    using A B C D F by blast
qed

theorem label2idx_written_on_exhaustion_witness:
  "fst (snd (consume example_env CsvJpeg 3
               (example_csv, iter_data (Some (Slice (Some 1) (Some 3) None))))) = Some Drained
   \<and> written (fst (snd (snd (consume example_env CsvJpeg 3
               (example_csv, iter_data (Some (Slice (Some 1) (Some 3) None)))))))
       = [(''out/label2idx.json'', [(''cat'', 0), (''dog'', 1)])]
   \<and> length (fst (consume example_env CsvJpeg 2
               (example_csv, iter_data (Some (Slice (Some 1) (Some 3) None))))) = 2
   \<and> fst (snd (consume example_env CsvJpeg 2
               (example_csv, iter_data (Some (Slice (Some 1) (Some 3) None))))) = None
   \<and> written (fst (snd (snd (consume example_env CsvJpeg 2
               (example_csv, iter_data (Some (Slice (Some 1) (Some 3) None))))))) = []
   \<and> enter CsvJpeg example_csv (Some (Slice (Some 1) (Some 1) None)) = Inr (example_csv, [])
   \<and> consume example_env CsvJpeg 1 (example_csv, iter_data (Some (Slice (Some 1) (Some 1) None)))
       = ([], Some Drained,
          example_csv\<lparr>written := [(''out/label2idx.json'', [(''cat'', 0), (''dog'', 1)])]\<rparr>, Finished)
   \<and> enter CsvJpeg (example_csv\<lparr>output_folder := ''missing''\<rparr>) (Some (Slice (Some 1) (Some 1) None))
       = Inr (example_csv\<lparr>output_folder := ''missing''\<rparr>, [])
   \<and> consume example_env CsvJpeg 1
         (example_csv\<lparr>output_folder := ''missing''\<rparr>, iter_data (Some (Slice (Some 1) (Some 1) None)))
       = ([], Some (Failed (OtherError ''No such file'')),
          example_csv\<lparr>output_folder := ''missing''\<rparr>, Finished)
   \<and> distinct (all_meta example_csv)
   \<and> getslice (all_meta example_csv) (default_slice example_csv None) = Inr [0, 1, 2]
   \<and> list_all (acquirable example_env CsvJpeg example_csv) [0, 1, 2]
   \<and> (\<exists>s1. consume example_env CsvJpeg 4 (example_csv, iter_data None)
             = ([\<lparr>r_meta = 0, r_frames = [17], r_id = ''1''\<rparr>,
                 \<lparr>r_meta = 1, r_frames = [17], r_id = ''2''\<rparr>,
                 \<lparr>r_meta = 2, r_frames = [17], r_id = ''3''\<rparr>], Some Drained, s1, Finished))"
proof -
  let ?sl = "Some (Slice (Some 1) (Some 3) None)"
  let ?e = "Some (Slice (Some 1) (Some 1) None)"
  let ?bad = "example_csv\<lparr>output_folder := ''missing''\<rparr>"
  obtain rs fin s' g' where
    c3: "consume example_env CsvJpeg 3 (example_csv, iter_data ?sl) = (rs, fin, s', g')"
    by (cases "consume example_env CsvJpeg 3 (example_csv, iter_data ?sl)")
  obtain rs2 fin2 s2 g2 where
    c2: "consume example_env CsvJpeg 2 (example_csv, iter_data ?sl) = (rs2, fin2, s2, g2)"
    by (cases "consume example_env CsvJpeg 2 (example_csv, iter_data ?sl)")
  have d3: "fst (snd (consume example_env CsvJpeg 3 (example_csv, iter_data ?sl))) = Some Drained"
    by code_simp
  have d2: "fst (snd (consume example_env CsvJpeg 2 (example_csv, iter_data ?sl))) = None"
    by code_simp
  have l2: "length (fst (consume example_env CsvJpeg 2 (example_csv, iter_data ?sl))) = 2"
    by code_simp
  have e: "enter CsvJpeg example_csv ?e = Inr (example_csv, [])"
    by code_simp
  have eb: "enter CsvJpeg ?bad ?e = Inr (?bad, [])"
    by code_simp
  have vals: "written example_csv = []"
    "path_join (output_folder example_csv) ''label2idx.json'' = ''out/label2idx.json''"
    "labels2idx example_csv = [(''cat'', 0), (''dog'', 1)]"
    "written ?bad = []" "labels2idx ?bad = [(''cat'', 0), (''dog'', 1)]"
    "path_join (output_folder ?bad) ''label2idx.json'' = ''missing/label2idx.json''"
    by (simp_all add: example_csv_def path_join_def)
  have dump: "dump_json_file example_env ''out/label2idx.json'' [(''cat'', 0), (''dog'', 1)] = None"
    "dump_json_file example_env ''missing/label2idx.json'' [(''cat'', 0), (''dog'', 1)]
       = Some (OtherError ''No such file'')"
    by (simp_all add: example_env_def)
  have w3: "written s' = written example_csv
              @ [(path_join (output_folder example_csv) ''label2idx.json'', labels2idx example_csv)]"
    using label2idx_written_on_exhaustion
      [where E = example_env and v = CsvJpeg and n = 3 and s = example_csv and sl = ?sl
         and rs = rs and fin = fin and s' = s' and g' = g'] c3 d3
    by simp
  have w2: "written s2 = written example_csv"
    using label2idx_written_on_exhaustion
      [where E = example_env and v = CsvJpeg and n = 2 and s = example_csv and sl = ?sl
         and rs = rs2 and fin = fin2 and s' = s2 and g' = g2] c2 d2
    by simp
  have "consume example_env CsvJpeg (Suc 0) (example_csv, iter_data ?e)
      = (case dump_json_file example_env (path_join (output_folder example_csv) ''label2idx.json'')
                (labels2idx example_csv) of
           None \<Rightarrow>
             ([], Some Drained,
              example_csv\<lparr>written := written example_csv
                    @ [(path_join (output_folder example_csv) ''label2idx.json'',
                        labels2idx example_csv)]\<rparr>,
              Finished)
         | Some e \<Rightarrow> ([], Some (Failed e), example_csv, Finished))"
    using label2idx_written_on_exhaustion
      [where E = example_env and v = CsvJpeg and n = 0 and s = example_csv and sl = ?e
         and s0 = example_csv] e
    by blast
  then have w1: "consume example_env CsvJpeg (Suc 0) (example_csv, iter_data ?e)
      = ([], Some Drained,
         example_csv\<lparr>written := [(''out/label2idx.json'', [(''cat'', 0), (''dog'', 1)])]\<rparr>, Finished)"
    unfolding vals dump by simp
  have "consume example_env CsvJpeg (Suc 0) (?bad, iter_data ?e)
      = (case dump_json_file example_env (path_join (output_folder ?bad) ''label2idx.json'')
                (labels2idx ?bad) of
           None \<Rightarrow>
             ([], Some Drained,
              ?bad\<lparr>written := written ?bad
                    @ [(path_join (output_folder ?bad) ''label2idx.json'', labels2idx ?bad)]\<rparr>,
              Finished)
         | Some e \<Rightarrow> ([], Some (Failed e), ?bad, Finished))"
    using label2idx_written_on_exhaustion
      [where E = example_env and v = CsvJpeg and n = 0 and s = ?bad and sl = ?e and s0 = ?bad] eb
    by blast
  then have wb: "consume example_env CsvJpeg (Suc 0) (?bad, iter_data ?e)
      = ([], Some (Failed (OtherError ''No such file'')), ?bad, Finished)"
    unfolding vals dump by simp
  have dist: "distinct (all_meta example_csv)"
    by (simp add: example_csv_def)
  have gs: "getslice (all_meta example_csv) (default_slice example_csv None) = Inr [0, 1, 2]"
    by code_simp
  have acq: "list_all (acquirable example_env CsvJpeg example_csv) [0, 1, 2]"
    by code_simp
  have ex: "concat (map (expected example_env CsvJpeg example_csv) [0, 1, 2])
      = [\<lparr>r_meta = 0, r_frames = [17], r_id = ''1''\<rparr>,
         \<lparr>r_meta = 1, r_frames = [17], r_id = ''2''\<rparr>,
         \<lparr>r_meta = 2, r_frames = [17], r_id = ''3''\<rparr>]"
    by code_simp
  have "\<exists>s1. consume example_env CsvJpeg (Suc (length [0::nat, 1, 2])) (example_csv, iter_data None)
          = (concat (map (expected example_env CsvJpeg example_csv) [0, 1, 2]),
             (case dump_json_file example_env
                     (path_join (output_folder example_csv) ''label2idx.json'')
                     (labels2idx example_csv) of
                None \<Rightarrow> Some Drained
              | Some e \<Rightarrow> Some (Failed e)),
             s1, Finished)"
    using label2idx_written_on_exhaustion
      [where E = example_env and v = CsvJpeg and s = example_csv and sl = None
         and w = "[0, 1, 2]"] dist gs acq
    by blast
  then have full: "\<exists>s1. consume example_env CsvJpeg 4 (example_csv, iter_data None)
             = ([\<lparr>r_meta = 0, r_frames = [17], r_id = ''1''\<rparr>,
                 \<lparr>r_meta = 1, r_frames = [17], r_id = ''2''\<rparr>,
                 \<lparr>r_meta = 2, r_frames = [17], r_id = ''3''\<rparr>], Some Drained, s1, Finished)"
    unfolding vals dump ex by (simp del: consume.simps add: eval_nat_numeral)
  show ?thesis
    using c3 c2 d3 d2 l2 e eb w3 w2 w1 wb vals dist gs acq full by (simp del: consume.simps)
qed

subsection \<open>Iterating over a slice\<close>

lemma window_split:
  assumes "a \<le> b" "b \<le> length xs"
  shows "xs = take a xs @ map (\<lambda>i. xs ! i) [a..<b] @ drop b xs"
proof -
  have t: "take a xs = map (\<lambda>i. xs ! i) [0..<a]"
    by (rule nth_equalityI) (use assms in auto)
  have d: "drop b xs = map (\<lambda>i. xs ! i) [b..<length xs]"
    by (rule nth_equalityI) (use assms in auto)
  have "[0..<length xs] = [0..<b] @ [b..<length xs]"
    using assms(2) upt_add_eq_append [of 0 b "length xs - b"] by simp
  moreover have "[0..<b] = [0..<a] @ [a..<b]"
    using assms(1) upt_add_eq_append [of 0 a "b - a"] by simp
  ultimately have "[0..<length xs] = [0..<a] @ [a..<b] @ [b..<length xs]"
    by simp
  then have "map (\<lambda>i. xs ! i) [0..<length xs]
      = map (\<lambda>i. xs ! i) [0..<a] @ map (\<lambda>i. xs ! i) [a..<b] @ map (\<lambda>i. xs ! i) [b..<length xs]"
    by (metis map_append)
  then show ?thesis
    using t d by (simp add: map_nth)
qed

lemma expected_window:
  assumes ok: "\<forall>x \<in> set w. acquirable E v s x"
  shows "map r_meta (concat (map (expected E v s) w)) = filter (\<lambda>x. \<not> tolerated E v s x) w
       \<and> length (concat (map (expected E v s) w)) = length w - length (filter (tolerated E v s) w)
       \<and> (v \<noteq> ImageList \<longrightarrow>
            length (concat (map (expected E v s) w)) = length w
            \<and> map r_meta (concat (map (expected E v s) w)) = w)"
proof -
  let ?rs = "concat (map (expected E v s) w)"
  have metas: "map r_meta ?rs = filter (\<lambda>x. \<not> tolerated E v s x) w"
    by (rule expected_trace_metas [OF ok])
  have "length (filter (tolerated E v s) w) + length (filter (\<lambda>x. \<not> tolerated E v s x) w) = length w"
    by (rule sum_length_filter_compl)
  moreover have "length ?rs = length (filter (\<lambda>x. \<not> tolerated E v s x) w)"
    using metas by (metis length_map)
  ultimately have len_rs: "length ?rs = length w - length (filter (tolerated E v s) w)"
    by linarith
  have other: "length ?rs = length w \<and> map r_meta ?rs = w" if nv: "v \<noteq> ImageList"
  proof -
    have "filter (\<lambda>x. \<not> tolerated E v s x) w = w"
      by (simp add: not_tolerated_other [OF nv])
    then have "map r_meta ?rs = w"
      using metas by simp
    then show ?thesis
      by (metis length_map)
  qed
  show ?thesis
    using metas len_rs other by blast
qed

text \<open>
  Claim C5. Take a freshly constructed adapter of any of the four classes and a
  range \<open>0 \<le> a \<le> b \<le> len\<close>; the window is \<^verbatim>\<open>all_meta[a]\<close>, ..., \<^verbatim>\<open>all_meta[b-1]\<close>.

  If the frames of every record of the window can be acquired (or, in
  \<^verbatim>\<open>ImageListAdapter\<close>, the image of the record is reported missing, which is
  tolerated), then \<open>b - a + 1\<close> calls of \<^verbatim>\<open>next\<close> on \<^verbatim>\<open>iter_data(slice(a, b))\<close> reach
  the end of the generator, and the consumer has received exactly the expected
  results of the records of the window, in order: one result per record that is
  not tolerated as missing, holding the meta dictionary of the record itself, the
  frames the collaborators returned for it and its id. Their meta dictionaries are
  those of the window without the tolerated ones; there are \<open>b - a\<close> results less
  the tolerated ones, and exactly \<open>b - a\<close> in the three classes that tolerate
  nothing. The generator then runs out if \<^verbatim>\<open>label2idx.json\<close> can be written, and
  raises the exception of the write otherwise. Under the same condition on all the
  records, the unsliced \<^verbatim>\<open>iter_data()\<close> on the same fresh adapter yields the
  expected results of \<^verbatim>\<open>all_meta[:a]\<close>, then those of the window, then those of
  \<^verbatim>\<open>all_meta[b:]\<close>.

  Conversely, whenever a consumer saw \<^verbatim>\<open>iter_data(slice(a, b))\<close> run out, every
  record of the window could be acquired or was tolerated, and the results it
  received are the expected ones, with the same counts; the contents of their meta
  dictionaries are those the adapter was built with, except that
  \<^verbatim>\<open>ImageListAdapter\<close> has popped \<^verbatim>\<open>'path'\<close>; and they are the segment of any
  drained unsliced sequence that belongs to the window.
\<close>

theorem slice_yields_window:
  assumes fresh: "json_init E f fld out sh fs fr shm = Inr s \<and> v = JsonVideo
         \<or> csv_init E f fld out sh fs shm = Inr s \<and> v = CsvJpeg
         \<or> imagelist_init E f out fld sh fs = Inr s \<and> v = ImageList
         \<or> imagefolder_init E fld out exts sh fs = Inr s \<and> v = ImageFolder"
    and range: "0 \<le> a \<and> a \<le> b \<and> b \<le> int (len s)"
  shows "(list_all (acquirable E v s) (map (\<lambda>i. all_meta s ! i) [nat a..<nat b]) \<longrightarrow>
          (\<exists>s1. consume E v (Suc (nat (b - a))) (s, iter_data (Some (Slice (Some a) (Some b) None)))
                  = (concat (map (expected E v s) (map (\<lambda>i. all_meta s ! i) [nat a..<nat b])),
                     (case dump_json_file E (path_join (output_folder s) ''label2idx.json'')
                             (labels2idx s) of
                        None \<Rightarrow> Some Drained
                      | Some e \<Rightarrow> Some (Failed e)),
                     s1, Finished))
          \<and> map r_meta (concat (map (expected E v s) (map (\<lambda>i. all_meta s ! i) [nat a..<nat b])))
              = filter (\<lambda>x. \<not> tolerated E v s x) (map (\<lambda>i. all_meta s ! i) [nat a..<nat b])
          \<and> length (concat (map (expected E v s) (map (\<lambda>i. all_meta s ! i) [nat a..<nat b])))
              = nat (b - a)
                - length (filter (tolerated E v s) (map (\<lambda>i. all_meta s ! i) [nat a..<nat b]))
          \<and> (v \<noteq> ImageList \<longrightarrow>
                length (concat (map (expected E v s) (map (\<lambda>i. all_meta s ! i) [nat a..<nat b])))
                  = nat (b - a)
                \<and> map r_meta (concat (map (expected E v s) (map (\<lambda>i. all_meta s ! i) [nat a..<nat b])))
                  = map (\<lambda>i. all_meta s ! i) [nat a..<nat b]))
       \<and> (list_all (acquirable E v s) (all_meta s) \<longrightarrow>
          (\<exists>s2. consume E v (Suc (len s)) (s, iter_data None)
                  = (concat (map (expected E v s) (take (nat a) (all_meta s)))
                     @ concat (map (expected E v s) (map (\<lambda>i. all_meta s ! i) [nat a..<nat b]))
                     @ concat (map (expected E v s) (drop (nat b) (all_meta s))),
                     (case dump_json_file E (path_join (output_folder s) ''label2idx.json'')
                             (labels2idx s) of
                        None \<Rightarrow> Some Drained
                      | Some e \<Rightarrow> Some (Failed e)),
                     s2, Finished)))
       \<and> (consume E v n (s, iter_data (Some (Slice (Some a) (Some b) None)))
            = (rs, Some Drained, s', g') \<longrightarrow>
          list_all (acquirable E v s) (map (\<lambda>i. all_meta s ! i) [nat a..<nat b])
          \<and> rs = concat (map (expected E v s) (map (\<lambda>i. all_meta s ! i) [nat a..<nat b]))
          \<and> map r_meta rs
             = filter (\<lambda>x. \<not> tolerated E v s x) (map (\<lambda>i. all_meta s ! i) [nat a..<nat b])
          \<and> length rs = nat (b - a)
             - length (filter (tolerated E v s) (map (\<lambda>i. all_meta s ! i) [nat a..<nat b]))
          \<and> (v \<noteq> ImageList \<longrightarrow>
               length rs = nat (b - a) \<and> map r_meta rs = map (\<lambda>i. all_meta s ! i) [nat a..<nat b])
          \<and> (\<forall>r \<in> set rs. heap s' ! r_meta r
                 = (if v = ImageList then (heap s ! r_meta r)\<lparr>m_path := None\<rparr>
                    else heap s ! r_meta r))
          \<and> (\<forall>n0 rs0 s0 g0.
                consume E v n0 (s, iter_data None) = (rs0, Some Drained, s0, g0) \<longrightarrow>
                rs0 = concat (map (expected E v s) (take (nat a) (all_meta s))) @ rs
                      @ concat (map (expected E v s) (drop (nat b) (all_meta s)))))"
proof -
  let ?xs = "all_meta s"
  let ?w = "map (\<lambda>i. ?xs ! i) [nat a..<nat b]"
  let ?sl = "Some (Slice (Some a) (Some b) None)"
  let ?fin = "case dump_json_file E (path_join (output_folder s) ''label2idx.json'') (labels2idx s) of
                None \<Rightarrow> Some Drained | Some e \<Rightarrow> Some (Failed e)"
  have wf: "well_formed s" and ln: "length ?xs = len s"
    using init_fresh [OF fresh] by simp_all
  have dist: "distinct ?xs" and valid: "\<forall>x \<in> set ?xs. x < length (heap s)"
    using wf by (simp_all add: well_formed_def list_all_iff)
  have ab: "nat a \<le> nat b" "nat b \<le> length ?xs"
    using range ln by auto
  have gs: "getslice ?xs (default_slice s ?sl) = Inr ?w"
    using range ln by (simp add: default_slice_def getslice_range)
  have g0: "getslice ?xs (default_slice s None) = Inr ?xs"
    using getslice_full [of ?xs] ln by (simp add: default_slice_def)
  have lw: "length ?w = nat (b - a)"
    using range by (simp add: nat_diff_distrib)
  have split: "?xs = take (nat a) ?xs @ ?w @ drop (nat b) ?xs"
    by (rule window_split [OF ab])
  have fin: "(case persist E s of None \<Rightarrow> Some Drained | Some e \<Rightarrow> Some (Failed e)) = ?fin"
    by (simp add: persist_def)
  have counts: "map r_meta (concat (map (expected E v s) ?w)) = filter (\<lambda>x. \<not> tolerated E v s x) ?w
          \<and> length (concat (map (expected E v s) ?w))
              = nat (b - a) - length (filter (tolerated E v s) ?w)
          \<and> (v \<noteq> ImageList \<longrightarrow>
                length (concat (map (expected E v s) ?w)) = nat (b - a)
                \<and> map r_meta (concat (map (expected E v s) ?w)) = ?w)"
    if ok: "\<forall>x \<in> set ?w. acquirable E v s x"
    using expected_window [OF ok] unfolding lw .
  have sliced: "(\<exists>s1. consume E v (Suc (nat (b - a))) (s, iter_data ?sl)
                  = (concat (map (expected E v s) ?w), ?fin, s1, Finished))
          \<and> map r_meta (concat (map (expected E v s) ?w)) = filter (\<lambda>x. \<not> tolerated E v s x) ?w
          \<and> length (concat (map (expected E v s) ?w))
              = nat (b - a) - length (filter (tolerated E v s) ?w)
          \<and> (v \<noteq> ImageList \<longrightarrow>
                length (concat (map (expected E v s) ?w)) = nat (b - a)
                \<and> map r_meta (concat (map (expected E v s) ?w)) = ?w)"
    if la: "list_all (acquirable E v s) ?w"
  proof -
    have ok: "\<forall>x \<in> set ?w. acquirable E v s x"
      using la by (simp only: list_all_iff)
    from drains_from_created [OF dist gs ok]
    have "\<exists>s1. consume E v (Suc (nat (b - a))) (s, iter_data ?sl)
                  = (concat (map (expected E v s) ?w), ?fin, s1, Finished)"
      unfolding lw fin .
    then show ?thesis
      using counts [OF ok] by blast
  qed
  have unsliced: "\<exists>s2. consume E v (Suc (len s)) (s, iter_data None)
                  = (concat (map (expected E v s) (take (nat a) ?xs))
                     @ concat (map (expected E v s) ?w)
                     @ concat (map (expected E v s) (drop (nat b) ?xs)), ?fin, s2, Finished)"
    if la: "list_all (acquirable E v s) ?xs"
  proof -
    have ok: "\<forall>x \<in> set ?xs. acquirable E v s x"
      using la by (simp only: list_all_iff)
    have "concat (map (expected E v s) ?xs)
        = concat (map (expected E v s) (take (nat a) ?xs @ ?w @ drop (nat b) ?xs))"
      using split by simp
    then have c: "concat (map (expected E v s) ?xs)
        = concat (map (expected E v s) (take (nat a) ?xs))
          @ concat (map (expected E v s) ?w)
          @ concat (map (expected E v s) (drop (nat b) ?xs))"
      by simp
    from drains_from_created [OF dist g0 ok]
    show ?thesis
      unfolding ln fin c .
  qed
  have drained: "list_all (acquirable E v s) ?w
          \<and> rs = concat (map (expected E v s) ?w)
          \<and> map r_meta rs = filter (\<lambda>x. \<not> tolerated E v s x) ?w
          \<and> length rs = nat (b - a) - length (filter (tolerated E v s) ?w)
          \<and> (v \<noteq> ImageList \<longrightarrow> length rs = nat (b - a) \<and> map r_meta rs = ?w)
          \<and> (\<forall>r \<in> set rs. heap s' ! r_meta r
                 = (if v = ImageList then (heap s ! r_meta r)\<lparr>m_path := None\<rparr>
                    else heap s ! r_meta r))
          \<and> (\<forall>n0 rs0 s0 g0.
                consume E v n0 (s, iter_data None) = (rs0, Some Drained, s0, g0) \<longrightarrow>
                rs0 = concat (map (expected E v s) (take (nat a) ?xs)) @ rs
                      @ concat (map (expected E v s) (drop (nat b) ?xs)))"
    if run: "consume E v n (s, iter_data ?sl) = (rs, Some Drained, s', g')"
  proof -
    note t = drained_from_created [OF dist gs run]
    have rse: "rs = concat (map (emitted E v s) ?w)"
      using t by simp
    have rs: "rs = concat (map (expected E v s) ?w)"
      using rse unfolding trace_expected .
    have "\<forall>x \<in> set ?w. \<forall>e. snd (body E v s x) \<noteq> Abort e"
      using t by simp
    then have ok: "\<forall>x \<in> set ?w. acquirable E v s x"
      unfolding no_abort_acquirable .
    then have la: "list_all (acquirable E v s) ?w"
      by (simp only: list_all_iff)
    note cn = counts [OF ok, folded rs]
    have contents: "heap s' ! r_meta r
        = (if v = ImageList then (heap s ! r_meta r)\<lparr>m_path := None\<rparr> else heap s ! r_meta r)"
      if r: "r \<in> set rs" for r
    proof -
      from emitted_in_trace [of r E v s ?w] r rse
      obtain s1 where x: "r_meta r \<in> set ?w" and b: "body E v s (r_meta r) = (s1, Emit r)"
        by auto
      have "set ?w \<subseteq> set ?xs"
        using getslice_subset [OF gs] .
      then have "r_meta r < length (heap s)"
        using x valid by blast
      from body_emit_heap [OF b this]
      have "heap s1 ! r_meta r
        = (if v = ImageList then (heap s ! r_meta r)\<lparr>m_path := None\<rparr> else heap s ! r_meta r)" .
      moreover have "heap s' ! r_meta r = heap (fst (body E v s (r_meta r))) ! r_meta r"
        using t x by simp
      ultimately show ?thesis
        using b by simp
    qed
    have whole: "rs0 = concat (map (expected E v s) (take (nat a) ?xs)) @ rs
                    @ concat (map (expected E v s) (drop (nat b) ?xs))"
      if c0: "consume E v n0 (s, iter_data None) = (rs0, Some Drained, s0, g0)" for n0 rs0 s0 g0
    proof -
      have "rs0 = concat (map (emitted E v s) ?xs)"
        using drained_from_created [OF dist g0 c0] by simp
      then have "rs0 = concat (map (expected E v s) ?xs)"
        unfolding trace_expected .
      also have "\<dots> = concat (map (expected E v s) (take (nat a) ?xs @ ?w @ drop (nat b) ?xs))"
        using split by simp
      finally show ?thesis
        by (simp add: rs)
    qed
    show ?thesis
      using la rs cn contents whole by blast
  qed
  show ?thesis
    using sliced unsliced drained by blast
qed

theorem slice_yields_window_witness:
  "json_init example_env ''train.json'' ''videos'' ''out'' False (- 1) 8 ''/dev/shm'' = Inr example_json
   \<and> 1 \<le> int (len example_json)
   \<and> list_all (acquirable example_env JsonVideo example_json)
        (map (\<lambda>i. all_meta example_json ! i) [nat 0..<nat 1])
   \<and> (\<exists>s1. consume example_env JsonVideo (Suc (nat (1 - 0)))
                (example_json, iter_data (Some (Slice (Some 0) (Some 1) None)))
              = ([\<lparr>r_meta = 0, r_frames = [23], r_id = ''7''\<rparr>], Some Drained, s1, Finished))
   \<and> csv_init example_env ''train.csv'' ''frames'' ''out'' False (- 1) ''/dev/shm'' = Inr example_csv
   \<and> 3 \<le> int (len example_csv)
   \<and> list_all (acquirable example_env CsvJpeg example_csv)
        (map (\<lambda>i. all_meta example_csv ! i) [nat 1..<nat 3])
   \<and> (\<exists>s1. consume example_env CsvJpeg (Suc (nat (3 - 1)))
                (example_csv, iter_data (Some (Slice (Some 1) (Some 3) None)))
              = ([\<lparr>r_meta = 1, r_frames = [17], r_id = ''2''\<rparr>,
                  \<lparr>r_meta = 2, r_frames = [17], r_id = ''3''\<rparr>], Some Drained, s1, Finished))
   \<and> imagelist_init example_env ''list.txt'' ''out'' ''root'' False (- 1) = Inr example_image_list
   \<and> 3 \<le> int (len example_image_list)
   \<and> list_all (acquirable example_env ImageList example_image_list)
        (map (\<lambda>i. all_meta example_image_list ! i) [nat 0..<nat 3])
   \<and> tolerated example_env ImageList example_image_list 1
   \<and> (\<exists>s1. consume example_env ImageList (Suc (nat (3 - 0)))
                (example_image_list, iter_data (Some (Slice (Some 0) (Some 3) None)))
              = ([\<lparr>r_meta = 0, r_frames = [12], r_id = ''x.jpg''\<rparr>,
                  \<lparr>r_meta = 2, r_frames = [12], r_id = ''z.jpg''\<rparr>], Some Drained, s1, Finished))
   \<and> imagefolder_init example_env ''/d/'' ''out'' default_file_extensions False (- 1)
       = Inr example_image_folder
   \<and> 1 \<le> int (len example_image_folder)
   \<and> list_all (acquirable example_env ImageFolder example_image_folder)
        (map (\<lambda>i. all_meta example_image_folder ! i) [nat 0..<nat 1])
   \<and> (\<exists>s1. consume example_env ImageFolder (Suc (nat (1 - 0)))
                (example_image_folder, iter_data (Some (Slice (Some 0) (Some 1) None)))
              = ([\<lparr>r_meta = 0, r_frames = [10], r_id = ''y.png''\<rparr>], Some Drained, s1, Finished))
   \<and> fst (snd (consume example_env ImageList 2
         (example_image_list, iter_data (Some (Slice (Some 0) (Some 2) None))))) = Some Drained
   \<and> fst (consume example_env ImageList 2
         (example_image_list, iter_data (Some (Slice (Some 0) (Some 2) None))))
       = concat (map (expected example_env ImageList example_image_list)
           (map (\<lambda>i. all_meta example_image_list ! i) [nat 0..<nat 2]))
   \<and> fst (consume example_env ImageList 2
         (example_image_list, iter_data (Some (Slice (Some 0) (Some 2) None))))
       = [\<lparr>r_meta = 0, r_frames = [12], r_id = ''x.jpg''\<rparr>]"
proof -
  have j_len: "1 \<le> int (len example_json)"
    by (simp add: len_def example_json_def)
  have j_rg: "(0::int) \<le> 0 \<and> (0::int) \<le> 1 \<and> 1 \<le> int (len example_json)"
    using j_len by simp
  have j_acq: "list_all (acquirable example_env JsonVideo example_json)
        (map (\<lambda>i. all_meta example_json ! i) [nat 0..<nat 1])"
    by code_simp
  have j_exp: "concat (map (expected example_env JsonVideo example_json)
        (map (\<lambda>i. all_meta example_json ! i) [nat 0..<nat 1]))
      = [\<lparr>r_meta = 0, r_frames = [23], r_id = ''7''\<rparr>]"
    by code_simp
  have j_fin: "(case dump_json_file example_env (path_join (output_folder example_json) ''label2idx.json'')
                  (labels2idx example_json) of
             None \<Rightarrow> Some Drained | Some e \<Rightarrow> Some (Failed e)) = Some Drained"
    by code_simp
  have "\<exists>s1. consume example_env JsonVideo (Suc (nat (1 - 0)))
                (example_json, iter_data (Some (Slice (Some 0) (Some 1) None)))
              = (concat (map (expected example_env JsonVideo example_json)
                   (map (\<lambda>i. all_meta example_json ! i) [nat 0..<nat 1])),
                 (case dump_json_file example_env
                         (path_join (output_folder example_json) ''label2idx.json'')
                         (labels2idx example_json) of
                    None \<Rightarrow> Some Drained | Some e \<Rightarrow> Some (Failed e)),
                 s1, Finished)"
    using slice_yields_window
      [where E = example_env and f = "''train.json''" and out = "''out''" and fld = "''videos''"
         and sh = False and fs = "- 1" and fr = 8 and shm = "''/dev/shm''"
         and s = example_json and v = JsonVideo and a = 0 and b = 1]
      example_json_init j_rg j_acq
    by blast
  then have j_run: "\<exists>s1. consume example_env JsonVideo (Suc (nat (1 - 0)))
                (example_json, iter_data (Some (Slice (Some 0) (Some 1) None)))
              = ([\<lparr>r_meta = 0, r_frames = [23], r_id = ''7''\<rparr>], Some Drained, s1, Finished)"
    unfolding j_exp j_fin .
  have c_len: "3 \<le> int (len example_csv)"
    by (simp add: len_def example_csv_def)
  have c_rg: "(0::int) \<le> 1 \<and> (1::int) \<le> 3 \<and> 3 \<le> int (len example_csv)"
    using c_len by simp
  have c_acq: "list_all (acquirable example_env CsvJpeg example_csv)
        (map (\<lambda>i. all_meta example_csv ! i) [nat 1..<nat 3])"
    by code_simp
  have c_exp: "concat (map (expected example_env CsvJpeg example_csv)
        (map (\<lambda>i. all_meta example_csv ! i) [nat 1..<nat 3]))
      = [\<lparr>r_meta = 1, r_frames = [17], r_id = ''2''\<rparr>,
         \<lparr>r_meta = 2, r_frames = [17], r_id = ''3''\<rparr>]"
    by code_simp
  have c_fin: "(case dump_json_file example_env (path_join (output_folder example_csv) ''label2idx.json'')
                  (labels2idx example_csv) of
             None \<Rightarrow> Some Drained | Some e \<Rightarrow> Some (Failed e)) = Some Drained"
    by code_simp
  have "\<exists>s1. consume example_env CsvJpeg (Suc (nat (3 - 1)))
                (example_csv, iter_data (Some (Slice (Some 1) (Some 3) None)))
              = (concat (map (expected example_env CsvJpeg example_csv)
                   (map (\<lambda>i. all_meta example_csv ! i) [nat 1..<nat 3])),
                 (case dump_json_file example_env
                         (path_join (output_folder example_csv) ''label2idx.json'')
                         (labels2idx example_csv) of
                    None \<Rightarrow> Some Drained | Some e \<Rightarrow> Some (Failed e)),
                 s1, Finished)"
    using slice_yields_window
      [where E = example_env and f = "''train.csv''" and out = "''out''" and fld = "''frames''"
         and sh = False and fs = "- 1" and shm = "''/dev/shm''"
         and s = example_csv and v = CsvJpeg and a = 1 and b = 3]
      example_csv_init c_rg c_acq
    by blast
  then have c_run: "\<exists>s1. consume example_env CsvJpeg (Suc (nat (3 - 1)))
                (example_csv, iter_data (Some (Slice (Some 1) (Some 3) None)))
              = ([\<lparr>r_meta = 1, r_frames = [17], r_id = ''2''\<rparr>,
                  \<lparr>r_meta = 2, r_frames = [17], r_id = ''3''\<rparr>], Some Drained, s1, Finished)"
    unfolding c_exp c_fin .
  have l_len: "3 \<le> int (len example_image_list)"
    by (simp add: len_def example_image_list_def)
  have l_rg: "(0::int) \<le> 0 \<and> (0::int) \<le> 3 \<and> 3 \<le> int (len example_image_list)"
    using l_len by simp
  have l_acq: "list_all (acquirable example_env ImageList example_image_list)
        (map (\<lambda>i. all_meta example_image_list ! i) [nat 0..<nat 3])"
    by code_simp
  have l_tol: "tolerated example_env ImageList example_image_list 1"
    by code_simp
  have l_exp: "concat (map (expected example_env ImageList example_image_list)
        (map (\<lambda>i. all_meta example_image_list ! i) [nat 0..<nat 3]))
      = [\<lparr>r_meta = 0, r_frames = [12], r_id = ''x.jpg''\<rparr>,
         \<lparr>r_meta = 2, r_frames = [12], r_id = ''z.jpg''\<rparr>]"
    by code_simp
  have l_fin: "(case dump_json_file example_env
                  (path_join (output_folder example_image_list) ''label2idx.json'')
                  (labels2idx example_image_list) of
             None \<Rightarrow> Some Drained | Some e \<Rightarrow> Some (Failed e)) = Some Drained"
    by code_simp
  have "\<exists>s1. consume example_env ImageList (Suc (nat (3 - 0)))
                (example_image_list, iter_data (Some (Slice (Some 0) (Some 3) None)))
              = (concat (map (expected example_env ImageList example_image_list)
                   (map (\<lambda>i. all_meta example_image_list ! i) [nat 0..<nat 3])),
                 (case dump_json_file example_env
                         (path_join (output_folder example_image_list) ''label2idx.json'')
                         (labels2idx example_image_list) of
                    None \<Rightarrow> Some Drained | Some e \<Rightarrow> Some (Failed e)),
                 s1, Finished)"
    using slice_yields_window
      [where E = example_env and f = "''list.txt''" and out = "''out''" and fld = "''root''"
         and sh = False and fs = "- 1"
         and s = example_image_list and v = ImageList and a = 0 and b = 3]
      example_image_list_init l_rg l_acq
    by blast
  then have l_run: "\<exists>s1. consume example_env ImageList (Suc (nat (3 - 0)))
                (example_image_list, iter_data (Some (Slice (Some 0) (Some 3) None)))
              = ([\<lparr>r_meta = 0, r_frames = [12], r_id = ''x.jpg''\<rparr>,
                  \<lparr>r_meta = 2, r_frames = [12], r_id = ''z.jpg''\<rparr>], Some Drained, s1, Finished)"
    unfolding l_exp l_fin .
  have f_len: "1 \<le> int (len example_image_folder)"
    by (simp add: len_def example_image_folder_def)
  have f_rg: "(0::int) \<le> 0 \<and> (0::int) \<le> 1 \<and> 1 \<le> int (len example_image_folder)"
    using f_len by simp
  have f_acq: "list_all (acquirable example_env ImageFolder example_image_folder)
        (map (\<lambda>i. all_meta example_image_folder ! i) [nat 0..<nat 1])"
    by code_simp
  have f_exp: "concat (map (expected example_env ImageFolder example_image_folder)
        (map (\<lambda>i. all_meta example_image_folder ! i) [nat 0..<nat 1]))
      = [\<lparr>r_meta = 0, r_frames = [10], r_id = ''y.png''\<rparr>]"
    by code_simp
  have f_fin: "(case dump_json_file example_env
                  (path_join (output_folder example_image_folder) ''label2idx.json'')
                  (labels2idx example_image_folder) of
             None \<Rightarrow> Some Drained | Some e \<Rightarrow> Some (Failed e)) = Some Drained"
    by code_simp
  have "\<exists>s1. consume example_env ImageFolder (Suc (nat (1 - 0)))
                (example_image_folder, iter_data (Some (Slice (Some 0) (Some 1) None)))
              = (concat (map (expected example_env ImageFolder example_image_folder)
                   (map (\<lambda>i. all_meta example_image_folder ! i) [nat 0..<nat 1])),
                 (case dump_json_file example_env
                         (path_join (output_folder example_image_folder) ''label2idx.json'')
                         (labels2idx example_image_folder) of
                    None \<Rightarrow> Some Drained | Some e \<Rightarrow> Some (Failed e)),
                 s1, Finished)"
    using slice_yields_window
      [where E = example_env and out = "''out''" and fld = "''/d/''"
         and exts = default_file_extensions and sh = False and fs = "- 1"
         and s = example_image_folder and v = ImageFolder and a = 0 and b = 1]
      example_image_folder_init f_rg f_acq
    by blast
  then have f_run: "\<exists>s1. consume example_env ImageFolder (Suc (nat (1 - 0)))
                (example_image_folder, iter_data (Some (Slice (Some 0) (Some 1) None)))
              = ([\<lparr>r_meta = 0, r_frames = [10], r_id = ''y.png''\<rparr>], Some Drained, s1, Finished)"
    unfolding f_exp f_fin .
  let ?g = "iter_data (Some (Slice (Some 0) (Some 2) None))"
  obtain rs fin s' g' where
    c: "consume example_env ImageList 2 (example_image_list, ?g) = (rs, fin, s', g')"
    by (cases "consume example_env ImageList 2 (example_image_list, ?g)")
  have d: "fst (snd (consume example_env ImageList 2 (example_image_list, ?g))) = Some Drained"
    by code_simp
  have run: "consume example_env ImageList 2 (example_image_list, ?g) = (rs, Some Drained, s', g')"
    using c d by simp
  have rg2: "(0::int) \<le> 0 \<and> (0::int) \<le> 2 \<and> 2 \<le> int (len example_image_list)"
    using l_len by simp
  have conv: "rs = concat (map (expected example_env ImageList example_image_list)
           (map (\<lambda>i. all_meta example_image_list ! i) [nat 0..<nat 2]))"
    using slice_yields_window
      [where E = example_env and f = "''list.txt''" and out = "''out''" and fld = "''root''"
         and sh = False and fs = "- 1" and s = example_image_list and v = ImageList
         and a = 0 and b = 2 and n = 2 and rs = rs and s' = s' and g' = g']
      example_image_list_init rg2 run
    by blast
  have e2: "concat (map (expected example_env ImageList example_image_list)
           (map (\<lambda>i. all_meta example_image_list ! i) [nat 0..<nat 2]))
      = [\<lparr>r_meta = 0, r_frames = [12], r_id = ''x.jpg''\<rparr>]"
    by code_simp
  have r1: "fst (consume example_env ImageList 2 (example_image_list, ?g))
       = concat (map (expected example_env ImageList example_image_list)
           (map (\<lambda>i. all_meta example_image_list ! i) [nat 0..<nat 2]))"
    using c conv by simp
  have r2: "fst (consume example_env ImageList 2 (example_image_list, ?g))
       = [\<lparr>r_meta = 0, r_frames = [12], r_id = ''x.jpg''\<rparr>]"
    using r1 e2 by simp
  show ?thesis
    by (intro conjI)
       (rule example_json_init j_len j_acq j_run example_csv_init c_len c_acq c_run
          example_image_list_init l_len l_acq l_tol l_run example_image_folder_init f_len f_acq
          f_run d r1 r2)+
qed

subsection \<open>The length of an adapter\<close>

text \<open>
  Claim C6. \<^verbatim>\<open>len(adapter)\<close> is the number of records parsed from the manifest
  at construction, in the four classes; the shuffle flag and the random numbers
  have no part in it; and no pass through a loop body (a skipped record included),
  no call of \<^verbatim>\<open>next\<close> and no sequence of calls, on a generator made with any
  slice, changes it.
\<close>

theorem length_is_manifest_size:
  "(json_init E f fld out sh fs fr shm = Inr s \<longrightarrow>
      (\<exists>d. (if endswith f ''.json.gz'' then read_gz_json E f else read_json E f) = Inr d
           \<and> len s = length d))
   \<and> (csv_init E f fld out sh fs shm = Inr s \<longrightarrow>
      (\<exists>d. read_csv E f = Inr d \<and> len s = length d))
   \<and> (imagelist_init E f out fld sh fs = Inr s \<longrightarrow>
      (\<exists>d. parse_paths E f = Inr d \<and> len s = length d))
   \<and> (imagefolder_init E fld out exts sh fs = Inr s \<longrightarrow>
      (\<exists>d. parse_folder E exts fld = Inr d \<and> len s = length d))
   \<and> len (new_adapter E d l2i metas out fld sh fs fr shm) = length d
   \<and> (body E v s a = (s1, Continue) \<longrightarrow> len s1 = len s)
   \<and> (gen_next E v (s, g) = (outc, s', g') \<longrightarrow> len s' = len s)
   \<and> (consume E v n (s, g) = (rs, fin, s'', g'') \<longrightarrow> len s'' = len s)"
proof (intro conjI impI)
  show "len (new_adapter E d l2i metas out fld sh fs fr shm) = length d"
    by (simp add: len_def new_adapter_def)
  show "len s1 = len s" if "body E v s a = (s1, Continue)"
    using body_attrs [OF that] by (simp add: len_def)
  show "len s' = len s" if "gen_next E v (s, g) = (outc, s', g')"
    using gen_next_frame [OF that] by (simp add: len_def same_config_def)
  show "len s'' = len s" if "consume E v n (s, g) = (rs, fin, s'', g'')"
    using consume_frame [OF that] by (simp add: len_def same_config_def)
next
  assume "json_init E f fld out sh fs fr shm = Inr s"
  from init_data(1) [OF this]
  show "\<exists>d. (if endswith f ''.json.gz'' then read_gz_json E f else read_json E f) = Inr d
           \<and> len s = length d"
    by (simp add: len_def)
next
  assume "csv_init E f fld out sh fs shm = Inr s"
  from init_data(2) [OF this] show "\<exists>d. read_csv E f = Inr d \<and> len s = length d"
    by (simp add: len_def)
next
  assume "imagelist_init E f out fld sh fs = Inr s"
  from init_data(3) [OF this] show "\<exists>d. parse_paths E f = Inr d \<and> len s = length d"
    by (simp add: len_def)
next
  assume "imagefolder_init E fld out exts sh fs = Inr s"
  from init_data(4) [OF this] show "\<exists>d. parse_folder E exts fld = Inr d \<and> len s = length d"
    by (simp add: len_def)
qed

theorem length_is_manifest_size_witness:
  "imagelist_init example_env ''list.txt'' ''out'' ''root'' False (- 1) = Inr example_image_list
   \<and> parse_paths example_env ''list.txt'' = Inr (data example_image_list)
   \<and> len example_image_list = 3
   \<and> length (fst (consume example_env ImageList 3 (example_image_list, iter_data None))) = 2
   \<and> len (fst (snd (snd (consume example_env ImageList 3 (example_image_list, iter_data None))))) = 3"
proof -
  obtain rs fin s' g' where
    c: "consume example_env ImageList 3 (example_image_list, iter_data None) = (rs, fin, s', g')"
    by (cases "consume example_env ImageList 3 (example_image_list, iter_data None)")
  note th = length_is_manifest_size
    [where E = example_env and f = "''list.txt''" and fld = "''root''" and out = "''out''"
       and sh = False and fs = "- 1" and s = example_image_list and v = ImageList
       and n = 3 and g = "iter_data None" and rs = rs and fin = fin and s'' = s' and g'' = g']
  have i: "imagelist_init example_env ''list.txt'' ''out'' ''root'' False (- 1) = Inr example_image_list"
    by (rule example_image_list_init)
  from th i have p: "\<exists>d. parse_paths example_env ''list.txt'' = Inr d \<and> len example_image_list = length d"
    by blast
  from th c have l: "len s' = len example_image_list"
    by blast
  have n: "len example_image_list = 3"
    by (simp add: len_def example_image_list_def)
  have d: "parse_paths example_env ''list.txt'' = Inr (data example_image_list)"
    using p init_data(3) [OF i] by simp
  have two: "length rs = 2"
    using c example_image_list_run by auto
  show ?thesis
    using i d n l c two by simp
qed

subsection \<open>A missing image\<close>

lemma imagelist_body_not_found:
  assumes "m_path (heap s ! a) = Some p"
    "resize_by_short_edge E (path_join (folder s) p) (frame_size s) = Inl (ImageNotFound msg)"
  shows "body E ImageList s a = (s\<lparr>stdout := stdout s @ [msg]\<rparr>, Continue)"
  using assms by (simp add: body_def imagelist_body_def Let_def)

text \<open>
  Claim C7. In \<^verbatim>\<open>ImageListAdapter\<close>, a record whose image is reported missing
  (\<^verbatim>\<open>ImageNotFound\<close>) is printed and left out, and the same call of \<^verbatim>\<open>next\<close> goes
  on with the following record. In the three other classes the loop body has no
  \<^verbatim>\<open>continue\<close>: whatever exception the acquisition of the frames raises (a missing
  image included) comes out of \<^verbatim>\<open>next\<close>, the remaining records are not visited,
  nothing is written, and the generator is finished.
\<close>

theorem only_image_list_tolerates_missing_image:
  "(m_path (heap s ! a) = Some p
      \<and> resize_by_short_edge E (path_join (folder s) p) (frame_size s) = Inl (ImageNotFound msg)
    \<longrightarrow> gen_next E ImageList (s, Suspended (a # rest))
          = gen_next E ImageList (s\<lparr>stdout := stdout s @ [msg]\<rparr>, Suspended rest)
        \<and> consume E ImageList (Suc n) (s, Suspended (a # rest))
          = consume E ImageList (Suc n) (s\<lparr>stdout := stdout s @ [msg]\<rparr>, Suspended rest))
   \<and> (m_path (heap s ! a) = Some p
      \<and> resize_by_short_edge E (path_join (path_join (folder s) p) (m_id (heap s ! a))) (frame_size s)
          = Inl e
    \<longrightarrow> consume E ImageFolder (Suc n) (s, Suspended (a # rest)) = ([], Some (Failed e), s, Finished))
   \<and> (find_images_in_folder E (path_join (folder s) (m_id (heap s ! a))) [''jpg''] = Inr frame_paths
      \<and> resize_images E frame_paths (frame_size s) = Inl e
    \<longrightarrow> consume E CsvJpeg (Suc n) (s, Suspended (a # rest)) = ([], Some (Failed e), s, Finished))
   \<and> (find_images_in_folder E (path_join (folder s) (m_id (heap s ! a))) [''jpg''] = Inl e
    \<longrightarrow> consume E CsvJpeg (Suc n) (s, Suspended (a # rest)) = ([], Some (Failed e), s, Finished))
   \<and> (get_single_video_path E (path_join (folder s) (m_id (heap s ! a))) ''mp4'' = Inr video_path
      \<and> temp_dir_for_bursting E (shm_dir_path s) = Inr temp_burst_dir
      \<and> burst_video_into_frames E video_path temp_burst_dir (frame_rate s) = Inr frame_paths
      \<and> resize_images E frame_paths (frame_size s) = Inl e
    \<longrightarrow> consume E JsonVideo (Suc n) (s, Suspended (a # rest)) = ([], Some (Failed e), s, Finished))
   \<and> (get_single_video_path E (path_join (folder s) (m_id (heap s ! a))) ''mp4'' = Inl e
      \<or> get_single_video_path E (path_join (folder s) (m_id (heap s ! a))) ''mp4'' = Inr video_path
          \<and> (temp_dir_for_bursting E (shm_dir_path s) = Inl e
              \<or> temp_dir_for_bursting E (shm_dir_path s) = Inr temp_burst_dir
                 \<and> burst_video_into_frames E video_path temp_burst_dir (frame_rate s) = Inl e)
    \<longrightarrow> consume E JsonVideo (Suc n) (s, Suspended (a # rest)) = ([], Some (Failed e), s, Finished))
   \<and> (v \<noteq> ImageList \<longrightarrow> \<not> skipped E v s a)
   \<and> gen_next E v (s, Finished) = (StopIteration, s, Finished)"
proof -
  have A: "gen_next E ImageList (s, Suspended (a # rest))
          = gen_next E ImageList (s\<lparr>stdout := stdout s @ [msg]\<rparr>, Suspended rest)
        \<and> consume E ImageList (Suc n) (s, Suspended (a # rest))
          = consume E ImageList (Suc n) (s\<lparr>stdout := stdout s @ [msg]\<rparr>, Suspended rest)"
    if "m_path (heap s ! a) = Some p
      \<and> resize_by_short_edge E (path_join (folder s) p) (frame_size s) = Inl (ImageNotFound msg)"
    using imagelist_body_not_found [of s a p E msg] that
      gen_next_suspended_continue [of E ImageList s a _ rest]
      consume_suspended_continue [of E ImageList s a _ n rest]
    by blast
  have B: "consume E ImageFolder (Suc n) (s, Suspended (a # rest)) = ([], Some (Failed e), s, Finished)"
    if "m_path (heap s ! a) = Some p
      \<and> resize_by_short_edge E (path_join (path_join (folder s) p) (m_id (heap s ! a))) (frame_size s)
          = Inl e"
  proof -
    have "body E ImageFolder s a = (s, Abort e)"
      using that by (simp add: body_def imagefolder_body_def Let_def)
    then show ?thesis by (rule consume_suspended_abort)
  qed
  have C: "consume E CsvJpeg (Suc n) (s, Suspended (a # rest)) = ([], Some (Failed e), s, Finished)"
    if "find_images_in_folder E (path_join (folder s) (m_id (heap s ! a))) [''jpg''] = Inr frame_paths
      \<and> resize_images E frame_paths (frame_size s) = Inl e"
  proof -
    have "body E CsvJpeg s a = (s, Abort e)"
      using that by (simp add: body_def csv_body_def Let_def)
    then show ?thesis by (rule consume_suspended_abort)
  qed
  have D: "consume E CsvJpeg (Suc n) (s, Suspended (a # rest)) = ([], Some (Failed e), s, Finished)"
    if "find_images_in_folder E (path_join (folder s) (m_id (heap s ! a))) [''jpg''] = Inl e"
  proof -
    have "body E CsvJpeg s a = (s, Abort e)"
      using that by (simp add: body_def csv_body_def Let_def)
    then show ?thesis by (rule consume_suspended_abort)
  qed
  have F: "consume E JsonVideo (Suc n) (s, Suspended (a # rest)) = ([], Some (Failed e), s, Finished)"
    if "get_single_video_path E (path_join (folder s) (m_id (heap s ! a))) ''mp4'' = Inr video_path
      \<and> temp_dir_for_bursting E (shm_dir_path s) = Inr temp_burst_dir
      \<and> burst_video_into_frames E video_path temp_burst_dir (frame_rate s) = Inr frame_paths
      \<and> resize_images E frame_paths (frame_size s) = Inl e"
  proof -
    have "body E JsonVideo s a = (s, Abort e)"
      using that by (simp add: body_def json_body_def Let_def)
    then show ?thesis by (rule consume_suspended_abort)
  qed
  have G: "consume E JsonVideo (Suc n) (s, Suspended (a # rest)) = ([], Some (Failed e), s, Finished)"
    if "get_single_video_path E (path_join (folder s) (m_id (heap s ! a))) ''mp4'' = Inl e
      \<or> get_single_video_path E (path_join (folder s) (m_id (heap s ! a))) ''mp4'' = Inr video_path
          \<and> (temp_dir_for_bursting E (shm_dir_path s) = Inl e
              \<or> temp_dir_for_bursting E (shm_dir_path s) = Inr temp_burst_dir
                 \<and> burst_video_into_frames E video_path temp_burst_dir (frame_rate s) = Inl e)"
  proof -
    have "body E JsonVideo s a = (s, Abort e)"
      using that by (auto simp: body_def json_body_def Let_def)
    then show ?thesis by (rule consume_suspended_abort)
  qed
  have H: "\<not> skipped E v s a" if "v \<noteq> ImageList"
    using body_no_continue [OF that, of E s a] by (simp add: skipped_def split: step.splits)
  show ?thesis
    using A B C D F G H gen_next_finished by blast
qed

theorem only_image_list_tolerates_missing_image_witness:
  "m_path (heap example_image_list ! 1) = Some ''b/y.jpg''
   \<and> resize_by_short_edge example_env (path_join (folder example_image_list) ''b/y.jpg'')
         (frame_size example_image_list) = Inl (ImageNotFound ''root/b/y.jpg'')
   \<and> consume example_env ImageList 2 (example_image_list, Suspended [1, 2])
       = consume example_env ImageList 2
           (example_image_list\<lparr>stdout := [''root/b/y.jpg'']\<rparr>, Suspended [2])
   \<and> fst (consume example_env ImageList 2 (example_image_list, Suspended [1, 2]))
       = [\<lparr>r_meta = 2, r_frames = [12], r_id = ''z.jpg''\<rparr>]
   \<and> consume no_image_env ImageFolder 1 (example_image_folder, Suspended [0])
       = ([], Some (Failed (ImageNotFound ''/d/b/y.png'')), example_image_folder, Finished)
   \<and> consume no_image_env CsvJpeg 1 (example_csv, Suspended [0, 1, 2])
       = ([], Some (Failed (ImageNotFound ''frames/1/0001.jpg'')), example_csv, Finished)
   \<and> consume no_image_env JsonVideo 1 (example_csv, Suspended [0, 1, 2])
       = ([], Some (Failed (ImageNotFound ''/dev/shm/burst/0001.jpg'')), example_csv, Finished)"
proof -
  have h1: "m_path (heap example_image_list ! 1) = Some ''b/y.jpg''"
    by (simp add: example_image_list_def)
  have h2: "resize_by_short_edge example_env (path_join (folder example_image_list) ''b/y.jpg'')
         (frame_size example_image_list) = Inl (ImageNotFound ''root/b/y.jpg'')"
    by (simp add: example_image_list_def example_env_def path_join_def)
  have so: "stdout example_image_list @ [''root/b/y.jpg''] = [''root/b/y.jpg'']"
    by (simp add: example_image_list_def)
  have c1: "consume example_env ImageList 2 (example_image_list, Suspended [1, 2])
       = consume example_env ImageList 2
           (example_image_list\<lparr>stdout := [''root/b/y.jpg'']\<rparr>, Suspended [2])"
    using only_image_list_tolerates_missing_image
      [where s = example_image_list and a = 1 and p = "''b/y.jpg''" and E = example_env
         and msg = "''root/b/y.jpg''" and rest = "[2]" and n = 1] h1 h2 so
    by (simp del: consume.simps add: numeral_2_eq_2)
  have r1: "fst (consume example_env ImageList 2 (example_image_list, Suspended [1, 2]))
       = [\<lparr>r_meta = 2, r_frames = [12], r_id = ''z.jpg''\<rparr>]"
    by code_simp
  have h3: "m_path (heap example_image_folder ! 0) = Some ''/d/b''
      \<and> resize_by_short_edge no_image_env
           (path_join (path_join (folder example_image_folder) ''/d/b'')
              (m_id (heap example_image_folder ! 0)))
           (frame_size example_image_folder) = Inl (ImageNotFound ''/d/b/y.png'')"
    by (simp add: example_image_folder_def no_image_env_def path_join_def)
  have c2: "consume no_image_env ImageFolder 1 (example_image_folder, Suspended [0])
       = ([], Some (Failed (ImageNotFound ''/d/b/y.png'')), example_image_folder, Finished)"
    using only_image_list_tolerates_missing_image
      [where s = example_image_folder and a = 0 and p = "''/d/b''" and E = no_image_env
         and e = "ImageNotFound ''/d/b/y.png''" and rest = "[]" and n = 0] h3
    by (simp del: consume.simps)
  have h4: "find_images_in_folder no_image_env
              (path_join (folder example_csv) (m_id (heap example_csv ! 0))) [''jpg'']
            = Inr [''frames/1/0001.jpg'']
      \<and> resize_images no_image_env [''frames/1/0001.jpg''] (frame_size example_csv)
            = Inl (ImageNotFound ''frames/1/0001.jpg'')"
    by (simp add: example_csv_def no_image_env_def example_env_def path_join_def)
  have c3: "consume no_image_env CsvJpeg 1 (example_csv, Suspended [0, 1, 2])
       = ([], Some (Failed (ImageNotFound ''frames/1/0001.jpg'')), example_csv, Finished)"
    using only_image_list_tolerates_missing_image
      [where s = example_csv and a = 0 and E = no_image_env
         and frame_paths = "[''frames/1/0001.jpg'']"
         and e = "ImageNotFound ''frames/1/0001.jpg''" and rest = "[1, 2]" and n = 0] h4
    by (simp del: consume.simps)
  have h5: "get_single_video_path no_image_env
              (path_join (folder example_csv) (m_id (heap example_csv ! 0))) ''mp4''
            = Inr ''frames/1/video.mp4''
      \<and> temp_dir_for_bursting no_image_env (shm_dir_path example_csv) = Inr ''/dev/shm/burst''
      \<and> burst_video_into_frames no_image_env ''frames/1/video.mp4'' ''/dev/shm/burst''
            (frame_rate example_csv) = Inr [''/dev/shm/burst/0001.jpg'']
      \<and> resize_images no_image_env [''/dev/shm/burst/0001.jpg''] (frame_size example_csv)
            = Inl (ImageNotFound ''/dev/shm/burst/0001.jpg'')"
    by (simp add: example_csv_def no_image_env_def example_env_def path_join_def)
  have c4: "consume no_image_env JsonVideo 1 (example_csv, Suspended [0, 1, 2])
       = ([], Some (Failed (ImageNotFound ''/dev/shm/burst/0001.jpg'')), example_csv, Finished)"
    using only_image_list_tolerates_missing_image
      [where s = example_csv and a = 0 and E = no_image_env
         and video_path = "''frames/1/video.mp4''" and temp_burst_dir = "''/dev/shm/burst''"
         and frame_paths = "[''/dev/shm/burst/0001.jpg'']"
         and e = "ImageNotFound ''/dev/shm/burst/0001.jpg''" and rest = "[1, 2]" and n = 0] h5
    by (simp del: consume.simps)
  show ?thesis
    using h1 h2 c1 r1 c2 c3 c4 by (simp del: consume.simps)
qed

subsection \<open>The format of the JSON manifest\<close>

lemma endswith_last: "endswith s suffix \<Longrightarrow> suffix \<noteq> [] \<Longrightarrow> last s = last suffix"
proof -
  assume a: "endswith s suffix" and b: "suffix \<noteq> []"
  then have d: "drop (length s - length suffix) s = suffix" and l: "length suffix \<le> length s"
    by (auto simp: endswith_def)
  have "length s - length suffix < length s"
    using l b by (cases suffix) auto
  then have "last (drop (length s - length suffix) s) = last s"
    by (rule last_drop)
  then show ?thesis using d by simp
qed

lemma json_not_gz: "endswith f ''.json'' \<Longrightarrow> \<not> endswith f ''.json.gz''"
  using endswith_last [of f "''.json''"] endswith_last [of f "''.json.gz''"] by auto

lemma example_json_data:
  "create_label2idx_dict ''template''
     [[(''id'', ''7''), (''template'', ''push'')], [(''id'', ''8''), (''template'', ''pull'')]]
     = Inr [(''pull'', 0), (''push'', 1)]"
  by code_simp

lemma example_json_meta:
  "get_meta_json
     [[(''id'', ''7''), (''template'', ''push'')], [(''id'', ''8''), (''template'', ''pull'')]]
     [(''pull'', 0), (''push'', 1)]
     = Inr [\<lparr>m_id = ''7'', m_label = ''push'', m_idx = 1, m_path = None\<rparr>,
            \<lparr>m_id = ''8'', m_label = ''pull'', m_idx = 0, m_path = None\<rparr>]"
  by (simp add: get_meta_json_def meta_20bn_def getitem_def)

text \<open>
  Claim C8. The constructor of the JSON/video adapter reads a manifest whose name
  ends in \<^verbatim>\<open>.json.gz\<close> with \<^verbatim>\<open>read_gz_json\<close> (gzip, then JSON) and one whose name
  ends in \<^verbatim>\<open>.json\<close> with \<^verbatim>\<open>read_json\<close>: the records of the adapter are what
  that reader returned, its failure is the constructor's, and with well-formed
  records the adapter is built from them. For any other name the constructor
  raises \<^verbatim>\<open>RuntimeError\<close> and returns no adapter, whatever the files hold.
\<close>

theorem json_manifest_by_extension:
  "(endswith json_file ''.json.gz'' \<longrightarrow>
      (\<forall>s. json_init E json_file fld out sh fs fr shm = Inr s
            \<longrightarrow> read_gz_json E json_file = Inr (data s))
      \<and> (\<forall>e. read_gz_json E json_file = Inl e
            \<longrightarrow> json_init E json_file fld out sh fs fr shm = Inl e)
      \<and> (\<forall>d l2i metas. read_gz_json E json_file = Inr d
              \<and> create_label2idx_dict ''template'' d = Inr l2i \<and> get_meta_json d l2i = Inr metas
            \<longrightarrow> json_init E json_file fld out sh fs fr shm
                  = Inr (new_adapter E d l2i metas out fld sh fs fr shm)))
   \<and> (endswith json_file ''.json'' \<longrightarrow>
      (\<forall>s. json_init E json_file fld out sh fs fr shm = Inr s
            \<longrightarrow> read_json E json_file = Inr (data s))
      \<and> (\<forall>e. read_json E json_file = Inl e
            \<longrightarrow> json_init E json_file fld out sh fs fr shm = Inl e)
      \<and> (\<forall>d l2i metas. read_json E json_file = Inr d
              \<and> create_label2idx_dict ''template'' d = Inr l2i \<and> get_meta_json d l2i = Inr metas
            \<longrightarrow> json_init E json_file fld out sh fs fr shm
                  = Inr (new_adapter E d l2i metas out fld sh fs fr shm)))
   \<and> (\<not> endswith json_file ''.json.gz'' \<and> \<not> endswith json_file ''.json'' \<longrightarrow>
        json_init E json_file fld out sh fs fr shm
          = Inl (RuntimeError ''Wrong data file format (.json.gz or .json)''))"
proof (intro conjI impI)
  assume gz: "endswith json_file ''.json.gz''"
  show "\<forall>s. json_init E json_file fld out sh fs fr shm = Inr s
            \<longrightarrow> read_gz_json E json_file = Inr (data s)"
    using gz by (auto simp: json_init_def new_adapter_def split: sum.splits)
  show "\<forall>e. read_gz_json E json_file = Inl e
            \<longrightarrow> json_init E json_file fld out sh fs fr shm = Inl e"
    using gz by (simp add: json_init_def)
  show "\<forall>d l2i metas. read_gz_json E json_file = Inr d
              \<and> create_label2idx_dict ''template'' d = Inr l2i \<and> get_meta_json d l2i = Inr metas
            \<longrightarrow> json_init E json_file fld out sh fs fr shm
                  = Inr (new_adapter E d l2i metas out fld sh fs fr shm)"
    using gz by (simp add: json_init_def)
next
  assume js: "endswith json_file ''.json''"
  note ngz = json_not_gz [OF js]
  show "\<forall>s. json_init E json_file fld out sh fs fr shm = Inr s
            \<longrightarrow> read_json E json_file = Inr (data s)"
    using js ngz by (auto simp: json_init_def new_adapter_def split: sum.splits)
  show "\<forall>e. read_json E json_file = Inl e
            \<longrightarrow> json_init E json_file fld out sh fs fr shm = Inl e"
    using js ngz by (simp add: json_init_def)
  show "\<forall>d l2i metas. read_json E json_file = Inr d
              \<and> create_label2idx_dict ''template'' d = Inr l2i \<and> get_meta_json d l2i = Inr metas
            \<longrightarrow> json_init E json_file fld out sh fs fr shm
                  = Inr (new_adapter E d l2i metas out fld sh fs fr shm)"
    using js ngz by (simp add: json_init_def)
next
  assume "\<not> endswith json_file ''.json.gz'' \<and> \<not> endswith json_file ''.json''"
  then show "json_init E json_file fld out sh fs fr shm
          = Inl (RuntimeError ''Wrong data file format (.json.gz or .json)'')"
    by (simp add: json_init_def)
qed

theorem json_manifest_by_extension_witness:
  "endswith ''train.json.gz'' ''.json.gz''
   \<and> endswith ''train.json'' ''.json''
   \<and> \<not> endswith ''train.csv'' ''.json.gz'' \<and> \<not> endswith ''train.csv'' ''.json''
   \<and> read_gz_json example_env ''train.json.gz''
       = Inr [[(''id'', ''7''), (''template'', ''push'')], [(''id'', ''8''), (''template'', ''pull'')]]
   \<and> read_json example_env ''train.json''
       = Inr [[(''id'', ''7''), (''template'', ''push'')], [(''id'', ''8''), (''template'', ''pull'')]]
   \<and> json_init example_env ''train.json.gz'' ''videos'' ''out'' False (- 1) 8 ''/dev/shm''
       = Inr (new_adapter example_env
               [[(''id'', ''7''), (''template'', ''push'')], [(''id'', ''8''), (''template'', ''pull'')]]
               [(''pull'', 0), (''push'', 1)]
               [\<lparr>m_id = ''7'', m_label = ''push'', m_idx = 1, m_path = None\<rparr>,
                \<lparr>m_id = ''8'', m_label = ''pull'', m_idx = 0, m_path = None\<rparr>]
               ''out'' ''videos'' False (- 1) 8 ''/dev/shm'')
   \<and> json_init example_env ''train.json'' ''videos'' ''out'' False (- 1) 8 ''/dev/shm''
       = json_init example_env ''train.json.gz'' ''videos'' ''out'' False (- 1) 8 ''/dev/shm''
   \<and> json_init example_env ''train.csv'' ''videos'' ''out'' False (- 1) 8 ''/dev/shm''
       = Inl (RuntimeError ''Wrong data file format (.json.gz or .json)'')"
proof -
  have e1: "endswith ''train.json.gz'' ''.json.gz''" and e2: "endswith ''train.json'' ''.json''"
    and e3: "\<not> endswith ''train.csv'' ''.json.gz'' \<and> \<not> endswith ''train.csv'' ''.json''"
    by (simp_all add: endswith_def)
  have r1: "read_gz_json example_env ''train.json.gz''
       = Inr [[(''id'', ''7''), (''template'', ''push'')], [(''id'', ''8''), (''template'', ''pull'')]]"
    by (simp add: read_gz_json_def example_env_def)
  have r2: "read_json example_env ''train.json''
       = Inr [[(''id'', ''7''), (''template'', ''push'')], [(''id'', ''8''), (''template'', ''pull'')]]"
    by (simp add: read_json_def example_env_def)
  note th1 = json_manifest_by_extension
    [of "''train.json.gz''" example_env "''videos''" "''out''" False "- 1" 8 "''/dev/shm''"]
  note th2 = json_manifest_by_extension
    [of "''train.json''" example_env "''videos''" "''out''" False "- 1" 8 "''/dev/shm''"]
  note th3 = json_manifest_by_extension
    [of "''train.csv''" example_env "''videos''" "''out''" False "- 1" 8 "''/dev/shm''"]
  have i1: "json_init example_env ''train.json.gz'' ''videos'' ''out'' False (- 1) 8 ''/dev/shm''
       = Inr (new_adapter example_env
               [[(''id'', ''7''), (''template'', ''push'')], [(''id'', ''8''), (''template'', ''pull'')]]
               [(''pull'', 0), (''push'', 1)]
               [\<lparr>m_id = ''7'', m_label = ''push'', m_idx = 1, m_path = None\<rparr>,
                \<lparr>m_id = ''8'', m_label = ''pull'', m_idx = 0, m_path = None\<rparr>]
               ''out'' ''videos'' False (- 1) 8 ''/dev/shm'')"
    using th1 e1 r1 example_json_data example_json_meta by blast
  have i2: "json_init example_env ''train.json'' ''videos'' ''out'' False (- 1) 8 ''/dev/shm''
       = Inr (new_adapter example_env
               [[(''id'', ''7''), (''template'', ''push'')], [(''id'', ''8''), (''template'', ''pull'')]]
               [(''pull'', 0), (''push'', 1)]
               [\<lparr>m_id = ''7'', m_label = ''push'', m_idx = 1, m_path = None\<rparr>,
                \<lparr>m_id = ''8'', m_label = ''pull'', m_idx = 0, m_path = None\<rparr>]
               ''out'' ''videos'' False (- 1) 8 ''/dev/shm'')"
    using th2 e2 r2 example_json_data example_json_meta by blast
  have i3: "json_init example_env ''train.csv'' ''videos'' ''out'' False (- 1) 8 ''/dev/shm''
       = Inl (RuntimeError ''Wrong data file format (.json.gz or .json)'')"
    using th3 e3 by blast
  show ?thesis
    using e1 e2 e3 r1 r2 i1 i2 i3 by simp
qed

subsection \<open>The CSV example\<close>

lemma csv_rows:
  "csv_reader (CHR '';'') ''1;cat\<newline>2;dog\<newline>3;cat\<newline>''
     = ([[''1'', ''cat''], [''2'', ''dog''], [''3'', ''cat'']], None)"
  by code_simp

lemma example_read_csv: "read_csv (E\<lparr>open_text := (\<lambda>f. Inr ''1;cat\<newline>2;dog\<newline>3;cat\<newline>'')\<rparr>) csv_file
  = Inr [[(''id'', ''1''), (''label'', ''cat'')], [(''id'', ''2''), (''label'', ''dog'')], [(''id'', ''3''), (''label'', ''cat'')]]"
  by (simp add: read_csv_def csv_rows csv_entry_def)

lemma example_csv_labels: "create_label2idx_dict ''label'' [[(''id'', ''1''), (''label'', ''cat'')], [(''id'', ''2''), (''label'', ''dog'')], [(''id'', ''3''), (''label'', ''cat'')]] = Inr [(''cat'', 0), (''dog'', 1)]"
  by code_simp

lemma example_csv_meta: "get_meta_csv [[(''id'', ''1''), (''label'', ''cat'')], [(''id'', ''2''), (''label'', ''dog'')], [(''id'', ''3''), (''label'', ''cat'')]] [(''cat'', 0), (''dog'', 1)]
   = Inr [\<lparr>m_id = ''1'', m_label = ''cat'', m_idx = 0, m_path = None\<rparr>,
          \<lparr>m_id = ''2'', m_label = ''dog'', m_idx = 1, m_path = None\<rparr>,
          \<lparr>m_id = ''3'', m_label = ''cat'', m_idx = 0, m_path = None\<rparr>]"
  by (simp add: get_meta_csv_def meta_20bn_def getitem_def)

text \<open>
  Claim C9. With \<^verbatim>\<open>shuffle=False\<close>, the CSV/JPEG adapter built from the manifest
  \<^verbatim>\<open>"1;cat\n2;dog\n3;cat\n"\<close> (whatever the file name, folders and sizes) has the
  label index \<^verbatim>\<open>{cat: 0, dog: 1}\<close> and the meta records
  \<^verbatim>\<open>{id: 1, label: cat, idx: 0}\<close>, \<^verbatim>\<open>{id: 2, label: dog, idx: 1}\<close>,
  \<^verbatim>\<open>{id: 3, label: cat, idx: 0}\<close>, in that order.
\<close>

theorem csv_example:
  "\<exists>s. csv_init (E\<lparr>open_text := (\<lambda>f. Inr ''1;cat\<newline>2;dog\<newline>3;cat\<newline>'')\<rparr>)
            csv_file fld out False fsize shm = Inr s
       \<and> labels2idx s = [(''cat'', 0), (''dog'', 1)]
       \<and> metas_of s = [\<lparr>m_id = ''1'', m_label = ''cat'', m_idx = 0, m_path = None\<rparr>,
                        \<lparr>m_id = ''2'', m_label = ''dog'', m_idx = 1, m_path = None\<rparr>,
                        \<lparr>m_id = ''3'', m_label = ''cat'', m_idx = 0, m_path = None\<rparr>]"
  by (simp add: csv_init_def example_read_csv example_csv_labels example_csv_meta new_adapter_def metas_of_def upt_rec)

subsection \<open>A second iteration of ImageListAdapter\<close>

text \<open>
  Claim C10, as amended. Let a consumer call \<^verbatim>\<open>next\<close> any number of times on
  \<^verbatim>\<open>iter_data(sl)\<close> of an \<^verbatim>\<open>ImageListAdapter\<close> (freshly built or not), whether or
  not it drains the generator. Every meta dictionary it was handed is an element
  of \<^verbatim>\<open>self.all_meta\<close> and has lost its \<^verbatim>\<open>'path'\<close> key, in place: the object at the
  same address is what it was, less that key.

  After a drained iteration, and in the same world, take a second call
  \<^verbatim>\<open>iter_data(sl2)\<close> and its window over the \<^verbatim>\<open>all_meta\<close> the first call left.
  If the window holds at least one of the dictionaries handed out, the second call
  raises \<^verbatim>\<open>KeyError('path')\<close> at the first \<^verbatim>\<open>next\<close>, before it yields anything and
  without writing \<^verbatim>\<open>label2idx.json\<close>. If it holds none of them (only records
  skipped before, or no record), the second call yields nothing, ends normally at
  the first \<^verbatim>\<open>next\<close> and writes \<^verbatim>\<open>label2idx.json\<close> once more. The call without a
  slice is of the first kind as soon as the first iteration has yielded a result.
\<close>

theorem image_list_second_iteration:
  assumes wf: "well_formed s"
    and first: "consume E ImageList n (s, iter_data sl) = (rs, fin, s1, g1)"
  shows "(\<forall>r \<in> set rs. r_meta r \<in> set (all_meta s1) \<and> m_path (heap s1 ! r_meta r) = None
            \<and> heap s1 ! r_meta r = (heap s ! r_meta r)\<lparr>m_path := None\<rparr>)
       \<and> (fin = Some Drained \<longrightarrow>
            (\<forall>sl2 w2. getslice (all_meta s1) (default_slice s1 sl2) = Inr w2 \<longrightarrow>
               ((\<exists>r \<in> set rs. r_meta r \<in> set w2) \<longrightarrow>
                  (\<exists>s2. consume E ImageList (Suc m) (s1, iter_data sl2)
                           = ([], Some (Failed (KeyError ''path'')), s2, Finished)
                        \<and> heap s2 = heap s1 \<and> written s2 = written s1))
               \<and> ((\<forall>r \<in> set rs. r_meta r \<notin> set w2) \<longrightarrow>
                  (\<exists>s2. consume E ImageList (Suc m) (s1, iter_data sl2)
                           = ([], Some Drained, s2, Finished)
                        \<and> heap s2 = heap s1
                        \<and> written s2 = written s1
                            @ [(path_join (output_folder s1) ''label2idx.json'', labels2idx s1)])))
            \<and> (rs \<noteq> [] \<longrightarrow>
                 (\<exists>s2. consume E ImageList (Suc m) (s1, iter_data None)
                          = ([], Some (Failed (KeyError ''path'')), s2, Finished)
                       \<and> heap s2 = heap s1 \<and> written s2 = written s1)))"
proof -
  have popped: "r_meta r \<in> set (all_meta s1) \<and> m_path (heap s1 ! r_meta r) = None
            \<and> heap s1 ! r_meta r = (heap s ! r_meta r)\<lparr>m_path := None\<rparr>"
    if "r \<in> set rs" for r
    using yielded_popped_created [OF wf first] that by simp
  have second: "(\<forall>sl2 w2. getslice (all_meta s1) (default_slice s1 sl2) = Inr w2 \<longrightarrow>
               ((\<exists>r \<in> set rs. r_meta r \<in> set w2) \<longrightarrow>
                  (\<exists>s2. consume E ImageList (Suc m) (s1, iter_data sl2)
                           = ([], Some (Failed (KeyError ''path'')), s2, Finished)
                        \<and> heap s2 = heap s1 \<and> written s2 = written s1))
               \<and> ((\<forall>r \<in> set rs. r_meta r \<notin> set w2) \<longrightarrow>
                  (\<exists>s2. consume E ImageList (Suc m) (s1, iter_data sl2)
                           = ([], Some Drained, s2, Finished)
                        \<and> heap s2 = heap s1
                        \<and> written s2 = written s1
                            @ [(path_join (output_folder s1) ''label2idx.json'', labels2idx s1)])))
            \<and> (rs \<noteq> [] \<longrightarrow>
                 (\<exists>s2. consume E ImageList (Suc m) (s1, iter_data None)
                          = ([], Some (Failed (KeyError ''path'')), s2, Finished)
                       \<and> heap s2 = heap s1 \<and> written s2 = written s1))"
    if dr: "fin = Some Drained"
  proof -
    have run: "consume E ImageList n (s, iter_data sl) = (rs, Some Drained, s1, g1)"
      using first dr by simp
    note st = first_run_state [OF wf run]
    have cond: "\<forall>x \<in> set (all_meta s1). m_path (heap s1 ! x) = None \<or> skipped E ImageList s1 x"
      using st by blast
    have fr: "same_config s s1" "persist E s = None"
      using consume_frame [OF run] by (simp_all add: iter_data_def)
    have pk: "persist E s1 = None"
      using fr persist_cong [of s s1 E] by simp
    have A: "\<exists>s2. consume E ImageList (Suc m) (s1, iter_data sl2)
                         = ([], Some (Failed (KeyError ''path'')), s2, Finished)
                       \<and> heap s2 = heap s1 \<and> written s2 = written s1"
      if gs: "getslice (all_meta s1) (default_slice s1 sl2) = Inr w2"
        and ex: "\<exists>r \<in> set rs. r_meta r \<in> set w2" for sl2 w2
    proof -
      have "\<exists>x \<in> set w2. m_path (heap s1 ! x) = None"
        using ex popped by blast
      from second_call_fails [OF cond gs this] show ?thesis .
    qed
    have B: "\<exists>s2. consume E ImageList (Suc m) (s1, iter_data sl2) = ([], Some Drained, s2, Finished)
                        \<and> heap s2 = heap s1
                        \<and> written s2 = written s1
                            @ [(path_join (output_folder s1) ''label2idx.json'', labels2idx s1)]"
      if gs: "getslice (all_meta s1) (default_slice s1 sl2) = Inr w2"
        and no: "\<forall>r \<in> set rs. r_meta r \<notin> set w2" for sl2 w2
    proof -
      have sub: "set w2 \<subseteq> set (all_meta s1)"
        by (rule getslice_subset [OF gs])
      have "skipped E ImageList s1 x" if xin: "x \<in> set w2" for x
      proof -
        have "x \<notin> set (map r_meta rs)"
          using no xin by auto
        moreover have "x \<in> set (all_meta s1)"
          using sub xin by auto
        ultimately show ?thesis
          using st by blast
      qed
      then have sk: "\<forall>x \<in> set w2. skipped E ImageList s1 x"
        by simp
      from second_call_skips [OF sk gs pk, of m] show ?thesis
        by (simp add: label2idx_dump_def del: consume.simps)
    qed
    have C: "\<exists>s2. consume E ImageList (Suc m) (s1, iter_data None)
                         = ([], Some (Failed (KeyError ''path'')), s2, Finished)
                       \<and> heap s2 = heap s1 \<and> written s2 = written s1"
      if ne: "rs \<noteq> []"
    proof -
      have "well_formed s1"
        by (rule well_formed_consume [OF wf first])
      then have "int (length (all_meta s1)) \<le> int (len s1)"
        by (simp add: well_formed_def len_def)
      then have gs: "getslice (all_meta s1) (default_slice s1 None) = Inr (all_meta s1)"
        by (simp add: default_slice_def getslice_whole)
      obtain r where "r \<in> set rs"
        using ne by (cases rs) auto
      then have "\<exists>r \<in> set rs. r_meta r \<in> set (all_meta s1)"
        using popped by blast
      from A [OF gs this] show ?thesis .
    qed
    show ?thesis
      using A B C by blast
  qed
  show ?thesis
    using popped second by blast
qed

theorem image_list_second_iteration_witness:
  "well_formed example_image_list
   \<and> consume example_env ImageList 3 (example_image_list, iter_data None)
       = ([\<lparr>r_meta = 0, r_frames = [12], r_id = ''x.jpg''\<rparr>,
           \<lparr>r_meta = 2, r_frames = [12], r_id = ''z.jpg''\<rparr>],
          Some Drained, example_image_list_after, Finished)
   \<and> m_path (heap example_image_list_after ! 0) = None
   \<and> m_path (heap example_image_list_after ! 2) = None
   \<and> fst (consume example_env ImageList 1 (example_image_list_after, iter_data None)) = []
   \<and> fst (snd (consume example_env ImageList 1 (example_image_list_after, iter_data None)))
       = Some (Failed (KeyError ''path''))
   \<and> getslice (all_meta example_image_list_after)
         (default_slice example_image_list_after (Some (Slice (Some 1) (Some 2) None))) = Inr [1]
   \<and> fst (consume example_env ImageList 1
         (example_image_list_after, iter_data (Some (Slice (Some 1) (Some 2) None)))) = []
   \<and> fst (snd (consume example_env ImageList 1
         (example_image_list_after, iter_data (Some (Slice (Some 1) (Some 2) None)))))
       = Some Drained
   \<and> fst (snd (consume example_env ImageList 1 (example_image_list, iter_data None))) = None
   \<and> map r_meta (fst (consume example_env ImageList 1 (example_image_list, iter_data None))) = [0]
   \<and> m_path (heap (fst (snd (snd (consume example_env ImageList 1
         (example_image_list, iter_data None))))) ! 0) = None"
proof -
  let ?rs = "[\<lparr>r_meta = 0, r_frames = [12::nat], r_id = ''x.jpg''\<rparr>,
              \<lparr>r_meta = 2, r_frames = [12], r_id = ''z.jpg''\<rparr>]"
  let ?sl = "Some (Slice (Some 1) (Some 2) None)"
  note th = image_list_second_iteration
    [OF example_image_list_well_formed example_image_list_run, where m = 0]
  have "\<forall>r \<in> set ?rs. r_meta r \<in> set (all_meta example_image_list_after)
          \<and> m_path (heap example_image_list_after ! r_meta r) = None"
    using th by blast
  then have p: "m_path (heap example_image_list_after ! 0) = None"
    "m_path (heap example_image_list_after ! 2) = None"
    by simp_all
  have "?rs \<noteq> []" by simp
  then obtain s2 where
    "consume example_env ImageList (Suc 0) (example_image_list_after, iter_data None)
       = ([], Some (Failed (KeyError ''path'')), s2, Finished)"
    using th by blast
  then have c: "fst (consume example_env ImageList 1 (example_image_list_after, iter_data None)) = []"
    "fst (snd (consume example_env ImageList 1 (example_image_list_after, iter_data None)))
       = Some (Failed (KeyError ''path''))"
    by simp_all
  have gs: "getslice (all_meta example_image_list_after)
         (default_slice example_image_list_after ?sl) = Inr [1]"
    by code_simp
  have no: "\<forall>r \<in> set ?rs. r_meta r \<notin> set [1::nat]"
    by simp
  obtain s3 where
    "consume example_env ImageList (Suc 0) (example_image_list_after, iter_data ?sl)
       = ([], Some Drained, s3, Finished)"
    using th gs no by blast
  then have k: "fst (consume example_env ImageList 1 (example_image_list_after, iter_data ?sl)) = []"
    "fst (snd (consume example_env ImageList 1 (example_image_list_after, iter_data ?sl)))
       = Some Drained"
    by simp_all
  obtain rs1 fin1 t1 g1 where
    e: "consume example_env ImageList 1 (example_image_list, iter_data None) = (rs1, fin1, t1, g1)"
    by (cases "consume example_env ImageList 1 (example_image_list, iter_data None)")
  have e1: "fst (snd (consume example_env ImageList 1 (example_image_list, iter_data None))) = None"
    and e2: "map r_meta (fst (consume example_env ImageList 1 (example_image_list, iter_data None)))
      = [0]"
    by code_simp+
  have "\<forall>r \<in> set rs1. m_path (heap t1 ! r_meta r) = None"
    using image_list_second_iteration [OF example_image_list_well_formed e] by blast
  moreover have "map r_meta rs1 = [0]"
    using e e2 by simp
  ultimately have "m_path (heap t1 ! 0) = None"
    by (cases rs1) auto
  then have e3: "m_path (heap (fst (snd (snd (consume example_env ImageList 1
         (example_image_list, iter_data None))))) ! 0) = None"
    using e by simp
  show ?thesis
    using example_image_list_well_formed example_image_list_run p c gs k e1 e2 e3
    by (simp del: consume.simps)
qed

text \<open>
  Claim C10 as it was stated (after one successful non-empty iteration, a second
  call of \<^verbatim>\<open>iter_data\<close> fails with a missing-key error) does not hold for every
  second call. In the example, the first iteration yields \<^verbatim>\<open>x.jpg\<close> and
  \<^verbatim>\<open>z.jpg\<close> and skips \<^verbatim>\<open>y.jpg\<close>; a second call \<^verbatim>\<open>iter_data(slice(1, 2))\<close> then
  visits \<^verbatim>\<open>y.jpg\<close> only, which still has its path: it is skipped again, the
  generator runs out without an exception and writes \<^verbatim>\<open>label2idx.json\<close> once more.
\<close>

theorem image_list_second_call_without_error:
  "imagelist_init example_env ''list.txt'' ''out'' ''root'' False (- 1) = Inr example_image_list
   \<and> consume example_env ImageList 3 (example_image_list, iter_data None)
       = ([\<lparr>r_meta = 0, r_frames = [12], r_id = ''x.jpg''\<rparr>,
           \<lparr>r_meta = 2, r_frames = [12], r_id = ''z.jpg''\<rparr>],
          Some Drained, example_image_list_after, Finished)
   \<and> consume example_env ImageList 1
         (example_image_list_after, iter_data (Some (Slice (Some 1) (Some 2) None)))
       = ([], Some Drained,
          example_image_list_after
            \<lparr>all_meta := [1],
             written := [(''out/label2idx.json'', [(''cat'', 0), (''dog'', 1)]),
                         (''out/label2idx.json'', [(''cat'', 0), (''dog'', 1)])],
             stdout := [''root/b/y.jpg'', ''root/b/y.jpg'']\<rparr>,
          Finished)"
proof -
  have "consume example_env ImageList 1
         (example_image_list_after, iter_data (Some (Slice (Some 1) (Some 2) None)))
       = ([], Some Drained,
          example_image_list_after
            \<lparr>all_meta := [1],
             written := [(''out/label2idx.json'', [(''cat'', 0), (''dog'', 1)]),
                         (''out/label2idx.json'', [(''cat'', 0), (''dog'', 1)])],
             stdout := [''root/b/y.jpg'', ''root/b/y.jpg'']\<rparr>,
          Finished)"
    by code_simp
  then show ?thesis
    using example_image_list_init example_image_list_run by (simp del: consume.simps)
qed


end
